(* ===== verification/Prelude.thy ===== *)
theory Prelude
  imports Main "HOL-Library.Word" "HOL-Library.AList" "HOL-Library.Multiset"
begin

text \<open>
  Shared vocabulary of the development: machine integers and the clock of the Go
  run-time, decimal printing as \<^verbatim>\<open>fmt.Sprintf("%d")\<close> does it, Go maps as association
  lists, and three locales for what a loop of the program keeps.
\<close>

section \<open>Fact collections\<close>

named_theorems go_simps \<open>rewrite rules for the Go run-time vocabulary\<close>
named_theorems frame_simps \<open>what an operation leaves unchanged\<close>
named_theorems keeps_intros \<open>preservation of well-formedness by an operation\<close>

section \<open>Machine integers\<close>

text \<open>
  Go's \<^verbatim>\<open>int32\<close>, \<^verbatim>\<open>int64\<close>, \<^verbatim>\<open>uint64\<close> and (on the 64-bit targets) \<^verbatim>\<open>int\<close> wrap
  around; the signed ones are compared by their two's complement value \<^term>\<open>sint\<close>.
\<close>

type_synonym int32 = "32 word"
type_synonym int64 = "64 word"
type_synonym uint64 = "64 word"

lemma sint_inject: "sint a = sint b \<longleftrightarrow> a = b" for a b :: "'a::len word"
  by (metis of_int_sint scast_id)

lemma sint32_bounds: "- (2 ^ 31) \<le> sint a" "sint a < 2 ^ 31" for a :: int32
  using sint_ge [of a] sint_lt [of a] by simp_all

lemma sint64_bounds: "- (2 ^ 63) \<le> sint a" "sint a < 2 ^ 63" for a :: int64
  using sint_ge [of a] sint_lt [of a] by simp_all

lemma sint_plus1_32:
  fixes a :: int32
  assumes "sint a < 2 ^ 31 - 1"
  shows "sint (a + 1) = sint a + 1"
proof -
  have "sint (a + 1) = (sint a + 1 + 2 ^ 31) mod 2 ^ 32 - 2 ^ 31"
    using int_word_sint [where 'a = 32, of "sint a + 1"] by simp
  with assms sint32_bounds [of a] show ?thesis by simp
qed

lemma sint_word_of_int_64:
  assumes "- (2 ^ 63) \<le> i" "i < 2 ^ 63"
  shows "sint (word_of_int i :: int64) = i"
  using assms by (simp add: int_word_sint)

lemma sint_add_64:
  fixes a b :: int64
  assumes "- (2 ^ 63) \<le> sint a + sint b" "sint a + sint b < 2 ^ 63"
  shows "sint (a + b) = sint a + sint b"
proof -
  have "a + b = word_of_int (sint a + sint b)" by simp
  then show ?thesis using assms by (metis sint_word_of_int_64)
qed

lemma sint_uminus_64:
  fixes a :: int64
  assumes "- (2 ^ 63) < sint a"
  shows "sint (- a) = - sint a"
proof -
  have "- a = word_of_int (- sint a)" by simp
  moreover have "sint (word_of_int (- sint a) :: int64) = - sint a"
    using assms sint64_bounds [of a] by (intro sint_word_of_int_64) simp_all
  ultimately show ?thesis by simp
qed

section \<open>The clock\<close>

text \<open>
  A \<^verbatim>\<open>time.Time\<close> is the number of nanoseconds since Go's zero time (1 January of year 1,
  UTC), so \<^verbatim>\<open>IsZero\<close> is \<open>t = 0\<close>; a \<^verbatim>\<open>time.Duration\<close> is an \<^verbatim>\<open>int64\<close> of nanoseconds.
  \<^verbatim>\<open>Sub\<close> saturates at the ends of the \<^verbatim>\<open>int64\<close> range, as the Go library does: the
  difference of the present and the zero time is the largest duration.
\<close>

type_synonym time = int
type_synonym duration = int64

definition time_IsZero :: "time \<Rightarrow> bool" where
  [go_simps]: "time_IsZero t \<longleftrightarrow> t = 0"

definition time_After :: "time \<Rightarrow> time \<Rightarrow> bool" where
  [go_simps]: "time_After t u \<longleftrightarrow> u < t"

definition time_Add :: "time \<Rightarrow> duration \<Rightarrow> time" where
  [go_simps]: "time_Add t d = t + sint d"

definition time_Sub :: "time \<Rightarrow> time \<Rightarrow> duration" where
  "time_Sub t u = word_of_int (max (- (2 ^ 63)) (min (2 ^ 63 - 1) (t - u)))"

definition time_Unix :: "time \<Rightarrow> int64" where
  "time_Unix t = word_of_int (t div 1000000000 - 62135596800)"

definition Second :: duration where
  "Second = 1000000000"

definition Millisecond :: duration where
  "Millisecond = 1000000"

lemma sint_time_Sub [go_simps]:
  "sint (time_Sub t u) = max (- (2 ^ 63)) (min (2 ^ 63 - 1) (t - u))"
  unfolding time_Sub_def by (rule sint_word_of_int_64) auto

lemma time_Sub_ge: "sint d \<le> sint (time_Sub t u) \<longleftrightarrow> sint d \<le> t - u"
  if "- (2 ^ 63) < sint d" for d :: duration
  using that sint64_bounds [of d] by (auto simp: sint_time_Sub)

lemma time_Sub_gt: "sint d < sint (time_Sub t u) \<longleftrightarrow> sint d < t - u"
  if "sint d < 2 ^ 63 - 1" for d :: duration
  using that sint64_bounds [of d] by (auto simp: sint_time_Sub)

section \<open>Decimal printing\<close>

definition digit :: "nat \<Rightarrow> char" where
  "digit n = char_of (48 + n)"

fun dec_nat :: "nat \<Rightarrow> string" where
  "dec_nat n = (if n < 10 then [digit n] else dec_nat (n div 10) @ [digit (n mod 10)])"

declare dec_nat.simps [simp del]

definition dec_int :: "int \<Rightarrow> string" where
  "dec_int i = (if i < 0 then CHR ''-'' # dec_nat (nat (- i)) else dec_nat (nat i))"

definition undec :: "string \<Rightarrow> nat" where
  "undec s = foldl (\<lambda>a c. a * 10 + (of_char c - 48)) 0 s"

lemma of_char_digit: "n < 10 \<Longrightarrow> (of_char (digit n) :: nat) = 48 + n"
  by (simp add: digit_def)

lemma undec_dec_nat: "undec (dec_nat n) = n"
proof (induction n rule: dec_nat.induct)
  case (1 n)
  show ?case
  proof (cases "n < 10")
    case True
    then show ?thesis by (simp add: dec_nat.simps [of n] undec_def of_char_digit)
  next
    case False
    with "1.IH" show ?thesis
      by (simp add: dec_nat.simps [of n] undec_def of_char_digit)
  qed
qed

lemma digit_in_dec_nat: "c \<in> set (dec_nat n) \<Longrightarrow> 48 \<le> (of_char c :: nat) \<and> (of_char c :: nat) < 58"
proof (induction n rule: dec_nat.induct)
  case (1 n)
  then show ?case
    by (cases "n < 10") (auto simp: dec_nat.simps [of n] of_char_digit)
qed

lemma dec_nat_inject: "dec_nat m = dec_nat n \<longleftrightarrow> m = n"
  by (metis undec_dec_nat)

lemma minus_notin_dec_nat: "CHR ''-'' \<notin> set (dec_nat n)"
  using digit_in_dec_nat [of "CHR ''-''" n] by auto

lemma colon_notin_dec_int: "CHR '':'' \<notin> set (dec_int i)"
  using digit_in_dec_nat [of "CHR '':''"] by (auto simp: dec_int_def)

lemma dec_int_inject: "dec_int i = dec_int j \<longleftrightarrow> i = j"
proof
  assume eq: "dec_int i = dec_int j"
  have "CHR ''-'' # s \<noteq> dec_nat n" for s n
    using minus_notin_dec_nat [of n] by (metis list.set_intros(1))
  with eq show "i = j"
    by (auto simp: dec_int_def dec_nat_inject split: if_splits) metis
qed simp

lemma split_at_last:
  assumes "xs @ c # s = ys @ c # t" "c \<notin> set s" "c \<notin> set t"
  shows "xs = ys \<and> s = t"
  using assms
proof (induction xs arbitrary: ys)
  case Nil
  then show ?case by (cases ys) auto
next
  case (Cons x xs)
  then show ?case by (cases ys) auto
qed

text \<open>\<^verbatim>\<open>strings.ToLower\<close> on ASCII letters.\<close>

definition lower_char :: "char \<Rightarrow> char" where
  "lower_char c = (let n = of_char c :: nat in if 65 \<le> n \<and> n \<le> 90 then char_of (n + 32) else c)"

definition ToLower :: "string \<Rightarrow> string" where
  "ToLower s = map lower_char s"

section \<open>Go maps\<close>

text \<open>
  A Go map with string keys is an association list with distinct keys. The order of the
  list is the order in which a \<^verbatim>\<open>range\<close> loop meets the entries; Go leaves that order
  open, so every statement is made for maps in any order.
\<close>

type_synonym 'v gomap = "(string \<times> 'v) list"

abbreviation has_key :: "'v gomap \<Rightarrow> string \<Rightarrow> bool" where
  "has_key m k \<equiv> map_of m k \<noteq> None"

text \<open>
  \<open>keyed kf m\<close>: the keys are distinct and every entry is filed under the key that \<open>kf\<close>
  computes from its value. The program keeps this for its two string-keyed stores.
\<close>

definition keyed :: "('v \<Rightarrow> string) \<Rightarrow> 'v gomap \<Rightarrow> bool" where
  "keyed kf m \<longleftrightarrow> distinct (map fst m) \<and> list_all (\<lambda>(k, v). k = kf v) m"

lemma keyed_Nil [simp]: "keyed kf []"
  by (simp add: keyed_def)

lemma keyed_distinct: "keyed kf m \<Longrightarrow> distinct (map fst m)"
  by (simp add: keyed_def)

lemma keyed_key: "keyed kf m \<Longrightarrow> (k, v) \<in> set m \<Longrightarrow> k = kf v"
  by (auto simp: keyed_def list_all_iff)

lemma keyed_get: "keyed kf m \<Longrightarrow> map_of m k = Some v \<Longrightarrow> k = kf v"
  by (auto dest: map_of_SomeD keyed_key)

lemma set_update_subset: "set (AList.update k v m) \<subseteq> insert (k, v) (set m)"
  by (induction m) auto

lemma keyed_put [keeps_intros]: "keyed kf m \<Longrightarrow> k = kf v \<Longrightarrow> keyed kf (AList.update k v m)"
  using set_update_subset [of k v m]
  by (fastforce simp: keyed_def list_all_iff distinct_update)

lemma set_delete_subset: "set (AList.delete k m) \<subseteq> set m"
  by (auto simp: AList.delete_eq)

lemma keyed_del [keeps_intros]: "keyed kf m \<Longrightarrow> keyed kf (AList.delete k m)"
  using set_delete_subset [of k m] by (auto simp: keyed_def list_all_iff distinct_delete)

lemma fst_map_values [simp]: "map fst (map (\<lambda>(k, v). (k, f k v)) m) = map fst m"
  by (induction m) auto

lemma map_of_map_values [simp]:
  "map_of (map (\<lambda>(k, v). (k, f k v)) m) k = map_option (f k) (map_of m k)"
  by (induction m) auto

lemma keyed_map_values [keeps_intros]:
  assumes "keyed kf m" "\<And>k v. kf (f k v) = kf v"
  shows "keyed kf (map (\<lambda>(k, v). (k, f k v)) m)"
  using assms unfolding keyed_def fst_map_values by (fastforce simp: list_all_iff)

lemma keyed_update_iff_mem:
  "keyed kf m \<Longrightarrow> map_of m k = Some v \<longleftrightarrow> (k, v) \<in> set m"
  by (simp add: keyed_def map_of_eq_Some_iff)

text \<open>
  The interface of a Go map, as its clients use it: read, write, delete and the key set.
  The loops that delete a collected list of keys are proved over the interface.
\<close>

locale go_map =
  fixes get :: "'m \<Rightarrow> 'k \<Rightarrow> 'v option"
    and put :: "'k \<Rightarrow> 'v \<Rightarrow> 'm \<Rightarrow> 'm"
    and del :: "'k \<Rightarrow> 'm \<Rightarrow> 'm"
    and keys :: "'m \<Rightarrow> 'k set"
  assumes get_put: "get (put k v m) k' = (if k' = k then Some v else get m k')"
    and get_del: "get (del k m) k' = (if k' = k then None else get m k')"
    and keys_get: "k \<in> keys m \<longleftrightarrow> get m k \<noteq> None"
begin

lemma get_del_all: "get (fold del ks m) k = (if k \<in> set ks then None else get m k)"
  by (induction ks arbitrary: m) (auto simp: get_del)

lemma keys_put: "keys (put k v m) = insert k (keys m)"
  by (auto simp: keys_get get_put split: if_splits)

lemma keys_put_present: "k \<in> keys m \<Longrightarrow> keys (put k v m) = keys m"
  by (auto simp: keys_put)

lemma keys_del: "keys (del k m) = keys m - {k}"
  by (auto simp: keys_get get_del split: if_splits)

lemma keys_del_all: "keys (fold del ks m) = keys m - set ks"
  by (auto simp: keys_get get_del_all split: if_splits)

end

interpretation am: go_map "\<lambda>m :: 'v gomap. map_of m" AList.update AList.delete "\<lambda>m. fst ` set m"
  by unfold_locales (auto simp: update_conv' delete_conv' map_of_eq_None_iff image_iff)

lemma map_of_put [simp]:
  "map_of (AList.update k v m) = (map_of m)(k \<mapsto> v)"
  by (rule update_conv')

lemma map_of_del [simp]: "map_of (AList.delete k m) = (map_of m)(k := None)"
  by (rule delete_conv')

lemma keyed_del_all [keeps_intros]: "keyed kf m \<Longrightarrow> keyed kf (fold AList.delete ks m)"
  by (induction ks arbitrary: m) (auto intro: keyed_del)

section \<open>What a loop keeps\<close>

text \<open>
  The program's \<^verbatim>\<open>for \<dots> range\<close> loops fold a step over a list. \<open>keeping\<close> carries an
  invariant through such a loop, \<open>framing\<close> an unchanged projection, \<open>growing\<close> a
  reflexive and transitive relation between the states before and after.
\<close>

locale keeping =
  fixes I :: "'s \<Rightarrow> bool" and step :: "'a \<Rightarrow> 's \<Rightarrow> 's"
  assumes step_keeps: "I s \<Longrightarrow> I (step a s)"
begin

lemma loop_keeps: "I s \<Longrightarrow> I (fold step as s)"
  by (induction as arbitrary: s) (auto intro: step_keeps)

end

locale framing =
  fixes proj :: "'s \<Rightarrow> 'c" and step :: "'a \<Rightarrow> 's \<Rightarrow> 's"
  assumes step_frames: "proj (step a s) = proj s"

sublocale framing \<subseteq> at_value: keeping "\<lambda>s. proj s = c" step for c
  by unfold_locales (simp add: step_frames)

context framing begin

lemma loop_frames: "proj (fold step as s) = proj s"
  by (rule at_value.loop_keeps) simp

end

locale growing =
  fixes le :: "'s \<Rightarrow> 's \<Rightarrow> bool" and step :: "'a \<Rightarrow> 's \<Rightarrow> 's"
  assumes le_refl: "le s s"
    and le_trans: "le s t \<Longrightarrow> le t u \<Longrightarrow> le s u"
    and step_grows: "le s (step a s)"

sublocale growing \<subseteq> above: keeping "le b" step for b
  by unfold_locales (blast intro: le_trans step_grows)

context growing begin

lemma loop_grows: "le s (fold step as s)"
  by (rule above.loop_keeps) (rule le_refl)

end

end
