(* ===== verification/Types.thy ===== *)
theory Types
  imports Prelude
begin

text \<open>
  The data of \<^verbatim>\<open>src/utils/types.go\<close>: node identities and their printed forms, member
  states, messages, detection modes and the timeout configurations. A struct is a record
  whose fields carry a short prefix (\<open>nid_\<close>, \<open>mb_\<close>, \<open>msg_\<close>, \<open>up_\<close>, \<open>to_\<close>, \<open>cfg_\<close>), a
  Go enumeration a datatype with one more constructor for the values that an \<^verbatim>\<open>int\<close> read
  from the network can have outside the named constants.
\<close>

section \<open>Node identities\<close>

record NodeID =
  nid_IP :: string
  nid_Port :: int64
  nid_Timestamp :: int64

definition zero_NodeID :: NodeID where
  "zero_NodeID = \<lparr>nid_IP = '''', nid_Port = 0, nid_Timestamp = 0\<rparr>"

definition NodeID_String :: "NodeID \<Rightarrow> string" where
  "NodeID_String n = nid_IP n @ CHR '':'' # dec_int (sint (nid_Port n))
     @ CHR '':'' # dec_int (sint (nid_Timestamp n))"

definition NodeID_Address :: "NodeID \<Rightarrow> string" where
  "NodeID_Address n = nid_IP n @ CHR '':'' # dec_int (sint (nid_Port n))"

definition NodeID_Equals :: "NodeID \<Rightarrow> NodeID \<Rightarrow> bool" where
  "NodeID_Equals n other \<longleftrightarrow> nid_IP n = nid_IP other \<and> nid_Port n = nid_Port other
     \<and> nid_Timestamp n = nid_Timestamp other"

lemma address_inject:
  "NodeID_Address a = NodeID_Address b \<longleftrightarrow> nid_IP a = nid_IP b \<and> nid_Port a = nid_Port b"
proof
  assume "NodeID_Address a = NodeID_Address b"
  then have "nid_IP a = nid_IP b \<and> dec_int (sint (nid_Port a)) = dec_int (sint (nid_Port b))"
    unfolding NodeID_Address_def
    by (rule split_at_last [OF _ colon_notin_dec_int colon_notin_dec_int])
  then show "nid_IP a = nid_IP b \<and> nid_Port a = nid_Port b"
    by (simp add: dec_int_inject sint_inject)
qed (simp add: NodeID_Address_def)

lemma string_is_address:
  "NodeID_String n = NodeID_Address n @ CHR '':'' # dec_int (sint (nid_Timestamp n))"
  by (simp add: NodeID_String_def NodeID_Address_def)

lemma string_inject [simp]: "NodeID_String a = NodeID_String b \<longleftrightarrow> a = b"
proof
  assume "NodeID_String a = NodeID_String b"
  then have "NodeID_Address a = NodeID_Address b
      \<and> dec_int (sint (nid_Timestamp a)) = dec_int (sint (nid_Timestamp b))"
    unfolding string_is_address
    by (rule split_at_last [OF _ colon_notin_dec_int colon_notin_dec_int])
  then show "a = b"
    by (cases a; cases b) (simp add: address_inject dec_int_inject sint_inject)
qed simp

lemma Equals_iff: "NodeID_Equals a b \<longleftrightarrow> a = b"
  by (cases a; cases b) (simp add: NodeID_Equals_def)

section \<open>Members\<close>

text \<open>
  \<open>UnknownStatus\<close> stands for the \<^verbatim>\<open>int\<close> values outside the three constants, which JSON
  decoding accepts; \<open>status_int\<close> is the number of a status.
\<close>

datatype MemberStatus = Alive | Suspected | Failed | UnknownStatus int

fun status_int :: "MemberStatus \<Rightarrow> int" where
  "status_int Alive = 0"
| "status_int Suspected = 1"
| "status_int Failed = 2"
| "status_int (UnknownStatus k) = (if k < 0 then k else k + 3)"

definition status_of_int :: "int \<Rightarrow> MemberStatus" where
  "status_of_int i = (if i = 0 then Alive else if i = 1 then Suspected else if i = 2 then Failed
     else UnknownStatus (if i < 0 then i else i - 3))"

lemma status_of_status_int: "status_of_int (status_int s) = s"
  by (cases s) (auto simp: status_of_int_def)

lemma status_int_of_int: "status_int (status_of_int i) = i"
  by (auto simp: status_of_int_def)

lemma status_int_inject: "status_int s = status_int t \<longleftrightarrow> s = t"
  by (metis status_of_status_int)

instantiation MemberStatus :: linorder
begin

definition less_eq_MemberStatus :: "MemberStatus \<Rightarrow> MemberStatus \<Rightarrow> bool" where
  "less_eq_MemberStatus s t \<longleftrightarrow> status_int s \<le> status_int t"

definition less_MemberStatus :: "MemberStatus \<Rightarrow> MemberStatus \<Rightarrow> bool" where
  "less_MemberStatus s t \<longleftrightarrow> status_int s < status_int t"

instance
  by standard (auto simp: less_eq_MemberStatus_def less_MemberStatus_def status_int_inject)

end

fun MemberStatus_String :: "MemberStatus \<Rightarrow> string" where
  "MemberStatus_String Alive = ''Alive''"
| "MemberStatus_String Suspected = ''Suspected''"
| "MemberStatus_String Failed = ''Failed''"
| "MemberStatus_String (UnknownStatus _) = ''Unknown''"

record Member =
  mb_ID :: NodeID
  mb_Incarnation :: int32
  mb_Status :: MemberStatus
  mb_LastHeartbeat :: time
  mb_SuspicionStart :: time

definition zero_Member :: Member where
  "zero_Member = \<lparr>mb_ID = zero_NodeID, mb_Incarnation = 0, mb_Status = Alive,
     mb_LastHeartbeat = 0, mb_SuspicionStart = 0\<rparr>"

text \<open>\<open>member_key\<close> is the key under which the store files a member.\<close>

definition member_key :: "Member \<Rightarrow> string" where
  "member_key m = NodeID_String (mb_ID m)"

lemma member_key_update [simp]:
  "member_key (m\<lparr>mb_Incarnation := i\<rparr>) = member_key m"
  "member_key (m\<lparr>mb_Status := s\<rparr>) = member_key m"
  "member_key (m\<lparr>mb_LastHeartbeat := t\<rparr>) = member_key m"
  "member_key (m\<lparr>mb_SuspicionStart := t\<rparr>) = member_key m"
  by (simp_all add: member_key_def)

section \<open>Messages\<close>

datatype MessageType =
    Heartbeat | Ping | Ack | IndirectPing | IndirectAck | Join | JoinResponse | Leave
  | Suspect | AliveMsg | Confirm | UnknownType int

record MemberUpdate =
  up_NodeID :: NodeID
  up_Incarnation :: int32
  up_Status :: MemberStatus
  up_Timestamp :: time

record Message =
  msg_Type :: MessageType
  msg_Sender :: NodeID
  msg_Target :: NodeID
  msg_Incarnation :: int32
  msg_SeqNum :: uint64
  msg_Members :: "MemberUpdate list"
  msg_Timestamp :: int64

text \<open>
  A composite literal leaves the fields it does not name at their zero values;
  \<open>message t\<close> is \<^verbatim>\<open>Message{Type: t}\<close>.
\<close>

definition message :: "MessageType \<Rightarrow> Message" where
  "message t = \<lparr>msg_Type = t, msg_Sender = zero_NodeID, msg_Target = zero_NodeID,
     msg_Incarnation = 0, msg_SeqNum = 0, msg_Members = [], msg_Timestamp = 0\<rparr>"

section \<open>Modes and configurations\<close>

datatype DetectionMode = GossipMode | PingAckMode

definition ParseMode :: "string \<Rightarrow> DetectionMode" where
  "ParseMode mode = (if mode = ''pingack'' then PingAckMode else GossipMode)"

record TimeoutConfig =
  to_FailureTimeout :: duration
  to_CleanupTimeout :: duration
  to_SuspicionTimeout :: duration
  to_GossipPeriod :: duration
  to_ProtocolPeriod :: duration
  to_AckTimeout :: duration
  to_CheckInterval :: duration

definition DefaultTimeoutConfig :: TimeoutConfig where
  "DefaultTimeoutConfig = \<lparr>
     to_FailureTimeout = 3 * Second,
     to_CleanupTimeout = 2 * Second,
     to_SuspicionTimeout = 2 * Second,
     to_GossipPeriod = 1 * Second,
     to_ProtocolPeriod = 1 * Second,
     to_AckTimeout = 250 * Millisecond,
     to_CheckInterval = 200 * Millisecond\<rparr>"

definition OptimalTimeoutConfig :: TimeoutConfig where
  "OptimalTimeoutConfig = \<lparr>
     to_FailureTimeout = 2 * Second,
     to_CleanupTimeout = 1 * Second,
     to_SuspicionTimeout = 1500 * Millisecond,
     to_GossipPeriod = 500 * Millisecond,
     to_ProtocolPeriod = 500 * Millisecond,
     to_AckTimeout = 150 * Millisecond,
     to_CheckInterval = 100 * Millisecond\<rparr>"

record Config =
  cfg_NodeID :: NodeID
  cfg_IntroducerAddr :: string
  cfg_IsIntroducer :: bool
  cfg_Mode :: DetectionMode
  cfg_Timeouts :: TimeoutConfig

section \<open>Properties\<close>

text \<open>
  C32: Two node identities print to the same key exactly when they are equal, and to the
  same address exactly when they agree in host and port, whatever characters (colons
  included) the host contains; so the string-keyed stores never confuse two nodes and a
  restarted node differs from its predecessor only in the key.
\<close>

theorem NodeID_keys:
  "(NodeID_String a = NodeID_String b) = NodeID_Equals a b
   \<and> (NodeID_Address a = NodeID_Address b) = (nid_IP a = nid_IP b \<and> nid_Port a = nid_Port b)"
  by (simp add: Equals_iff address_inject)

end
