(* ===== verification/Membership.thy ===== *)
theory Membership
  imports Types
begin

text \<open>
  The membership store of \<^verbatim>\<open>src/utils/membership.go\<close>: its state, one definition per
  method, its well-formedness and what each method does. A method that takes the lock is
  one function from the state before to the state after its critical section; \<open>now\<close> is
  the reading of \<^verbatim>\<open>time.Now()\<close> in it. A stored \<^verbatim>\<open>*Member\<close> is written by storing the
  changed record again under its key. \<^verbatim>\<open>rand.Shuffle\<close> is the library's loop over the
  random numbers \<open>rnd\<close>.
\<close>

section \<open>State and constructor\<close>

record MembershipList =
  ml_LocalNode :: NodeID
  ml_Members :: "Member gomap"
  ml_Incarnation :: int32
  ml_recentUpdates :: "MemberUpdate list"
  ml_updateWindow :: duration

abbreviation lookup :: "MembershipList \<Rightarrow> string \<Rightarrow> Member option" where
  "lookup ml k \<equiv> map_of (ml_Members ml) k"

definition local_key :: "MembershipList \<Rightarrow> string" where
  "local_key ml = NodeID_String (ml_LocalNode ml)"

definition store :: "string \<Rightarrow> Member \<Rightarrow> MembershipList \<Rightarrow> MembershipList" where
  "store k m ml = ml\<lparr>ml_Members := AList.update k m (ml_Members ml)\<rparr>"

definition discard :: "string \<Rightarrow> MembershipList \<Rightarrow> MembershipList" where
  "discard k ml = ml\<lparr>ml_Members := AList.delete k (ml_Members ml)\<rparr>"

definition NewMembershipList :: "NodeID \<Rightarrow> time \<Rightarrow> MembershipList" where
  "NewMembershipList localNode now =
     \<lparr>ml_LocalNode = localNode,
      ml_Members = [(NodeID_String localNode,
        zero_Member\<lparr>mb_ID := localNode, mb_Incarnation := 0, mb_Status := Alive,
          mb_LastHeartbeat := now\<rparr>)],
      ml_Incarnation = 0,
      ml_recentUpdates = [],
      ml_updateWindow = 5 * Second\<rparr>"

section \<open>Methods\<close>

definition AddRecentUpdate :: "time \<Rightarrow> Member \<Rightarrow> MembershipList \<Rightarrow> MembershipList" where
  "AddRecentUpdate now member ml =
     (let update = \<lparr>up_NodeID = mb_ID member, up_Incarnation = mb_Incarnation member,
        up_Status = mb_Status member, up_Timestamp = now\<rparr>
      in ml\<lparr>ml_recentUpdates := ml_recentUpdates ml @ [update]\<rparr>)"

definition AddRecentUpdateSafe :: "time \<Rightarrow> Member \<Rightarrow> MembershipList \<Rightarrow> MembershipList" where
  "AddRecentUpdateSafe now member ml = AddRecentUpdate now member ml"

definition AddMember :: "time \<Rightarrow> Member \<Rightarrow> MembershipList \<Rightarrow> MembershipList" where
  "AddMember now member ml =
     (let key = NodeID_String (mb_ID member) in
      if (case lookup ml key of None \<Rightarrow> True
          | Some existing \<Rightarrow> sint (mb_Incarnation member) > sint (mb_Incarnation existing))
      then AddRecentUpdate now member (store key member ml)
      else ml)"

definition UpdateMember ::
  "time \<Rightarrow> string \<Rightarrow> MemberStatus \<Rightarrow> int32 \<Rightarrow> MembershipList \<Rightarrow> MembershipList" where
  "UpdateMember now nodeID status incarnation ml =
     (case lookup ml nodeID of
        None \<Rightarrow> ml
      | Some member \<Rightarrow>
          if sint incarnation \<ge> sint (mb_Incarnation member) then
            let oldStatus = mb_Status member;
                member1 = member\<lparr>mb_Status := status, mb_Incarnation := incarnation\<rparr>;
                member2 = (if status = Alive then member1\<lparr>mb_LastHeartbeat := now\<rparr>
                   else if status = Suspected \<and> oldStatus = Alive
                   then member1\<lparr>mb_SuspicionStart := now\<rparr>
                   else member1)
            in AddRecentUpdate now member2 (store nodeID member2 ml)
          else ml)"

definition RemoveMember :: "time \<Rightarrow> string \<Rightarrow> MembershipList \<Rightarrow> MembershipList" where
  "RemoveMember now nodeID ml =
     (case lookup ml nodeID of
        None \<Rightarrow> ml
      | Some member \<Rightarrow>
          discard nodeID (AddRecentUpdate now (member\<lparr>mb_Status := Failed\<rparr>) ml))"

text \<open>\<^verbatim>\<open>rand.Shuffle(n, swap)\<close>: from the last index down, swap with a random earlier one.\<close>

definition swap :: "nat \<Rightarrow> nat \<Rightarrow> 'a list \<Rightarrow> 'a list" where
  "swap i j xs = xs[i := xs ! j, j := xs ! i]"

fun shuffle_from :: "(nat \<Rightarrow> nat) \<Rightarrow> nat \<Rightarrow> 'a list \<Rightarrow> 'a list" where
  "shuffle_from rnd 0 xs = xs"
| "shuffle_from rnd (Suc i) xs =
     shuffle_from rnd i (swap (Suc i) (rnd (Suc i) mod (Suc i + 1)) xs)"

definition shuffle :: "(nat \<Rightarrow> nat) \<Rightarrow> 'a list \<Rightarrow> 'a list" where
  "shuffle rnd xs = shuffle_from rnd (length xs - 1) xs"

text \<open>
  The slice expressions \<^verbatim>\<open>candidates[:n]\<close> and \<^verbatim>\<open>filtered[:limit]\<close> panic on a negative
  bound; that outcome is \<^term>\<open>None\<close>.
\<close>

definition candidates :: "string list \<Rightarrow> MembershipList \<Rightarrow> Member list" where
  "candidates exclude ml = map snd (filter (\<lambda>(k, member). k \<notin> set exclude
     \<and> mb_Status member = Alive \<and> k \<noteq> NodeID_String (ml_LocalNode ml)) (ml_Members ml))"

definition GetRandomMembers ::
  "(nat \<Rightarrow> nat) \<Rightarrow> int \<Rightarrow> string list \<Rightarrow> MembershipList \<Rightarrow> Member list option" where
  "GetRandomMembers rnd n exclude ml =
     (let cs = candidates exclude ml in
      if cs = [] then Some []
      else let n' = (if n > int (length cs) then int (length cs) else n) in
        if n' < 0 then None else Some (take (nat n') (shuffle rnd cs)))"

definition GetRecentUpdates ::
  "time \<Rightarrow> int \<Rightarrow> MembershipList \<Rightarrow> (MemberUpdate list \<times> MembershipList) option" where
  "GetRecentUpdates now limit ml =
     (let cutoff = time_Add now (- ml_updateWindow ml);
          filtered = filter (\<lambda>update. time_After (up_Timestamp update) cutoff)
            (ml_recentUpdates ml);
          ml' = ml\<lparr>ml_recentUpdates := filtered\<rparr>;
          limit' = (if limit > int (length filtered) then int (length filtered) else limit)
      in if filtered = [] then Some ([], ml')
         else if limit' < 0 then None else Some (take (nat limit') filtered, ml'))"

definition GetAllMembers :: "MembershipList \<Rightarrow> Member list" where
  "GetAllMembers ml = map (\<lambda>(k, member).
     zero_Member\<lparr>mb_ID := mb_ID member, mb_Incarnation := mb_Incarnation member,
       mb_Status := mb_Status member, mb_LastHeartbeat := mb_LastHeartbeat member\<rparr>)
     (ml_Members ml)"

definition GetSuspectedMembers :: "MembershipList \<Rightarrow> Member list" where
  "GetSuspectedMembers ml = map (\<lambda>(k, m).
     \<lparr>mb_ID = mb_ID m, mb_Incarnation = mb_Incarnation m, mb_Status = mb_Status m,
      mb_LastHeartbeat = mb_LastHeartbeat m, mb_SuspicionStart = mb_SuspicionStart m\<rparr>)
     (filter (\<lambda>(k, m). mb_Status m = Suspected) (ml_Members ml))"

definition IncrementIncarnation :: "MembershipList \<Rightarrow> MembershipList" where
  "IncrementIncarnation ml = ml\<lparr>ml_Incarnation := ml_Incarnation ml + 1\<rparr>"

definition RefreshLocalNode :: "time \<Rightarrow> MembershipList \<Rightarrow> MembershipList" where
  "RefreshLocalNode now ml =
     (let newNodeID = \<lparr>nid_IP = nid_IP (ml_LocalNode ml), nid_Port = nid_Port (ml_LocalNode ml),
            nid_Timestamp = time_Unix now\<rparr>;
          ml1 = discard (NodeID_String (ml_LocalNode ml)) ml;
          ml2 = ml1\<lparr>ml_LocalNode := newNodeID\<rparr>
      in store (NodeID_String newNodeID)
           (zero_Member\<lparr>mb_ID := newNodeID, mb_Incarnation := ml_Incarnation ml2,
              mb_Status := Alive, mb_LastHeartbeat := now\<rparr>) ml2)"

section \<open>Frames\<close>

lemma store_simps [simp]:
  "ml_Members (store k m ml) = AList.update k m (ml_Members ml)"
  "ml_LocalNode (store k m ml) = ml_LocalNode ml"
  "ml_Incarnation (store k m ml) = ml_Incarnation ml"
  "ml_recentUpdates (store k m ml) = ml_recentUpdates ml"
  "ml_updateWindow (store k m ml) = ml_updateWindow ml"
  by (simp_all add: store_def)

lemma discard_simps [simp]:
  "ml_Members (discard k ml) = AList.delete k (ml_Members ml)"
  "ml_LocalNode (discard k ml) = ml_LocalNode ml"
  "ml_Incarnation (discard k ml) = ml_Incarnation ml"
  "ml_recentUpdates (discard k ml) = ml_recentUpdates ml"
  "ml_updateWindow (discard k ml) = ml_updateWindow ml"
  by (simp_all add: discard_def)

lemma AddRecentUpdate_simps [simp]:
  "ml_Members (AddRecentUpdate now m ml) = ml_Members ml"
  "ml_LocalNode (AddRecentUpdate now m ml) = ml_LocalNode ml"
  "ml_Incarnation (AddRecentUpdate now m ml) = ml_Incarnation ml"
  "ml_updateWindow (AddRecentUpdate now m ml) = ml_updateWindow ml"
  by (simp_all add: AddRecentUpdate_def Let_def)

lemma AddRecentUpdateSafe_simps [simp]:
  "ml_Members (AddRecentUpdateSafe now m ml) = ml_Members ml"
  "ml_LocalNode (AddRecentUpdateSafe now m ml) = ml_LocalNode ml"
  "ml_Incarnation (AddRecentUpdateSafe now m ml) = ml_Incarnation ml"
  by (simp_all add: AddRecentUpdateSafe_def)

lemma local_key_simps [simp]:
  "local_key (store k m ml) = local_key ml"
  "local_key (discard k ml) = local_key ml"
  "local_key (AddRecentUpdate now m ml) = local_key ml"
  "local_key (AddRecentUpdateSafe now m ml) = local_key ml"
  by (simp_all add: local_key_def)

lemma update_same: "map_of al k = Some v \<Longrightarrow> AList.update k v al = al"
  by (induction al) (auto split: if_splits)

lemma store_same: "lookup ml k = Some m \<Longrightarrow> store k m ml = ml"
  by (simp add: store_def update_same)

section \<open>Well-formedness\<close>

text \<open>Every member is filed, once, under the printed form of its own identity.\<close>

definition wf_ml :: "MembershipList \<Rightarrow> bool" where
  "wf_ml ml \<longleftrightarrow> keyed member_key (ml_Members ml)"

lemma wf_ml_cong: "ml_Members ml' = ml_Members ml \<Longrightarrow> wf_ml ml' = wf_ml ml"
  by (simp add: wf_ml_def)

lemma wf_ml_recent [simp]:
  "wf_ml (AddRecentUpdate now m ml) = wf_ml ml"
  "wf_ml (AddRecentUpdateSafe now m ml) = wf_ml ml"
  by (simp_all add: wf_ml_def)

lemma wf_ml_fields [simp]:
  "wf_ml (ml\<lparr>ml_Incarnation := i\<rparr>) = wf_ml ml"
  "wf_ml (ml\<lparr>ml_recentUpdates := us\<rparr>) = wf_ml ml"
  "wf_ml (ml\<lparr>ml_LocalNode := n\<rparr>) = wf_ml ml"
  by (simp_all add: wf_ml_def)

lemma wf_ml_store [keeps_intros]: "wf_ml ml \<Longrightarrow> k = member_key m \<Longrightarrow> wf_ml (store k m ml)"
  by (simp add: wf_ml_def keyed_put)

lemma wf_ml_discard [keeps_intros]: "wf_ml ml \<Longrightarrow> wf_ml (discard k ml)"
  by (simp add: wf_ml_def keyed_del)

lemma wf_ml_lookup: "wf_ml ml \<Longrightarrow> lookup ml k = Some m \<Longrightarrow> k = member_key m"
  by (auto simp: wf_ml_def dest: keyed_get)

lemma wf_ml_lookup_id: "wf_ml ml \<Longrightarrow> lookup ml (NodeID_String n) = Some m \<Longrightarrow> mb_ID m = n"
  using wf_ml_lookup [of ml "NodeID_String n" m] by (simp add: member_key_def)

lemma wf_ml_New: "wf_ml (NewMembershipList n now)"
  by (simp add: wf_ml_def NewMembershipList_def keyed_def member_key_def)

lemma wf_ml_AddMember [keeps_intros]: "wf_ml ml \<Longrightarrow> wf_ml (AddMember now m ml)"
  by (simp add: AddMember_def Let_def wf_ml_store member_key_def)

lemma wf_ml_UpdateMember [keeps_intros]: "wf_ml ml \<Longrightarrow> wf_ml (UpdateMember now k st i ml)"
  by (auto simp: UpdateMember_def Let_def dest: wf_ml_lookup intro!: wf_ml_store
      split: option.splits)

lemma wf_ml_RemoveMember [keeps_intros]: "wf_ml ml \<Longrightarrow> wf_ml (RemoveMember now k ml)"
  by (auto simp: RemoveMember_def intro!: wf_ml_discard split: option.splits)

lemma wf_ml_GetRecentUpdates [keeps_intros]:
  "wf_ml ml \<Longrightarrow> GetRecentUpdates now l ml = Some (us, ml') \<Longrightarrow> wf_ml ml'"
  by (auto simp: GetRecentUpdates_def Let_def split: if_splits)

lemma wf_ml_RefreshLocalNode [keeps_intros]: "wf_ml ml \<Longrightarrow> wf_ml (RefreshLocalNode now ml)"
  by (auto simp: RefreshLocalNode_def Let_def member_key_def intro!: wf_ml_store wf_ml_discard)

section \<open>Growth of incarnations\<close>

text \<open>\<open>incs_grow ml ml'\<close>: no member of \<open>ml\<close> is lost or goes back to an older incarnation.\<close>

definition incs_grow :: "MembershipList \<Rightarrow> MembershipList \<Rightarrow> bool" where
  "incs_grow ml ml' \<longleftrightarrow> (\<forall>k a. lookup ml k = Some a \<longrightarrow>
     (\<exists>b. lookup ml' k = Some b \<and> sint (mb_Incarnation a) \<le> sint (mb_Incarnation b)))"

lemma incs_growI:
  "(\<And>k a. lookup ml k = Some a \<Longrightarrow>
     \<exists>b. lookup ml' k = Some b \<and> sint (mb_Incarnation a) \<le> sint (mb_Incarnation b))
   \<Longrightarrow> incs_grow ml ml'"
  by (simp add: incs_grow_def)

lemma incs_growD:
  "incs_grow ml ml' \<Longrightarrow> lookup ml k = Some a \<Longrightarrow>
    \<exists>b. lookup ml' k = Some b \<and> sint (mb_Incarnation a) \<le> sint (mb_Incarnation b)"
  by (simp add: incs_grow_def)

lemma incs_grow_refl [simp]: "incs_grow ml ml"
  by (simp add: incs_grow_def)

lemma incs_grow_trans: "incs_grow a b \<Longrightarrow> incs_grow b c \<Longrightarrow> incs_grow a c"
  unfolding incs_grow_def by (meson order_trans)

lemma incs_grow_members:
  "ml_Members ml' = ml_Members ml \<Longrightarrow> incs_grow ml ml'"
  by (simp add: incs_grow_def)

lemma incs_grow_recent [simp]:
  "incs_grow ml (AddRecentUpdate now m ml') = incs_grow ml ml'"
  "incs_grow ml (AddRecentUpdateSafe now m ml') = incs_grow ml ml'"
  by (simp_all add: incs_grow_def)

lemma incs_grow_store_new: "lookup ml k = None \<Longrightarrow> incs_grow ml (store k m ml)"
  by (auto simp: incs_grow_def)

lemma incs_grow_store:
  "lookup ml k = Some a \<Longrightarrow> sint (mb_Incarnation a) \<le> sint (mb_Incarnation m)
    \<Longrightarrow> incs_grow ml (store k m ml)"
  by (auto simp: incs_grow_def)

lemma incs_grow_store_iff: "incs_grow ml (store k m ml) \<longleftrightarrow> (case lookup ml k of None \<Rightarrow> True
    | Some a \<Rightarrow> sint (mb_Incarnation a) \<le> sint (mb_Incarnation m))"
  by (auto simp: incs_grow_def split: option.splits)

section \<open>Random members\<close>

lemma mset_swap_indices: "i < length xs \<Longrightarrow> j < length xs \<Longrightarrow> mset (swap i j xs) = mset xs"
  unfolding swap_def by (rule mset_swap)

lemma length_swap [simp]: "length (swap i j xs) = length xs"
  by (simp add: swap_def)

lemma mset_shuffle_from: "i < length xs \<Longrightarrow> mset (shuffle_from rnd i xs) = mset xs"
proof (induction i arbitrary: xs)
  case 0
  then show ?case by simp
next
  case (Suc i)
  have "rnd (Suc i) mod (Suc i + 1) < Suc i + 1" by (rule mod_less_divisor) simp
  with Suc.prems have "rnd (Suc i) mod (Suc i + 1) < length xs" by linarith
  with Suc show ?case by (simp add: mset_swap_indices del: mod_Suc)
qed

lemma mset_shuffle: "mset (shuffle rnd xs) = mset xs"
  by (cases xs) (simp_all add: shuffle_def mset_shuffle_from)

lemma set_shuffle [simp]: "set (shuffle rnd xs) = set xs"
  by (metis mset_shuffle set_mset_mset)

lemma length_shuffle [simp]: "length (shuffle rnd xs) = length xs"
  by (metis mset_shuffle size_mset)

lemma GetRandomMembers_take:
  assumes "0 \<le> n"
  shows "GetRandomMembers rnd n exclude ml
    = Some (take (nat n) (shuffle rnd (candidates exclude ml)))"
proof -
  have "take (nat n) (shuffle rnd cs) = take (length cs) (shuffle rnd cs)"
    if "int (length cs) < n" for cs :: "Member list"
    using that by simp
  with assms show ?thesis
    by (auto simp: GetRandomMembers_def Let_def shuffle_def)
qed

lemma candidates_iff:
  assumes "wf_ml ml"
  shows "m \<in> set (candidates exclude ml) \<longleftrightarrow> lookup ml (member_key m) = Some m
    \<and> member_key m \<notin> set exclude \<and> mb_Status m = Alive \<and> mb_ID m \<noteq> ml_LocalNode ml"
proof -
  have look: "lookup ml (member_key m) = Some m \<longleftrightarrow> (member_key m, m) \<in> set (ml_Members ml)"
    using assms by (simp add: wf_ml_def keyed_update_iff_mem)
  have key: "(k, m) \<in> set (ml_Members ml) \<Longrightarrow> k = member_key m" for k
    using assms unfolding wf_ml_def by (rule keyed_key)
  have "m \<in> set (candidates exclude ml) \<longleftrightarrow> (\<exists>k. (k, m) \<in> set (ml_Members ml) \<and> k \<notin> set exclude
      \<and> mb_Status m = Alive \<and> k \<noteq> NodeID_String (ml_LocalNode ml))"
    by (force simp: candidates_def)
  also have "\<dots> \<longleftrightarrow> (member_key m, m) \<in> set (ml_Members ml) \<and> member_key m \<notin> set exclude
      \<and> mb_Status m = Alive \<and> member_key m \<noteq> NodeID_String (ml_LocalNode ml)"
    by (metis key)
  finally show ?thesis unfolding look by (simp add: member_key_def)
qed

lemma keyed_filter: "keyed kf m \<Longrightarrow> keyed kf (filter P m)"
  by (auto simp: keyed_def list_all_iff distinct_map_filter)

lemma distinct_snd_keyed:
  assumes "keyed kf m"
  shows "distinct (map snd m)"
proof -
  have "inj_on snd (set m)"
    using assms by (intro inj_onI) (auto, metis keyed_key)
  moreover have "distinct m"
    using assms by (auto simp: keyed_def distinct_map)
  ultimately show ?thesis by (simp add: distinct_map)
qed

lemma distinct_candidates: "wf_ml ml \<Longrightarrow> distinct (candidates exclude ml)"
  unfolding candidates_def wf_ml_def by (intro distinct_snd_keyed keyed_filter)

section \<open>Removing collected members\<close>

lemma lookup_discard_all:
  "lookup (fold (\<lambda>m. discard (NodeID_String (mb_ID m))) ms ml) k
    = (if k \<in> member_key ` set ms then None else lookup ml k)"
  by (induction ms arbitrary: ml) (auto simp: member_key_def)

text \<open>A loop that collects members by a test and then removes them removes what passes the test.\<close>

lemma lookup_removed:
  assumes "wf_ml ml" "\<And>k. lookup ml2 k = map_option (f k) (lookup ml k)"
  shows "lookup (fold (\<lambda>m. discard (NodeID_String (mb_ID m)))
      (map snd (filter (\<lambda>(k, m). P k m) (ml_Members ml))) ml2) k =
    (case lookup ml k of None \<Rightarrow> None | Some m \<Rightarrow> if P k m then None else Some (f k m))"
proof -
  have mem: "lookup ml k = Some m \<longleftrightarrow> (k, m) \<in> set (ml_Members ml)" for k m
    using assms(1) by (intro keyed_update_iff_mem [of member_key]) (simp add: wf_ml_def)
  have key: "(k, m) \<in> set (ml_Members ml) \<Longrightarrow> member_key m = k" for k m
    using assms(1) unfolding mem [symmetric] by (metis wf_ml_lookup)
  have "k \<in> member_key ` set (map snd (filter (\<lambda>(k, m). P k m) (ml_Members ml)))
      \<longleftrightarrow> (\<exists>m. (k, m) \<in> set (ml_Members ml) \<and> P k m)"
    using key by force
  then show ?thesis
    unfolding lookup_discard_all assms(2) mem [symmetric] by (auto split: option.split)
qed

section \<open>Recent updates\<close>

definition in_window :: "time \<Rightarrow> MembershipList \<Rightarrow> MemberUpdate \<Rightarrow> bool" where
  "in_window now ml u \<longleftrightarrow> time_Add now (- ml_updateWindow ml) < up_Timestamp u"

lemma GetRecentUpdates_take:
  assumes "0 \<le> l"
  shows "GetRecentUpdates now l ml = Some (take (nat l) (filter (in_window now ml) (ml_recentUpdates ml)),
    ml\<lparr>ml_recentUpdates := filter (in_window now ml) (ml_recentUpdates ml)\<rparr>)"
proof -
  have "in_window now ml = (\<lambda>u. time_After (up_Timestamp u) (time_Add now (- ml_updateWindow ml)))"
    by (simp add: in_window_def time_After_def fun_eq_iff)
  with assms show ?thesis
    by (auto simp: GetRecentUpdates_def Let_def)
qed

section \<open>Properties\<close>

text \<open>
  \<^verbatim>\<open>AddMember\<close> files a member that is unknown or newer than the stored one and
  announces it; otherwise it changes nothing. No other entry is touched.
\<close>

theorem AddMember_spec:
  "lookup (AddMember now m ml) k =
     (if k = member_key m \<and> (case lookup ml k of None \<Rightarrow> True
         | Some old \<Rightarrow> sint (mb_Incarnation old) < sint (mb_Incarnation m))
      then Some m else lookup ml k)
   \<and> ml_recentUpdates (AddMember now m ml) = ml_recentUpdates ml @
     (if lookup ml (member_key m) = None
         \<or> sint (mb_Incarnation (the (lookup ml (member_key m)))) < sint (mb_Incarnation m)
      then [\<lparr>up_NodeID = mb_ID m, up_Incarnation = mb_Incarnation m, up_Status = mb_Status m,
             up_Timestamp = now\<rparr>]
      else [])"
  by (auto simp: AddMember_def AddRecentUpdate_def Let_def member_key_def split: option.split)

text \<open>
  \<^verbatim>\<open>UpdateMember\<close> on a known member takes over a status that is not older than the
  stored one and announces the result; a stale or unknown one changes nothing. A member
  that becomes suspected while alive gets the time of its suspicion, one that is alive the
  time of its heartbeat.
\<close>

theorem UpdateMember_spec:
  assumes "lookup ml k = Some m"
  shows "UpdateMember now k st i ml = (if sint i < sint (mb_Incarnation m) then ml
    else let m' = m\<lparr>mb_Status := st, mb_Incarnation := i,
          mb_LastHeartbeat := (if st = Alive then now else mb_LastHeartbeat m),
          mb_SuspicionStart := (if st = Suspected \<and> mb_Status m = Alive then now
            else mb_SuspicionStart m)\<rparr>
      in AddRecentUpdate now m' (store k m' ml))"
  using assms by (auto simp: UpdateMember_def Let_def)

theorem UpdateMember_witness:
  "UpdateMember 7 ''a:1:2'' Suspected 4
      \<lparr>ml_LocalNode = zero_NodeID, ml_Members = [(''a:1:2'', zero_Member)],
       ml_Incarnation = 0, ml_recentUpdates = [], ml_updateWindow = 0\<rparr>
    = \<lparr>ml_LocalNode = zero_NodeID,
       ml_Members = [(''a:1:2'', zero_Member\<lparr>mb_Status := Suspected, mb_Incarnation := 4,
         mb_SuspicionStart := 7\<rparr>)],
       ml_Incarnation = 0,
       ml_recentUpdates = [\<lparr>up_NodeID = zero_NodeID, up_Incarnation = 4, up_Status = Suspected,
         up_Timestamp = 7\<rparr>],
       ml_updateWindow = 0\<rparr>"
  by (subst UpdateMember_spec [where m = zero_Member])
    (simp_all add: zero_Member_def AddRecentUpdate_def store_def Let_def)

text \<open>
  C31: \<^verbatim>\<open>GetRandomMembers(n, exclude)\<close> returns, for every outcome of the shuffle, distinct
  members that are alive, not excluded and not the local node, as many as asked for or all
  there are.
\<close>

theorem GetRandomMembers_spec:
  assumes "wf_ml ml" "0 \<le> n"
  shows "\<exists>ms. GetRandomMembers rnd n exclude ml = Some ms \<and> distinct ms
    \<and> length ms = min (nat n) (length (candidates exclude ml))
    \<and> list_all (\<lambda>m. lookup ml (member_key m) = Some m \<and> member_key m \<notin> set exclude
        \<and> mb_Status m = Alive \<and> mb_ID m \<noteq> ml_LocalNode ml) ms"
proof -
  have "distinct (shuffle rnd (candidates exclude ml))"
    using distinct_candidates [OF assms(1)] by (metis mset_eq_imp_distinct_iff mset_shuffle)
  moreover have "set (take (nat n) (shuffle rnd (candidates exclude ml)))
      \<subseteq> set (candidates exclude ml)"
    by (metis set_shuffle set_take_subset)
  ultimately show ?thesis
    using assms candidates_iff [OF assms(1)]
    by (auto simp: GetRandomMembers_take list_all_iff min.commute)
qed

definition sample_list :: MembershipList where
  "sample_list = \<lparr>ml_LocalNode = zero_NodeID,
     ml_Members = [(NodeID_String zero_NodeID, zero_Member),
       (NodeID_String (zero_NodeID\<lparr>nid_Port := 1\<rparr>),
        zero_Member\<lparr>mb_ID := zero_NodeID\<lparr>nid_Port := 1\<rparr>\<rparr>),
       (NodeID_String (zero_NodeID\<lparr>nid_Port := 2\<rparr>),
        zero_Member\<lparr>mb_ID := zero_NodeID\<lparr>nid_Port := 2\<rparr>, mb_Status := Failed\<rparr>)],
     ml_Incarnation = 0, ml_recentUpdates = [], ml_updateWindow = 5 * Second\<rparr>"

lemma wf_sample_list: "wf_ml sample_list"
  by (simp add: wf_ml_def sample_list_def keyed_def member_key_def zero_Member_def zero_NodeID_def)

theorem GetRandomMembers_witness:
  "\<exists>ms. GetRandomMembers (\<lambda>_. 0) 3 [] sample_list = Some ms \<and> length ms = 1"
proof -
  have "length (candidates [] sample_list) = 1"
    by (simp add: candidates_def sample_list_def zero_Member_def zero_NodeID_def)
  then show ?thesis
    using GetRandomMembers_spec [OF wf_sample_list, of 3 "\<lambda>_. 0" "[]"] by auto
qed

text \<open>
  \<^verbatim>\<open>GetRecentUpdates(limit)\<close> forgets exactly the updates that are not younger than the
  window and returns the oldest of the remaining ones, in order and at most \<open>limit\<close>.
\<close>

theorem GetRecentUpdates_spec:
  assumes "0 \<le> limit" "- (2 ^ 63) < sint (ml_updateWindow ml)"
  shows "\<exists>us ml'. GetRecentUpdates now limit ml = Some (us, ml')
    \<and> ml_recentUpdates ml' = filter (\<lambda>u. now - sint (ml_updateWindow ml) < up_Timestamp u)
        (ml_recentUpdates ml)
    \<and> us = take (nat limit) (ml_recentUpdates ml') \<and> ml_Members ml' = ml_Members ml"
  using assms by (simp add: GetRecentUpdates_take in_window_def [abs_def] time_Add_def sint_uminus_64)

theorem GetRecentUpdates_witness:
  "\<exists>us ml'. GetRecentUpdates 9000000000 1 (sample_list\<lparr>ml_recentUpdates :=
      map (\<lambda>t. \<lparr>up_NodeID = zero_NodeID, up_Incarnation = 0, up_Status = Alive, up_Timestamp = t\<rparr>)
        [4000000000, 5000000000, 6000000000]\<rparr>) = Some (us, ml')
    \<and> map up_Timestamp us = [5000000000]"
proof -
  let ?ml = "sample_list\<lparr>ml_recentUpdates :=
      map (\<lambda>t. \<lparr>up_NodeID = zero_NodeID, up_Incarnation = 0, up_Status = Alive, up_Timestamp = t\<rparr>)
        [4000000000, 5000000000, 6000000000]\<rparr>"
  have "sint (ml_updateWindow ?ml) = 5000000000" by (simp add: sample_list_def Second_def)
  with GetRecentUpdates_spec [of 1 ?ml 9000000000] show ?thesis by auto
qed

end
