(* ===== verification/Network.thy ===== *)
theory Network
  imports Complex_Main Types
begin

text \<open>
  The network layer of \<^verbatim>\<open>src/utils/network.go\<close>: the bounded message queue between the
  receive loop and the dispatch loop, the handler registry and \<^verbatim>\<open>Send\<close>.

  The UDP socket and the resolver are outside the repository: \<open>nl_conn\<close> gives, for each
  target address, the error of resolving it or writing to it, if there is one, and
  \<open>nl_sent\<close> is the history of the datagrams that were written. The random number of the
  drop test and the result of decoding a datagram are arguments of the receive step. A
  handler, in Go a method value, is the constructor that names the method.
\<close>

section \<open>State and constructor\<close>

datatype Handler =
    P_handlePing | P_handleAck | P_handleIndirectPing | P_handleIndirectAck | P_handleJoin
  | P_handleJoinResponse | P_handleAliveMessage | P_handleSuspectMessage | P_handleLeave
  | G_handleHeartbeat | G_handleSuspectMessage | G_handleAliveMessage
  | G_handleConfirmMessage | G_handleJoin | G_handleJoinResponse | G_handleLeave

record ReceivedMessage =
  rm_Message :: Message
  rm_From :: string

record NetworkLayer =
  nl_conn :: "string \<Rightarrow> string option"
  nl_sent :: "(string \<times> Message) list"
  nl_dropRate :: rat
  nl_messageQueue :: "ReceivedMessage list"
  nl_handlers :: "MessageType \<Rightarrow> Handler option"
  nl_closed :: bool

definition queue_capacity :: nat where
  "queue_capacity = 1000"

definition NewNetworkLayer :: "(string \<Rightarrow> string option) \<Rightarrow> NetworkLayer" where
  "NewNetworkLayer conn = \<lparr>nl_conn = conn, nl_sent = [], nl_dropRate = 0,
     nl_messageQueue = [], nl_handlers = Map.empty, nl_closed = False\<rparr>"

text \<open>
  \<^verbatim>\<open>Start\<close> and \<^verbatim>\<open>GetLocalIP\<close>, with the errors of the calls they make: resolving the address
  and listening, and dialling a well-known host to see the local end of the connection. An
  error of \<^verbatim>\<open>Start\<close> leaves the loops unstarted; one of \<^verbatim>\<open>GetLocalIP\<close> ends the program.
\<close>

definition Network_Start :: "string option \<Rightarrow> string option \<Rightarrow> string option" where
  "Network_Start resolve_error listen_error =
     (case resolve_error of Some err \<Rightarrow> Some err | None \<Rightarrow> listen_error)"

definition GetLocalIP :: "string option \<Rightarrow> string \<Rightarrow> string option" where
  "GetLocalIP dial_error local_address = (case dial_error of Some _ \<Rightarrow> None | None \<Rightarrow> Some local_address)"

section \<open>Receiving\<close>

text \<open>
  What one pass of the receive loop reads: an error (a timeout included), or a datagram
  from an address with the random number drawn for it and its decoded content
  (\<^term>\<open>None\<close> when it does not decode).
\<close>

datatype ReadResult = ReadError | Datagram rat "Message option" string

fun receive_datagram :: "ReadResult \<Rightarrow> NetworkLayer \<Rightarrow> NetworkLayer" where
  "receive_datagram ReadError n = n"
| "receive_datagram (Datagram r decoded addr) n =
     (if r < nl_dropRate n then n
      else case decoded of
        None \<Rightarrow> n
      | Some msg \<Rightarrow>
          if length (nl_messageQueue n) < queue_capacity
          then n\<lparr>nl_messageQueue :=
            nl_messageQueue n @ [\<lparr>rm_Message = msg, rm_From = addr\<rparr>]\<rparr>
          else n)"

fun receiveLoop :: "ReadResult list \<Rightarrow> NetworkLayer \<Rightarrow> NetworkLayer" where
  "receiveLoop [] n = n"
| "receiveLoop (r # rs) n =
     (if nl_closed n then n else receiveLoop rs (receive_datagram r n))"

text \<open>
  One pass of the dispatch loop takes the oldest message and looks its handler up; the
  caller runs the handler on the state that remains.
\<close>

definition processQueue_step ::
  "NetworkLayer \<Rightarrow> ((Message \<times> Handler option) \<times> NetworkLayer) option" where
  "processQueue_step n =
     (case nl_messageQueue n of
        [] \<Rightarrow> None
      | received # rest \<Rightarrow>
          Some ((rm_Message received, nl_handlers n (msg_Type (rm_Message received))),
            n\<lparr>nl_messageQueue := rest\<rparr>))"

section \<open>Sending and the registry\<close>

definition Send :: "time \<Rightarrow> Message \<Rightarrow> string \<Rightarrow> NetworkLayer \<Rightarrow> string option \<times> NetworkLayer" where
  "Send now msg target n =
     (let msg1 = msg\<lparr>msg_Timestamp := time_Unix now\<rparr> in
      case nl_conn n target of
        Some err \<Rightarrow> (Some err, n)
      | None \<Rightarrow> (None, n\<lparr>nl_sent := nl_sent n @ [(target, msg1)]\<rparr>))"

text \<open>The loop \<^verbatim>\<open>for _, addr := range addrs { n.Send(msg, addr) }\<close>, which ignores the errors.\<close>

definition send_all :: "time \<Rightarrow> Message \<Rightarrow> string list \<Rightarrow> NetworkLayer \<Rightarrow> NetworkLayer" where
  "send_all now msg addrs n = fold (\<lambda>addr n. snd (Send now msg addr n)) addrs n"

definition RegisterHandler :: "MessageType \<Rightarrow> Handler \<Rightarrow> NetworkLayer \<Rightarrow> NetworkLayer" where
  "RegisterHandler msgType handler n = n\<lparr>nl_handlers := (nl_handlers n)(msgType \<mapsto> handler)\<rparr>"

definition SetDropRate :: "rat \<Rightarrow> NetworkLayer \<Rightarrow> NetworkLayer" where
  "SetDropRate rate n = n\<lparr>nl_dropRate := rate\<rparr>"

text \<open>\<^verbatim>\<open>close(n.closed)\<close> panics on a channel that is closed: that outcome is \<^term>\<open>None\<close>.\<close>

definition Network_Stop :: "NetworkLayer \<Rightarrow> NetworkLayer option" where
  "Network_Stop n = (if nl_closed n then None else Some (n\<lparr>nl_closed := True\<rparr>))"

section \<open>Facts\<close>

definition stamped :: "time \<Rightarrow> Message \<Rightarrow> Message" where
  "stamped now msg = msg\<lparr>msg_Timestamp := time_Unix now\<rparr>"

lemma stamped_simps [simp]:
  "msg_Type (stamped now m) = msg_Type m" "msg_Sender (stamped now m) = msg_Sender m"
  "msg_Target (stamped now m) = msg_Target m"
  "msg_Incarnation (stamped now m) = msg_Incarnation m"
  "msg_SeqNum (stamped now m) = msg_SeqNum m" "msg_Members (stamped now m) = msg_Members m"
  by (simp_all add: stamped_def)

lemma Send_frame [simp]:
  "nl_conn (snd (Send now msg t n)) = nl_conn n"
  "nl_dropRate (snd (Send now msg t n)) = nl_dropRate n"
  "nl_messageQueue (snd (Send now msg t n)) = nl_messageQueue n"
  "nl_handlers (snd (Send now msg t n)) = nl_handlers n"
  "nl_closed (snd (Send now msg t n)) = nl_closed n"
  by (simp_all add: Send_def Let_def split: option.splits)

lemma Send_sent:
  "nl_sent (snd (Send now msg t n)) = nl_sent n @ (if nl_conn n t = None then [(t, stamped now msg)] else [])"
  by (auto simp: Send_def stamped_def split: option.splits)

lemma Send_error: "fst (Send now msg t n) = nl_conn n t"
  by (auto simp: Send_def split: option.splits)

interpretation send_conn: framing nl_conn "\<lambda>addr n. snd (Send now msg addr n)" for now msg
  by unfold_locales simp

interpretation send_queue: framing nl_messageQueue "\<lambda>addr n. snd (Send now msg addr n)" for now msg
  by unfold_locales simp

interpretation send_handlers: framing nl_handlers "\<lambda>addr n. snd (Send now msg addr n)" for now msg
  by unfold_locales simp

interpretation send_closed: framing nl_closed "\<lambda>addr n. snd (Send now msg addr n)" for now msg
  by unfold_locales simp

lemma send_all_frame [simp]:
  "nl_conn (send_all now msg as n) = nl_conn n"
  "nl_messageQueue (send_all now msg as n) = nl_messageQueue n"
  "nl_handlers (send_all now msg as n) = nl_handlers n"
  "nl_closed (send_all now msg as n) = nl_closed n"
  unfolding send_all_def
  by (rule send_conn.loop_frames send_queue.loop_frames send_handlers.loop_frames
      send_closed.loop_frames)+

lemma send_all_sent:
  "nl_sent (send_all now msg as n)
    = nl_sent n @ map (\<lambda>a. (a, stamped now msg)) (filter (\<lambda>a. nl_conn n a = None) as)"
  by (induction as arbitrary: n) (auto simp: send_all_def Send_sent)

text \<open>The queue never holds more than its capacity, and no pass reorders it.\<close>

definition queue_ok :: "NetworkLayer \<Rightarrow> bool" where
  "queue_ok n \<longleftrightarrow> length (nl_messageQueue n) \<le> queue_capacity"

lemma queue_ok_receive: "queue_ok n \<Longrightarrow> queue_ok (receive_datagram r n)"
  by (cases r) (auto simp: queue_ok_def split: option.splits)

lemma queue_ok_receiveLoop: "queue_ok n \<Longrightarrow> queue_ok (receiveLoop rs n)"
  by (induction rs arbitrary: n) (auto intro: queue_ok_receive)

lemma queue_ok_process: "queue_ok n \<Longrightarrow> processQueue_step n = Some (mh, n') \<Longrightarrow> queue_ok n'"
  by (auto simp: queue_ok_def processQueue_step_def split: list.splits)

text \<open>What the receive loop accepts of one read: a datagram that is not dropped and decodes.\<close>

fun accepted :: "rat \<Rightarrow> ReadResult \<Rightarrow> ReceivedMessage list" where
  "accepted rate ReadError = []"
| "accepted rate (Datagram r None addr) = []"
| "accepted rate (Datagram r (Some msg) addr) =
     (if r < rate then [] else [\<lparr>rm_Message = msg, rm_From = addr\<rparr>])"

lemma receive_datagram_queue:
  assumes "queue_ok n"
  shows "nl_messageQueue (receive_datagram r n)
    = take queue_capacity (nl_messageQueue n @ accepted (nl_dropRate n) r)"
  using assms by (cases "(nl_dropRate n, r)" rule: accepted.cases) (auto simp: queue_ok_def)

lemma receive_datagram_frame [simp]:
  "nl_dropRate (receive_datagram r n) = nl_dropRate n"
  "nl_closed (receive_datagram r n) = nl_closed n"
  by (cases r; simp split: option.split)+

lemma take_take_append: "take k (take k xs @ ys) = take k (xs @ ys)"
  by (cases "length xs \<le> k") auto

section \<open>Properties\<close>

text \<open>
  C30: While the socket is open, the receive loop appends to the queue, in the order of
  arrival, the datagrams that survive the drop test and decode, and discards the newest
  ones beyond the capacity of 1000: it never blocks, reorders or overwrites.
\<close>

theorem receiveLoop_fifo:
  assumes "\<not> nl_closed n" "length (nl_messageQueue n) \<le> queue_capacity"
  shows "nl_messageQueue (receiveLoop rs n)
    = take 1000 (nl_messageQueue n @ concat (map (accepted (nl_dropRate n)) rs))"
proof -
  have "queue_ok n \<Longrightarrow> \<not> nl_closed n \<Longrightarrow> nl_messageQueue (receiveLoop rs n)
      = take queue_capacity (nl_messageQueue n @ concat (map (accepted (nl_dropRate n)) rs))"
  proof (induction rs arbitrary: n)
    case Nil
    then show ?case by (simp add: queue_ok_def)
  next
    case (Cons r rs)
    then show ?case
      using take_take_append [of queue_capacity "nl_messageQueue n @ accepted (nl_dropRate n) r"]
      by (simp add: queue_ok_receive receive_datagram_queue del: take_append)
  qed
  with assms show ?thesis by (simp add: queue_ok_def queue_capacity_def)
qed

theorem receiveLoop_witness:
  "nl_messageQueue (receiveLoop [ReadError, Datagram 1 (Some (message Ping)) ''a'',
      Datagram 0 (Some (message Ack)) ''b'', Datagram 1 None ''c'']
      ((NewNetworkLayer (\<lambda>_. None))\<lparr>nl_dropRate := 1 / 2\<rparr>))
    = [\<lparr>rm_Message = message Ping, rm_From = ''a''\<rparr>]"
  by (subst receiveLoop_fifo) (simp_all add: NewNetworkLayer_def)

end
