(* ===== verification/Suspicion.thy ===== *)
theory Suspicion
  imports Membership Network
begin

text \<open>
  The suspicion manager of \<^verbatim>\<open>src/utils/suspicion.go\<close>: suspicion reports are collected per
  target, a quorum of reporters makes the target suspected, a suspicion that is not
  cleared in time makes it failed, and a suspicion of the local node is refuted.

  The manager shares the membership list and the network with the detectors, so its
  methods act on the record \<open>shared\<close>, which the detectors' states extend. The callbacks
  that Go starts with \<^verbatim>\<open>go sm.opts.OnX(...)\<close> run later in goroutines of their own: the
  method appends them to \<open>spawned\<close>, and the controller's theory says what each of them
  does. The fields \<open>op_OnSuspect\<close>, \<open>op_OnConfirm\<close>, \<open>op_OnClear\<close> say whether the
  callback is set.
\<close>

section \<open>State and constructor\<close>

record Options =
  op_SuspicionTimeout :: duration
  op_CheckInterval :: duration
  op_RequireReports :: int64
  op_ConfirmedRetention :: duration
  op_OnSuspect :: bool
  op_OnConfirm :: bool
  op_OnClear :: bool

record suspectEntry =
  se_target :: NodeID
  se_incarnation :: int32
  se_reporters :: "(NodeID \<times> time) list"
  se_firstReport :: time
  se_confirmed :: bool
  se_confirmedAt :: time
  se_cleanupAfter :: time

text \<open>\<open>sm_running\<close>: the goroutine of \<^verbatim>\<open>loop\<close> is alive (its context is not cancelled).\<close>

record SuspicionManager =
  sm_opts :: Options
  sm_entries :: "suspectEntry gomap"
  sm_started :: bool
  sm_running :: bool

datatype Task =
    OnSuspect NodeID int32 "NodeID list"
  | OnConfirm NodeID int32
  | OnClear NodeID int32

record shared =
  membership :: MembershipList
  network :: NetworkLayer
  suspicion :: SuspicionManager
  spawned :: "Task list"

definition NewSuspicionManager :: "Options \<Rightarrow> SuspicionManager" where
  "NewSuspicionManager opts =
     (let opts1 = (if op_SuspicionTimeout opts = 0
            then opts\<lparr>op_SuspicionTimeout := 2 * Second\<rparr> else opts);
          opts2 = (if op_CheckInterval opts1 = 0
            then opts1\<lparr>op_CheckInterval := 200 * Millisecond\<rparr> else opts1);
          opts3 = (if sint (op_RequireReports opts2) \<le> 0
            then opts2\<lparr>op_RequireReports := 1\<rparr> else opts2);
          opts4 = (if op_ConfirmedRetention opts3 = 0
            then opts3\<lparr>op_ConfirmedRetention := 3 * Second\<rparr> else opts3)
      in \<lparr>sm_opts = opts4, sm_entries = [], sm_started = False, sm_running = False\<rparr>)"

definition Suspicion_Start :: "SuspicionManager \<Rightarrow> SuspicionManager" where
  "Suspicion_Start s =
     (if sm_started s then s else s\<lparr>sm_running := True, sm_started := True\<rparr>)"

definition Suspicion_Stop :: "SuspicionManager \<Rightarrow> SuspicionManager" where
  "Suspicion_Stop s =
     (if \<not> sm_started s then s else s\<lparr>sm_running := False, sm_started := False\<rparr>)"

definition GetTimeout :: "SuspicionManager \<Rightarrow> duration" where
  "GetTimeout s = op_SuspicionTimeout (sm_opts s)"

section \<open>Reports\<close>

definition new_entry :: "NodeID \<Rightarrow> int32 \<Rightarrow> suspectEntry" where
  "new_entry target inc = \<lparr>se_target = target, se_incarnation = inc, se_reporters = [],
     se_firstReport = 0, se_confirmed = False, se_confirmedAt = 0, se_cleanupAfter = 0\<rparr>"

definition reportersList :: "suspectEntry \<Rightarrow> NodeID list" where
  "reportersList e = map fst (se_reporters e)"

text \<open>The recipients of a broadcast: the addresses of the members other than the local node.\<close>

definition other_addresses :: "MembershipList \<Rightarrow> string list" where
  "other_addresses ml = map (\<lambda>(k, m). NodeID_Address (mb_ID m))
     (filter (\<lambda>(k, m). NodeID_String (mb_ID m) \<noteq> NodeID_String (ml_LocalNode ml))
       (ml_Members ml))"

definition handleSelfRefutation :: "int32 \<Rightarrow> time \<Rightarrow> 'z shared_scheme \<Rightarrow> 'z shared_scheme" where
  "handleSelfRefutation incomingInc now w =
     (let localInc = ml_Incarnation (membership w);
          newInc = (if sint incomingInc \<ge> sint localInc then incomingInc + 1 else localInc + 1);
          w1 = w\<lparr>membership := (membership w)\<lparr>ml_Incarnation := newInc\<rparr>\<rparr>;
          msg = (message AliveMsg)\<lparr>msg_Sender := ml_LocalNode (membership w1),
            msg_Incarnation := newInc\<rparr>;
          recipients = other_addresses (membership w1)
      in w1\<lparr>network := send_all now msg recipients (network w1)\<rparr>)"

text \<open>
  The entry a report counts for: the current one, a fresh one when the report is for a
  newer incarnation or there is none, or no entry when the report is stale.
\<close>

definition report_entry :: "NodeID \<Rightarrow> int32 \<Rightarrow> 'z shared_scheme \<Rightarrow> suspectEntry option" where
  "report_entry target inc w =
     (let key = NodeID_String target in
      case map_of (sm_entries (suspicion w)) key of
        Some e \<Rightarrow>
          if sint inc < sint (se_incarnation e) then None
          else if sint inc > sint (se_incarnation e) then Some (new_entry target inc)
          else Some e
      | None \<Rightarrow>
          let localInc = (case lookup (membership w) key of
                None \<Rightarrow> 0 | Some member \<Rightarrow> mb_Incarnation member)
          in if sint inc < sint localInc then None else Some (new_entry target inc))"

definition mark_suspected :: "time \<Rightarrow> string \<Rightarrow> MembershipList \<Rightarrow> MembershipList" where
  "mark_suspected now key ml =
     (case lookup ml key of
        None \<Rightarrow> ml
      | Some m \<Rightarrow> store key (m\<lparr>mb_Status := Suspected, mb_SuspicionStart := now\<rparr>) ml)"

definition ProcessSuspicion ::
  "NodeID \<Rightarrow> NodeID \<Rightarrow> int32 \<Rightarrow> time \<Rightarrow> 'z shared_scheme \<Rightarrow> 'z shared_scheme" where
  "ProcessSuspicion reporter target inc now w =
     (let key = NodeID_String target in
      if NodeID_String target = NodeID_String (ml_LocalNode (membership w))
      then handleSelfRefutation inc now w
      else case report_entry target inc w of
        None \<Rightarrow> w
      | Some e \<Rightarrow>
          let e1 = e\<lparr>se_reporters := AList.update reporter now (se_reporters e)\<rparr>;
              shouldTransitionToSuspected =
                int (length (se_reporters e1)) \<ge> sint (op_RequireReports (sm_opts (suspicion w)))
                \<and> time_IsZero (se_firstReport e1);
              e2 = (if shouldTransitionToSuspected then e1\<lparr>se_firstReport := now\<rparr> else e1);
              w1 = w\<lparr>suspicion := (suspicion w)\<lparr>sm_entries :=
                AList.update key e2 (sm_entries (suspicion w))\<rparr>\<rparr>
          in if shouldTransitionToSuspected then
               let w2 = w1\<lparr>membership := mark_suspected now key (membership w1)\<rparr> in
               if op_OnSuspect (sm_opts (suspicion w)) then
                 w2\<lparr>spawned := spawned w2 @ [OnSuspect target inc (reportersList e2)]\<rparr>
               else w2
             else w1)"

definition clear_member :: "string \<Rightarrow> int32 \<Rightarrow> MembershipList \<Rightarrow> MembershipList" where
  "clear_member key inc ml =
     (case lookup ml key of
        None \<Rightarrow> ml
      | Some m \<Rightarrow>
          if sint inc \<ge> sint (mb_Incarnation m)
          then store key (m\<lparr>mb_Status := Alive, mb_Incarnation := inc\<rparr>) ml
          else ml)"

definition ClearSuspect :: "NodeID \<Rightarrow> int32 \<Rightarrow> 'z shared_scheme \<Rightarrow> 'z shared_scheme" where
  "ClearSuspect target inc w =
     (let key = NodeID_String target in
      case map_of (sm_entries (suspicion w)) key of
        None \<Rightarrow> w\<lparr>membership := clear_member key inc (membership w)\<rparr>
      | Some e \<Rightarrow>
          if sint inc < sint (se_incarnation e) then w
          else
            let w1 = w\<lparr>suspicion := (suspicion w)\<lparr>sm_entries :=
                  AList.delete key (sm_entries (suspicion w))\<rparr>\<rparr>;
                w2 = w1\<lparr>membership := clear_member key inc (membership w1)\<rparr>
            in if op_OnClear (sm_opts (suspicion w))
               then w2\<lparr>spawned := spawned w2 @ [OnClear target inc]\<rparr>
               else w2)"

section \<open>The periodic check\<close>

text \<open>
  The scan of the entries: the entries with the expired ones confirmed, the targets to
  confirm and the keys to clean up, in the order of the scan.
\<close>

fun check_scan :: "Options \<Rightarrow> time \<Rightarrow> suspectEntry gomap
    \<Rightarrow> suspectEntry gomap \<times> (NodeID \<times> int32) list \<times> string list" where
  "check_scan opts now [] = ([], [], [])"
| "check_scan opts now ((key, e) # rest) =
     (let (es, toConfirm, toCleanup) = check_scan opts now rest in
      if time_IsZero (se_firstReport e) then ((key, e) # es, toConfirm, toCleanup)
      else if se_confirmed e then
        (if sint (op_ConfirmedRetention opts) > 0 \<and> \<not> time_IsZero (se_cleanupAfter e)
            \<and> time_After now (se_cleanupAfter e)
         then ((key, e) # es, toConfirm, key # toCleanup)
         else ((key, e) # es, toConfirm, toCleanup))
      else if sint (time_Sub now (se_firstReport e)) \<ge> sint (op_SuspicionTimeout opts) then
        (let e1 = e\<lparr>se_confirmed := True, se_confirmedAt := now\<rparr>;
             e2 = (if sint (op_ConfirmedRetention opts) > 0
               then e1\<lparr>se_cleanupAfter := time_Add now (op_ConfirmedRetention opts)\<rparr> else e1)
         in ((key, e2) # es, (se_target e, se_incarnation e) # toConfirm, toCleanup))
      else ((key, e) # es, toConfirm, toCleanup))"

text \<open>The loop that marks the confirmed members failed and collects those that are present.\<close>

fun confirm_members ::
  "(NodeID \<times> int32) list \<Rightarrow> MembershipList \<Rightarrow> MembershipList \<times> (NodeID \<times> int32) list" where
  "confirm_members [] ml = (ml, [])"
| "confirm_members (c # cs) ml =
     (case lookup ml (NodeID_String (fst c)) of
        None \<Rightarrow> confirm_members cs ml
      | Some m \<Rightarrow>
          let (ml', confirmed) = confirm_members cs
            (store (NodeID_String (fst c)) (m\<lparr>mb_Status := Failed\<rparr>) ml)
          in (ml', c # confirmed))"

definition check :: "time \<Rightarrow> 'z shared_scheme \<Rightarrow> 'z shared_scheme" where
  "check now w =
     (let opts = sm_opts (suspicion w);
          (es, toConfirm, toCleanup) = check_scan opts now (sm_entries (suspicion w));
          w1 = w\<lparr>suspicion := (suspicion w)\<lparr>sm_entries := fold AList.delete toCleanup es\<rparr>\<rparr>
      in if toConfirm = [] then w1
         else
           let (ml, confirmedMembers) = confirm_members toConfirm (membership w1);
               w2 = w1\<lparr>membership := ml\<rparr>
           in if op_OnConfirm opts
              then w2\<lparr>spawned := spawned w2 @ map (\<lambda>(t, i). OnConfirm t i) confirmedMembers\<rparr>
              else w2)"

section \<open>Well-formedness\<close>

text \<open>
  What the manager keeps of an entry: reporters are counted once, the suspicion starts
  only with a quorum, only a started suspicion is confirmed, and only a confirmed one has
  a clean-up time.
\<close>

definition wf_entry :: "Options \<Rightarrow> suspectEntry \<Rightarrow> bool" where
  "wf_entry opts e \<longleftrightarrow> distinct (map fst (se_reporters e))
     \<and> (se_firstReport e \<noteq> 0 \<longrightarrow> sint (op_RequireReports opts) \<le> int (length (se_reporters e)))
     \<and> (se_confirmed e \<longrightarrow> se_firstReport e \<noteq> 0)
     \<and> (\<not> se_confirmed e \<longrightarrow> se_cleanupAfter e = 0)"

definition entry_key :: "suspectEntry \<Rightarrow> string" where
  "entry_key e = NodeID_String (se_target e)"

definition wf_sm :: "SuspicionManager \<Rightarrow> bool" where
  "wf_sm s \<longleftrightarrow> keyed entry_key (sm_entries s)
     \<and> (\<forall>k e. map_of (sm_entries s) k = Some e \<longrightarrow> wf_entry (sm_opts s) e)"

lemma wf_sm_New: "wf_sm (NewSuspicionManager opts)"
  by (simp add: wf_sm_def NewSuspicionManager_def Let_def)

lemma wf_new_entry: "wf_entry opts (new_entry target inc)"
  by (simp add: wf_entry_def new_entry_def)

lemma new_entry_simps [simp]:
  "se_target (new_entry t i) = t" "se_incarnation (new_entry t i) = i"
  "se_reporters (new_entry t i) = []" "se_firstReport (new_entry t i) = 0"
  "se_confirmed (new_entry t i) = False" "se_cleanupAfter (new_entry t i) = 0"
  by (simp_all add: new_entry_def)

lemma wf_sm_put:
  "wf_sm s \<Longrightarrow> wf_entry (sm_opts s) e \<Longrightarrow> k = entry_key e
    \<Longrightarrow> wf_sm (s\<lparr>sm_entries := AList.update k e (sm_entries s)\<rparr>)"
  by (auto simp: wf_sm_def keyed_put)

lemma wf_sm_del: "wf_sm s \<Longrightarrow> wf_sm (s\<lparr>sm_entries := AList.delete k (sm_entries s)\<rparr>)"
  by (auto simp: wf_sm_def keyed_del split: if_splits)

lemma report_entry_wf:
  assumes "wf_sm (suspicion w)" "report_entry target inc w = Some e"
  shows "wf_entry (sm_opts (suspicion w)) e" "se_target e = target" "se_incarnation e = inc"
proof -
  have old: "wf_entry (sm_opts (suspicion w)) e0 \<and> se_target e0 = target"
    if "map_of (sm_entries (suspicion w)) (NodeID_String target) = Some e0" for e0
    using assms(1) that keyed_get [of entry_key "sm_entries (suspicion w)"]
    by (fastforce simp: wf_sm_def entry_key_def)
  show "wf_entry (sm_opts (suspicion w)) e" "se_target e = target"
    using assms(2) old
    by (auto simp: report_entry_def Let_def wf_new_entry split: option.splits if_splits)
  show "se_incarnation e = inc"
    using assms(2)
    by (auto simp: report_entry_def Let_def sint_inject [symmetric] split: option.splits if_splits)
qed

lemma update_length_mono: "length al \<le> length (AList.update k v al)"
  by (induction al) auto

lemma wf_entry_report:
  assumes "wf_entry opts e"
  shows "wf_entry opts (e\<lparr>se_reporters := AList.update r now (se_reporters e)\<rparr>)"
    and "sint (op_RequireReports opts) \<le> int (length (AList.update r now (se_reporters e)))
      \<Longrightarrow> se_firstReport e = 0 \<Longrightarrow> wf_entry opts (e\<lparr>se_reporters := AList.update r now (se_reporters e),
        se_firstReport := now\<rparr>)"
  using assms update_length_mono [of "se_reporters e" r now]
  by (auto simp: wf_entry_def distinct_update)

lemma mark_suspected_simps [simp]:
  "ml_LocalNode (mark_suspected now k ml) = ml_LocalNode ml"
  "ml_Incarnation (mark_suspected now k ml) = ml_Incarnation ml"
  "ml_recentUpdates (mark_suspected now k ml) = ml_recentUpdates ml"
  by (auto simp: mark_suspected_def split: option.splits)

lemma clear_member_simps [simp]:
  "ml_LocalNode (clear_member k i ml) = ml_LocalNode ml"
  "ml_Incarnation (clear_member k i ml) = ml_Incarnation ml"
  "ml_recentUpdates (clear_member k i ml) = ml_recentUpdates ml"
  by (auto simp: clear_member_def split: option.splits)

lemma wf_ml_mark_suspected [keeps_intros]: "wf_ml ml \<Longrightarrow> wf_ml (mark_suspected now k ml)"
  by (auto simp: mark_suspected_def intro!: wf_ml_store dest: wf_ml_lookup split: option.splits)

lemma wf_ml_clear_member [keeps_intros]: "wf_ml ml \<Longrightarrow> wf_ml (clear_member k i ml)"
  by (auto simp: clear_member_def intro!: wf_ml_store dest: wf_ml_lookup split: option.splits)

lemma incs_grow_mark_suspected: "incs_grow ml (mark_suspected now k ml)"
  by (auto simp: mark_suspected_def intro: incs_grow_store split: option.splits)

lemma incs_grow_clear_member: "incs_grow ml (clear_member k i ml)"
  by (auto simp: clear_member_def intro: incs_grow_store split: option.splits)

section \<open>What the check does\<close>

definition entry_expired :: "Options \<Rightarrow> time \<Rightarrow> suspectEntry \<Rightarrow> bool" where
  "entry_expired opts now e \<longleftrightarrow> se_firstReport e \<noteq> 0 \<and> \<not> se_confirmed e
     \<and> sint (op_SuspicionTimeout opts) \<le> sint (time_Sub now (se_firstReport e))"

definition entry_cleanable :: "Options \<Rightarrow> time \<Rightarrow> suspectEntry \<Rightarrow> bool" where
  "entry_cleanable opts now e \<longleftrightarrow> se_firstReport e \<noteq> 0 \<and> se_confirmed e
     \<and> 0 < sint (op_ConfirmedRetention opts) \<and> se_cleanupAfter e \<noteq> 0 \<and> se_cleanupAfter e < now"

definition confirm_entry :: "Options \<Rightarrow> time \<Rightarrow> suspectEntry \<Rightarrow> suspectEntry" where
  "confirm_entry opts now e = (let e1 = e\<lparr>se_confirmed := True, se_confirmedAt := now\<rparr> in
     if 0 < sint (op_ConfirmedRetention opts)
     then e1\<lparr>se_cleanupAfter := time_Add now (op_ConfirmedRetention opts)\<rparr> else e1)"

definition check_entry :: "Options \<Rightarrow> time \<Rightarrow> suspectEntry \<Rightarrow> suspectEntry" where
  "check_entry opts now e = (if entry_expired opts now e then confirm_entry opts now e else e)"

lemma check_entry_simps [simp]:
  "se_target (check_entry opts now e) = se_target e"
  "se_incarnation (check_entry opts now e) = se_incarnation e"
  "se_reporters (check_entry opts now e) = se_reporters e"
  "se_firstReport (check_entry opts now e) = se_firstReport e"
  by (simp_all add: check_entry_def confirm_entry_def Let_def)

lemma entry_key_check [simp]: "entry_key (check_entry opts now e) = entry_key e"
  by (simp add: entry_key_def)

lemma check_scan_eq:
  "check_scan opts now m =
     (map (\<lambda>(k, e). (k, check_entry opts now e)) m,
      map (\<lambda>(k, e). (se_target e, se_incarnation e)) (filter (\<lambda>(k, e). entry_expired opts now e) m),
      map fst (filter (\<lambda>(k, e). entry_cleanable opts now e) m))"
proof (induction opts now m rule: check_scan.induct)
  case (1 opts now)
  then show ?case by simp
next
  case (2 opts now key e rest)
  then show ?case
    by (simp add: check_entry_def confirm_entry_def entry_expired_def entry_cleanable_def
        time_IsZero_def time_After_def Let_def)
qed

lemma wf_check_entry: "wf_entry opts e \<Longrightarrow> wf_entry opts (check_entry opts now e)"
  by (auto simp: wf_entry_def check_entry_def confirm_entry_def entry_expired_def Let_def)

lemma confirm_members_keeps:
  assumes "confirm_members cs ml = (ml', ds)"
  shows "ml_LocalNode ml' = ml_LocalNode ml \<and> ml_Incarnation ml' = ml_Incarnation ml
    \<and> ml_recentUpdates ml' = ml_recentUpdates ml \<and> (wf_ml ml \<longrightarrow> wf_ml ml') \<and> incs_grow ml ml'"
  using assms
proof (induction cs ml arbitrary: ml' ds rule: confirm_members.induct)
  case (1 ml)
  then show ?case by simp
next
  case (2 c cs ml)
  show ?case
  proof (cases "lookup ml (NodeID_String (fst c))")
    case None
    with "2.prems" have "confirm_members cs ml = (ml', ds)" by simp
    then show ?thesis by (rule "2.IH"(1) [OF None])
  next
    case (Some m)
    let ?ml = "store (NodeID_String (fst c)) (m\<lparr>mb_Status := Failed\<rparr>) ml"
    obtain ds' where rec: "confirm_members cs ?ml = (ml', ds')"
      using "2.prems" Some by (auto split: prod.splits)
    have "wf_ml ml \<Longrightarrow> wf_ml ?ml"
      using Some by (auto intro!: wf_ml_store dest: wf_ml_lookup)
    moreover have "incs_grow ml ?ml"
      using Some by (auto intro: incs_grow_store)
    ultimately show ?thesis
      using "2.IH"(2) [OF Some rec] incs_grow_trans [of ml ?ml ml'] by simp
  qed
qed

text \<open>After the loop, exactly the present targets are failed; nothing else changes.\<close>

lemma confirm_members_lookup:
  assumes "confirm_members cs ml = (ml', ds)"
  shows "lookup ml' k = (if k \<in> (\<lambda>c. NodeID_String (fst c)) ` set cs
      then map_option (\<lambda>m. m\<lparr>mb_Status := Failed\<rparr>) (lookup ml k) else lookup ml k)"
    and "ds = filter (\<lambda>c. has_key (ml_Members ml) (NodeID_String (fst c))) cs"
proof -
  have "lookup ml' k = (if k \<in> (\<lambda>c. NodeID_String (fst c)) ` set cs
      then map_option (\<lambda>m. m\<lparr>mb_Status := Failed\<rparr>) (lookup ml k) else lookup ml k)
    \<and> ds = filter (\<lambda>c. has_key (ml_Members ml) (NodeID_String (fst c))) cs"
    using assms
  proof (induction cs ml arbitrary: ml' ds rule: confirm_members.induct)
    case (1 ml)
    then show ?case by simp
  next
    case (2 c cs ml)
    show ?case
    proof (cases "lookup ml (NodeID_String (fst c))")
      case None
      with 2 show ?thesis by auto
    next
      case (Some m)
      let ?ml = "store (NodeID_String (fst c)) (m\<lparr>mb_Status := Failed\<rparr>) ml"
      obtain ds' where rec: "confirm_members cs ?ml = (ml', ds')" and ds: "ds = c # ds'"
        using 2(3) Some by (auto split: prod.splits)
      have same: "has_key (ml_Members ?ml) x = has_key (ml_Members ml) x" for x
        using Some by simp
      have "ds' = filter (\<lambda>c. has_key (ml_Members ml) (NodeID_String (fst c))) cs"
        using "2.IH"(2) [OF Some rec] unfolding same by (rule conjunct2)
      moreover have "lookup ml' k = (if k \<in> (\<lambda>c. NodeID_String (fst c)) ` set cs
          then map_option (\<lambda>m. m\<lparr>mb_Status := Failed\<rparr>) (lookup ?ml k) else lookup ?ml k)"
        using "2.IH"(2) [OF Some rec] by (rule conjunct1)
      ultimately show ?thesis
        using Some ds by (cases "k = NodeID_String (fst c)") (simp_all add: image_iff)
    qed
  qed
  then show "lookup ml' k = (if k \<in> (\<lambda>c. NodeID_String (fst c)) ` set cs
      then map_option (\<lambda>m. m\<lparr>mb_Status := Failed\<rparr>) (lookup ml k) else lookup ml k)"
    and "ds = filter (\<lambda>c. has_key (ml_Members ml) (NodeID_String (fst c))) cs"
    by blast+
qed

lemma check_effect:
  fixes w :: "'z shared_scheme" and now :: time
  defines "opts \<equiv> sm_opts (suspicion w)"
  defines "expired \<equiv> map (\<lambda>(k, e). (se_target e, se_incarnation e))
    (filter (\<lambda>(k, e). entry_expired opts now e) (sm_entries (suspicion w)))"
  shows check_suspicion: "suspicion (check now w) = (suspicion w)\<lparr>sm_entries :=
      fold AList.delete (map fst (filter (\<lambda>(k, e). entry_cleanable opts now e)
          (sm_entries (suspicion w))))
        (map (\<lambda>(k, e). (k, check_entry opts now e)) (sm_entries (suspicion w)))\<rparr>"
    and check_membership: "membership (check now w) = fst (confirm_members expired (membership w))"
    and check_network: "network (check now w) = network w"
    and check_spawned: "spawned (check now w) = spawned w @ (if op_OnConfirm opts then
      map (\<lambda>(t, i). OnConfirm t i) (snd (confirm_members expired (membership w))) else [])"
  unfolding opts_def expired_def
  by (auto simp: check_def check_scan_eq Let_def split: prod.splits)

section \<open>What the methods keep\<close>

definition wf_shared :: "'z shared_scheme \<Rightarrow> bool" where
  "wf_shared w \<longleftrightarrow> wf_ml (membership w) \<and> wf_sm (suspicion w) \<and> queue_ok (network w)"

text \<open>
  \<open>keeps w w'\<close>: a step that keeps well-formedness, the options, the socket and the
  registered handlers. \<open>grows w w'\<close>: moreover no member is lost or goes back to an older
  incarnation, and the local node stays who it is.
\<close>

definition keeps :: "'z shared_scheme \<Rightarrow> 'z shared_scheme \<Rightarrow> bool" where
  "keeps w w' \<longleftrightarrow> (wf_shared w \<longrightarrow> wf_shared w')
     \<and> sm_opts (suspicion w') = sm_opts (suspicion w)
     \<and> nl_conn (network w') = nl_conn (network w)
     \<and> nl_handlers (network w') = nl_handlers (network w)
     \<and> nl_messageQueue (network w') = nl_messageQueue (network w)"

definition grows :: "'z shared_scheme \<Rightarrow> 'z shared_scheme \<Rightarrow> bool" where
  "grows w w' \<longleftrightarrow> keeps w w' \<and> ml_LocalNode (membership w') = ml_LocalNode (membership w)
     \<and> incs_grow (membership w) (membership w')"

lemma keeps_refl [simp]: "keeps w w"
  by (simp add: keeps_def)

lemma keeps_trans: "keeps a b \<Longrightarrow> keeps b c \<Longrightarrow> keeps a c"
  by (auto simp: keeps_def)

lemma grows_refl [simp]: "grows w w"
  by (simp add: grows_def)

lemma grows_trans: "grows a b \<Longrightarrow> grows b c \<Longrightarrow> grows a c"
  unfolding grows_def by (metis keeps_trans incs_grow_trans)

lemma grows_keeps: "grows w w' \<Longrightarrow> keeps w w'"
  by (simp add: grows_def)

lemma keeps_wf: "keeps w w' \<Longrightarrow> wf_shared w \<Longrightarrow> wf_shared w'"
  by (simp add: keeps_def)

lemma keeps_spawned [simp]: "keeps w (w'\<lparr>spawned := ts\<rparr>) = keeps w w'"
  by (simp add: keeps_def wf_shared_def)

lemma grows_spawned [simp]: "grows w (w'\<lparr>spawned := ts\<rparr>) = grows w w'"
  by (simp add: grows_def)

lemma keeps_membership:
  "(wf_ml (membership w) \<Longrightarrow> wf_ml ml) \<Longrightarrow> keeps w (w\<lparr>membership := ml\<rparr>)"
  by (simp add: keeps_def wf_shared_def)

lemma grows_membership:
  "(wf_ml (membership w) \<Longrightarrow> wf_ml ml) \<Longrightarrow> ml_LocalNode ml = ml_LocalNode (membership w)
    \<Longrightarrow> incs_grow (membership w) ml \<Longrightarrow> grows w (w\<lparr>membership := ml\<rparr>)"
  by (simp add: grows_def keeps_membership)

lemma grows_entries:
  "(wf_sm (suspicion w) \<Longrightarrow> wf_sm ((suspicion w)\<lparr>sm_entries := es\<rparr>))
    \<Longrightarrow> grows w (w\<lparr>suspicion := (suspicion w)\<lparr>sm_entries := es\<rparr>\<rparr>)"
  by (simp add: grows_def keeps_def wf_shared_def)

lemma grows_send_all: "grows w (w\<lparr>network := send_all now msg as (network w)\<rparr>)"
  by (simp add: grows_def keeps_def wf_shared_def queue_ok_def)

lemma grows_Send: "grows w (w\<lparr>network := snd (Send now msg a (network w))\<rparr>)"
  by (simp add: grows_def keeps_def wf_shared_def queue_ok_def)

lemma handleSelfRefutation_grows: "grows w (handleSelfRefutation inc now w)"
  unfolding handleSelfRefutation_def Let_def
  by (rule grows_trans [OF grows_membership grows_send_all]) (simp_all add: incs_grow_def)

lemma mark_suspected_grows:
  "grows w (w\<lparr>membership := mark_suspected now k (membership w)\<rparr>)"
  by (intro grows_membership) (simp_all add: wf_ml_mark_suspected incs_grow_mark_suspected)

lemma clear_member_grows:
  "grows w (w\<lparr>membership := clear_member k i (membership w)\<rparr>)"
  by (intro grows_membership) (simp_all add: wf_ml_clear_member incs_grow_clear_member)

lemma put_entry_grows:
  assumes "wf_sm (suspicion w) \<Longrightarrow> wf_entry (sm_opts (suspicion w)) e \<and> entry_key e = k"
  shows "grows w (w\<lparr>suspicion := (suspicion w)\<lparr>sm_entries :=
    AList.update k e (sm_entries (suspicion w))\<rparr>\<rparr>)"
  using assms by (intro grows_entries wf_sm_put) simp_all

lemma del_entry_grows:
  "grows w (w\<lparr>suspicion := (suspicion w)\<lparr>sm_entries :=
    AList.delete k (sm_entries (suspicion w))\<rparr>\<rparr>)"
  by (intro grows_entries wf_sm_del)

lemma ProcessSuspicion_grows: "grows w (ProcessSuspicion reporter target inc now w)"
proof (cases "report_entry target inc w")
  case None
  then show ?thesis by (simp add: ProcessSuspicion_def Let_def handleSelfRefutation_grows)
next
  case (Some e)
  let ?k = "NodeID_String target"
  let ?put = "\<lambda>e. w\<lparr>suspicion := (suspicion w)\<lparr>sm_entries :=
    AList.update ?k e (sm_entries (suspicion w))\<rparr>\<rparr>"
  let ?e1 = "e\<lparr>se_reporters := AList.update reporter now (se_reporters e)\<rparr>"
  note e = report_entry_wf [OF _ Some]
  have quiet: "grows w (?put ?e1)"
    using e by (intro put_entry_grows) (simp add: entry_key_def wf_entry_report)
  have "grows w (?put (?e1\<lparr>se_firstReport := now\<rparr>))"
    if "sint (op_RequireReports (sm_opts (suspicion w))) \<le> int (length (se_reporters ?e1))"
      "se_firstReport e = 0"
    using e that wf_entry_report(2) [of "sm_opts (suspicion w)" e reporter now]
    by (intro put_entry_grows) (simp add: entry_key_def)
  then have loud: "grows w ((?put (?e1\<lparr>se_firstReport := now\<rparr>))\<lparr>membership :=
      mark_suspected now ?k (membership w)\<rparr>)"
    if "sint (op_RequireReports (sm_opts (suspicion w))) \<le> int (length (se_reporters ?e1))"
      "se_firstReport e = 0"
    using that grows_trans mark_suspected_grows [of "?put (?e1\<lparr>se_firstReport := now\<rparr>)" now ?k]
    by fastforce
  show ?thesis
    using Some quiet loud
    by (simp add: ProcessSuspicion_def Let_def time_IsZero_def handleSelfRefutation_grows)
qed

lemma ClearSuspect_grows: "grows w (ClearSuspect target inc w)"
proof -
  let ?k = "NodeID_String target"
  let ?w1 = "w\<lparr>suspicion := (suspicion w)\<lparr>sm_entries :=
      AList.delete ?k (sm_entries (suspicion w))\<rparr>\<rparr>"
  have "grows w (?w1\<lparr>membership := clear_member ?k inc (membership ?w1)\<rparr>)"
    by (rule grows_trans [OF del_entry_grows clear_member_grows])
  then show ?thesis
    by (auto simp: ClearSuspect_def Let_def clear_member_grows split: option.splits)
qed

lemma wf_sm_check: "wf_sm (suspicion w) \<Longrightarrow> wf_sm (suspicion (check now w))"
proof -
  assume wf: "wf_sm (suspicion w)"
  let ?f = "check_entry (sm_opts (suspicion w)) now"
  have "wf_entry (sm_opts (suspicion w)) e'"
    if "map_of (fold AList.delete ks (map (\<lambda>(k, e). (k, ?f e)) (sm_entries (suspicion w)))) k = Some e'"
    for ks k e'
    using wf that by (auto simp: wf_sm_def am.get_del_all wf_check_entry split: if_splits)
  moreover have "keyed entry_key (fold AList.delete ks
      (map (\<lambda>(k, e). (k, ?f e)) (sm_entries (suspicion w))))" for ks
    using wf by (intro keyed_del_all keyed_map_values) (simp_all add: wf_sm_def)
  ultimately show ?thesis by (simp add: wf_sm_def check_suspicion)
qed

lemma check_grows: "grows w (check now w)"
proof -
  have "wf_ml (membership w) \<longrightarrow> wf_ml (membership (check now w))"
    "ml_LocalNode (membership (check now w)) = ml_LocalNode (membership w)"
    "incs_grow (membership w) (membership (check now w))"
    unfolding check_membership using confirm_members_keeps [OF surjective_pairing] by blast+
  then show ?thesis
    by (simp add: grows_def keeps_def wf_shared_def wf_sm_check check_network)
      (simp add: check_suspicion)
qed

section \<open>The interface to the detectors\<close>

text \<open>
  Both detectors hand the suspicions and refutations they hear of to the manager. What
  they rely on is that its two entry points are steps of a preorder on the state;
  \<open>notify\<close> is the code that both run after merging an update.
\<close>

definition notify ::
  "(NodeID \<Rightarrow> NodeID \<Rightarrow> int32 \<Rightarrow> 's \<Rightarrow> 's) \<Rightarrow> (NodeID \<Rightarrow> int32 \<Rightarrow> 's \<Rightarrow> 's) \<Rightarrow> bool
    \<Rightarrow> MemberUpdate \<Rightarrow> NodeID \<Rightarrow> 's \<Rightarrow> 's" where
  "notify process clear enableSuspicion update reporter w =
     (let w1 = (if up_Status update = Suspected \<and> enableSuspicion
            then process reporter (up_NodeID update) (up_Incarnation update) w else w)
      in if up_Status update = Alive
         then clear (up_NodeID update) (up_Incarnation update) w1 else w1)"

locale suspicion_service =
  fixes le :: "'s \<Rightarrow> 's \<Rightarrow> bool"
    and process :: "NodeID \<Rightarrow> NodeID \<Rightarrow> int32 \<Rightarrow> 's \<Rightarrow> 's"
    and clear :: "NodeID \<Rightarrow> int32 \<Rightarrow> 's \<Rightarrow> 's"
  assumes service_refl: "le s s"
    and service_trans: "le s t \<Longrightarrow> le t u \<Longrightarrow> le s u"
    and service_process: "le s (process reporter target inc s)"
    and service_clear: "le s (clear target inc s)"
begin

lemma notify_le: "le s (notify process clear en update reporter s)"
  unfolding notify_def Let_def
  by (auto intro: service_refl service_process service_clear
      service_trans [OF service_process service_clear])

lemma merge_notify_le: "le s t \<Longrightarrow> le s (notify process clear en update reporter t)"
  using notify_le by (rule service_trans [rotated])

end

sublocale suspicion_service \<subseteq> clearing: growing le "\<lambda>u. clear (up_NodeID u) (up_Incarnation u)"
  by unfold_locales (auto intro: service_refl service_trans service_clear)

interpretation sv: suspicion_service grows
    "\<lambda>reporter target inc. ProcessSuspicion reporter target inc now" ClearSuspect for now
  by unfold_locales
    (auto intro: grows_trans ProcessSuspicion_grows ClearSuspect_grows)

end
