(* ===== verification/Node.thy ===== *)
theory Node
  imports Suspicion
begin

text \<open>
  The state of one process: the shared components and the managers of the two detectors
  (\<^verbatim>\<open>src/detectors/pingack.go\<close>, \<^verbatim>\<open>src/detectors/gossip.go\<close>) with the controller's mode
  (\<^verbatim>\<open>src/main.go\<close>). Goroutines that wait are part of the state: the running loops of a
  manager are counted, a protocol period that waits for an acknowledgement is a
  \<open>period\<close>, a ping request that waits for its target a \<open>relay\<close>.

  A buffered channel of capacity one is the value in it, if any; a channel that is only
  closed is a flag. The waiters of \<^verbatim>\<open>handleIndirectPing\<close> are shared between a map and a
  goroutine, so they live in a heap \<open>pa_heap\<close> and both hold an address.
\<close>

section \<open>The ping/ack manager\<close>

record pendingPing =
  pp_target :: NodeID
  pp_seqNum :: uint64
  pp_startTime :: time
  pp_directAck :: bool
  pp_indirectAcks :: "string list"
  pp_ackReceived :: bool

record indirectPingWaiter =
  iw_requester :: NodeID
  iw_ch :: "int32 option"
  iw_cancelled :: bool
  iw_createdTime :: time

datatype Phase = WaitDirect | WaitIndirect

record period =
  pd_seqNum :: uint64
  pd_target :: NodeID
  pd_updates :: "MemberUpdate list"
  pd_phase :: Phase
  pd_deadline :: time

record relay =
  rl_key :: string
  rl_waiter :: nat
  rl_msg :: Message
  rl_deadline :: time

text \<open>
  What wakes a loop \<^verbatim>\<open>for { select { case <-stop: return; case <-ticker.C: body } }\<close>. When both
  channels are ready Go picks either, so a loop that was told to stop may still run its body.
\<close>

datatype Wakeup = StopSignal | Tick

record PingAckManager =
  pa_k :: int64
  pa_stopped :: bool
  pa_seqNum :: uint64
  pa_pendingAcks :: "uint64 \<Rightarrow> pendingPing option"
  pa_pendingIndirect :: "nat gomap"
  pa_heap :: "nat \<Rightarrow> indirectPingWaiter option"
  pa_next :: nat
  pa_enableSuspicion :: bool
  pa_active :: bool
  pa_cancelled :: bool
  pa_timeouts :: TimeoutConfig
  pa_pingLoops :: nat
  pa_failureLoops :: nat
  pa_cleanupLoops :: nat
  pa_periods :: "period list"
  pa_relays :: "relay list"

definition NewPingAckManagerWithTimeouts :: "TimeoutConfig \<Rightarrow> PingAckManager" where
  "NewPingAckManagerWithTimeouts timeouts =
     \<lparr>pa_k = 3, pa_stopped = False, pa_seqNum = 0, pa_pendingAcks = Map.empty,
      pa_pendingIndirect = [], pa_heap = Map.empty, pa_next = 0,
      pa_enableSuspicion = False, pa_active = True, pa_cancelled = False,
      pa_timeouts = timeouts,
      pa_pingLoops = 0, pa_failureLoops = 0, pa_cleanupLoops = 0,
      pa_periods = [], pa_relays = []\<rparr>"

definition NewPingAckManager :: PingAckManager where
  "NewPingAckManager =
     \<lparr>pa_k = 3, pa_stopped = False, pa_seqNum = 0, pa_pendingAcks = Map.empty,
      pa_pendingIndirect = [], pa_heap = Map.empty, pa_next = 0,
      pa_enableSuspicion = False, pa_active = True, pa_cancelled = False,
      pa_timeouts = OptimalTimeoutConfig,
      pa_pingLoops = 0, pa_failureLoops = 0, pa_cleanupLoops = 0,
      pa_periods = [], pa_relays = []\<rparr>"

section \<open>The gossip manager\<close>

text \<open>
  \<open>gm_stopCh\<close> is the stop channel: \<^term>\<open>None\<close> for \<^verbatim>\<open>nil\<close>, otherwise whether it is closed.
\<close>

record GossipManager =
  gm_fanout :: int64
  gm_stopCh :: "bool option"
  gm_enableSuspicion :: bool
  gm_active :: bool
  gm_timeouts :: TimeoutConfig
  gm_gossipLoops :: nat
  gm_failureLoops :: nat

definition NewGossipManagerWithTimeouts :: "TimeoutConfig \<Rightarrow> GossipManager" where
  "NewGossipManagerWithTimeouts timeouts =
     \<lparr>gm_fanout = 3, gm_stopCh = Some False, gm_enableSuspicion = False, gm_active = False,
      gm_timeouts = timeouts, gm_gossipLoops = 0, gm_failureLoops = 0\<rparr>"

definition NewGossipManager :: GossipManager where
  "NewGossipManager =
     \<lparr>gm_fanout = 3, gm_stopCh = Some False, gm_enableSuspicion = False, gm_active = False,
      gm_timeouts = OptimalTimeoutConfig, gm_gossipLoops = 0, gm_failureLoops = 0\<rparr>"

section \<open>The process\<close>

record node = shared +
  pingack :: PingAckManager
  gossip :: GossipManager
  mode :: DetectionMode

text \<open>The suspicion manager does not touch the detectors.\<close>

lemma refutation_detectors [simp]:
  fixes w :: node
  shows "pingack (handleSelfRefutation i now w) = pingack w"
    "gossip (handleSelfRefutation i now w) = gossip w"
    "mode (handleSelfRefutation i now w) = mode w"
  by (simp_all add: handleSelfRefutation_def Let_def)

lemma ProcessSuspicion_detectors [simp]:
  fixes w :: node
  shows "pingack (ProcessSuspicion r t i now w) = pingack w"
    "gossip (ProcessSuspicion r t i now w) = gossip w"
    "mode (ProcessSuspicion r t i now w) = mode w"
  by (simp_all add: ProcessSuspicion_def Let_def split: option.splits)

lemma ClearSuspect_detectors [simp]:
  fixes w :: node
  shows "pingack (ClearSuspect t i w) = pingack w" "gossip (ClearSuspect t i w) = gossip w"
    "mode (ClearSuspect t i w) = mode w"
  by (simp_all add: ClearSuspect_def Let_def split: option.splits)

lemma notify_detectors [simp]:
  fixes w :: node
  shows "pingack (notify (\<lambda>r t i. ProcessSuspicion r t i now) ClearSuspect en u rep w) = pingack w"
    "gossip (notify (\<lambda>r t i. ProcessSuspicion r t i now) ClearSuspect en u rep w) = gossip w"
    "mode (notify (\<lambda>r t i. ProcessSuspicion r t i now) ClearSuspect en u rep w) = mode w"
  by (simp_all add: notify_def Let_def)

lemma check_detectors [simp]:
  fixes w :: node
  shows "pingack (check now w) = pingack w" "gossip (check now w) = gossip w"
    "mode (check now w) = mode w"
  by (simp_all add: check_def Let_def split: prod.splits)

text \<open>What the shared components keep does not depend on the detectors' fields.\<close>

lemma wf_shared_detectors [simp]:
  fixes w :: node
  shows "wf_shared (w\<lparr>pingack := p\<rparr>) = wf_shared w"
    "wf_shared (w\<lparr>gossip := g\<rparr>) = wf_shared w"
    "wf_shared (w\<lparr>mode := m\<rparr>) = wf_shared w"
  by (simp_all add: wf_shared_def)

lemma keeps_detectors [simp]:
  fixes w w' :: node
  shows "keeps w (w'\<lparr>pingack := p\<rparr>) = keeps w w'"
    "keeps w (w'\<lparr>gossip := g\<rparr>) = keeps w w'"
    "keeps w (w'\<lparr>mode := m\<rparr>) = keeps w w'"
    "keeps (w\<lparr>pingack := p\<rparr>) w' = keeps w w'"
    "keeps (w\<lparr>gossip := g\<rparr>) w' = keeps w w'"
    "keeps (w\<lparr>mode := m\<rparr>) w' = keeps w w'"
  by (simp_all add: keeps_def)

lemma grows_detectors [simp]:
  fixes w w' :: node
  shows "grows w (w'\<lparr>pingack := p\<rparr>) = grows w w'"
    "grows w (w'\<lparr>gossip := g\<rparr>) = grows w w'"
    "grows w (w'\<lparr>mode := m\<rparr>) = grows w w'"
    "grows (w\<lparr>pingack := p\<rparr>) w' = grows w w'"
    "grows (w\<lparr>gossip := g\<rparr>) w' = grows w w'"
    "grows (w\<lparr>mode := m\<rparr>) w' = grows w w'"
  by (simp_all add: grows_def)

end
