(* ===== verification/PingAck.thy ===== *)
theory PingAck
  imports Node
begin

text \<open>
  The ping/ack failure detector of \<^verbatim>\<open>src/detectors/pingack.go\<close>, one definition per method
  (prefix \<open>PA_\<close>). The two methods that block, \<^verbatim>\<open>performSWIMProtocolPeriod\<close> and the
  goroutine of \<^verbatim>\<open>handleIndirectPing\<close>, are split at their blocking points: each branch of
  a \<^verbatim>\<open>select\<close> is a definition that continues from the saved \<open>period\<close> or \<open>relay\<close>.
  A handler's unused argument \<^verbatim>\<open>from\<close> and the log lines are left out.
\<close>

section \<open>Life cycle\<close>

datatype Outcome = Returned | Panicked

text \<open>The loops run until their \<^verbatim>\<open>select\<close> sees \<^verbatim>\<open>p.stopped\<close> closed; \<^verbatim>\<open>Stop\<close> does not wait for them.\<close>

definition PA_Start :: "node \<Rightarrow> node" where
  "PA_Start w =
     (let n1 = RegisterHandler Ping P_handlePing (network w);
          n2 = RegisterHandler Ack P_handleAck n1;
          n3 = RegisterHandler IndirectPing P_handleIndirectPing n2;
          n4 = RegisterHandler IndirectAck P_handleIndirectAck n3;
          n5 = RegisterHandler Join P_handleJoin n4;
          n6 = RegisterHandler JoinResponse P_handleJoinResponse n5;
          n7 = RegisterHandler AliveMsg P_handleAliveMessage n6;
          n8 = RegisterHandler Suspect P_handleSuspectMessage n7;
          n9 = RegisterHandler Leave P_handleLeave n8;
          p = pingack w
      in w\<lparr>network := n9,
           pingack := p\<lparr>pa_pingLoops := pa_pingLoops p + 1,
             pa_failureLoops := pa_failureLoops p + 1,
             pa_cleanupLoops := pa_cleanupLoops p + 1\<rparr>\<rparr>)"

text \<open>\<^verbatim>\<open>close(p.stopped)\<close> panics when the channel is already closed.\<close>

definition PA_Stop :: "node \<Rightarrow> Outcome \<times> node" where
  "PA_Stop w =
     (let p = (pingack w)\<lparr>pa_cancelled := True\<rparr> in
      if pa_stopped p then (Panicked, w\<lparr>pingack := p\<rparr>)
      else (Returned, w\<lparr>pingack := p\<lparr>pa_stopped := True\<rparr>\<rparr>))"

definition PA_SetSuspicion :: "bool \<Rightarrow> node \<Rightarrow> node" where
  "PA_SetSuspicion enable w = w\<lparr>pingack := (pingack w)\<lparr>pa_enableSuspicion := enable\<rparr>\<rparr>"

definition PA_SuspicionEnabled :: "node \<Rightarrow> bool" where
  "PA_SuspicionEnabled w = pa_enableSuspicion (pingack w)"

section \<open>Declaring a suspicion\<close>

definition failed_member :: "Member \<Rightarrow> Member" where
  "failed_member m = zero_Member\<lparr>mb_ID := mb_ID m, mb_Status := Failed,
     mb_Incarnation := mb_Incarnation m\<rparr>"

definition PA_declareSuspicion :: "NodeID \<Rightarrow> time \<Rightarrow> node \<Rightarrow> node" where
  "PA_declareSuspicion nodeID now w =
     (let memberKey = NodeID_String nodeID; ml = membership w in
      if pa_enableSuspicion (pingack w) then
        let (member, ml') =
          (case lookup ml memberKey of
             None \<Rightarrow>
               let member = zero_Member\<lparr>mb_ID := nodeID, mb_Status := Suspected,
                     mb_LastHeartbeat := now, mb_SuspicionStart := now\<rparr>
               in (member, AddRecentUpdate now member (store memberKey member ml))
           | Some member \<Rightarrow>
               if mb_Status member \<noteq> Suspected then
                 let member' = member\<lparr>mb_Status := Suspected, mb_SuspicionStart := now\<rparr>
                 in (member', AddRecentUpdate now member' (store memberKey member' ml))
               else (member, ml))
        in ProcessSuspicion (ml_LocalNode ml) nodeID (mb_Incarnation member) now
             (w\<lparr>membership := ml'\<rparr>)
      else
        (case lookup ml memberKey of
           None \<Rightarrow> w
         | Some member \<Rightarrow>
             w\<lparr>membership := discard memberKey (AddRecentUpdate now (failed_member member) ml)\<rparr>))"

section \<open>Merging updates\<close>

text \<open>An update against a known member: the member afterwards, and whether it was updated.\<close>

definition PA_merge :: "bool \<Rightarrow> MemberUpdate \<Rightarrow> time \<Rightarrow> Member \<Rightarrow> Member \<times> bool" where
  "PA_merge enableSuspicion update now member =
     (if sint (up_Incarnation update) > sint (mb_Incarnation member) then
        let m1 = member\<lparr>mb_Incarnation := up_Incarnation update,
              mb_Status := up_Status update\<rparr>
        in (if up_Status update = Alive
              then m1\<lparr>mb_LastHeartbeat := now, mb_SuspicionStart := 0\<rparr>
            else if up_Status update = Suspected \<and> enableSuspicion
              then m1\<lparr>mb_SuspicionStart := now\<rparr>
            else m1, True)
      else if up_Incarnation update = mb_Incarnation member then
        if up_Status update = Alive \<and> mb_Status member = Suspected then
          (member\<lparr>mb_Status := Alive, mb_LastHeartbeat := now, mb_SuspicionStart := 0\<rparr>, True)
        else if up_Status update = Suspected \<and> mb_Status member = Alive then
          (member\<lparr>mb_Status := Suspected, mb_SuspicionStart := now\<rparr>, True)
        else (member, False)
      else (member, False))"

definition PA_new_member :: "MemberUpdate \<Rightarrow> time \<Rightarrow> Member" where
  "PA_new_member update now =
     (let newMember = zero_Member\<lparr>mb_ID := up_NodeID update,
            mb_Incarnation := up_Incarnation update, mb_Status := up_Status update,
            mb_LastHeartbeat := now\<rparr>
      in if up_Status update = Suspected then newMember\<lparr>mb_SuspicionStart := now\<rparr>
         else newMember)"

definition PA_processUpdate :: "MemberUpdate \<Rightarrow> NodeID \<Rightarrow> time \<Rightarrow> node \<Rightarrow> node" where
  "PA_processUpdate update reporter now w =
     (let memberKey = NodeID_String (up_NodeID update);
          ml = membership w;
          enableSuspicion = pa_enableSuspicion (pingack w)
      in if memberKey = NodeID_String (ml_LocalNode ml) then
           if up_Status update = Suspected \<and> enableSuspicion then
             ProcessSuspicion reporter (up_NodeID update) (up_Incarnation update) now w
           else if up_Status update = Alive then
             ClearSuspect (up_NodeID update) (up_Incarnation update) w
           else w
         else case lookup ml memberKey of
           None \<Rightarrow>
             let newMember = PA_new_member update now
             in w\<lparr>membership := AddRecentUpdate now newMember (store memberKey newMember ml)\<rparr>
         | Some member \<Rightarrow>
             let (member', updated) = PA_merge enableSuspicion update now member;
                 ml1 = store memberKey member' ml;
                 ml2 = (if updated then AddRecentUpdate now member' ml1 else ml1)
             in notify (\<lambda>r t i. ProcessSuspicion r t i now) ClearSuspect enableSuspicion
                  update reporter (w\<lparr>membership := ml2\<rparr>))"

text \<open>The loop over the updates that a message carries.\<close>

definition PA_processUpdates :: "MemberUpdate list \<Rightarrow> NodeID \<Rightarrow> time \<Rightarrow> node \<Rightarrow> node" where
  "PA_processUpdates updates reporter now w =
     fold (\<lambda>update. PA_processUpdate update reporter now) updates w"

section \<open>Failure check\<close>

definition PA_checkFailures :: "time \<Rightarrow> node \<Rightarrow> node" where
  "PA_checkFailures now w =
     (let ml = membership w;
          toRemove = map snd (filter (\<lambda>(key, member).
            key \<noteq> NodeID_String (ml_LocalNode ml) \<and> mb_Status member = Suspected
            \<and> sint (time_Sub now (mb_SuspicionStart member))
                > sint (to_SuspicionTimeout (pa_timeouts (pingack w)))) (ml_Members ml));
          ml1 = fold (\<lambda>member. discard (NodeID_String (mb_ID member))) toRemove ml;
          ml2 = fold (\<lambda>member. AddRecentUpdateSafe now (failed_member member)) toRemove ml1
      in w\<lparr>membership := ml2\<rparr>)"

section \<open>Handlers\<close>

text \<open>The update of the sender's entry, the same in \<^verbatim>\<open>handlePing\<close> and \<^verbatim>\<open>handleAck\<close>.\<close>

definition PA_note_sender :: "Message \<Rightarrow> time \<Rightarrow> MembershipList \<Rightarrow> MembershipList" where
  "PA_note_sender msg now ml =
     (let senderKey = NodeID_String (msg_Sender msg) in
      case lookup ml senderKey of
        None \<Rightarrow>
          let newMember = zero_Member\<lparr>mb_ID := msg_Sender msg,
                mb_Incarnation := msg_Incarnation msg, mb_Status := Alive,
                mb_LastHeartbeat := now\<rparr>
          in AddRecentUpdate now newMember (store senderKey newMember ml)
      | Some sender \<Rightarrow>
          if sint (msg_Incarnation msg) > sint (mb_Incarnation sender) then
            let sender' = sender\<lparr>mb_Incarnation := msg_Incarnation msg, mb_Status := Alive,
                  mb_LastHeartbeat := now, mb_SuspicionStart := 0\<rparr>
            in AddRecentUpdate now sender' (store senderKey sender' ml)
          else if msg_Incarnation msg = mb_Incarnation sender then
            let sender1 = sender\<lparr>mb_LastHeartbeat := now\<rparr>
            in if mb_Status sender1 = Suspected then
                 let sender2 = sender1\<lparr>mb_Status := Alive, mb_SuspicionStart := 0\<rparr>
                 in AddRecentUpdate now sender2 (store senderKey sender2 ml)
               else store senderKey sender1 ml
          else ml)"

definition PA_handlePing :: "Message \<Rightarrow> time \<Rightarrow> node \<Rightarrow> node" where
  "PA_handlePing msg now w =
     (if \<not> pa_active (pingack w) then w
      else
        let ack = (message Ack)\<lparr>msg_Sender := ml_LocalNode (membership w),
              msg_Target := msg_Sender msg, msg_SeqNum := msg_SeqNum msg,
              msg_Incarnation := ml_Incarnation (membership w)\<rparr>;
            w1 = w\<lparr>network := snd (Send now ack (NodeID_Address (msg_Sender msg)) (network w))\<rparr>;
            w2 = w1\<lparr>membership := PA_note_sender msg now (membership w1)\<rparr>
        in PA_processUpdates (msg_Members msg) (msg_Sender msg) now w2)"

text \<open>\<^verbatim>\<open>fmt.Sprintf("%d|%s", seq, id)\<close>, the key of a waiting ping request.\<close>

definition indirect_key :: "uint64 \<Rightarrow> NodeID \<Rightarrow> string" where
  "indirect_key seq n = dec_nat (unat seq) @ CHR ''|'' # NodeID_String n"

definition PA_signal_pending :: "Message \<Rightarrow> PingAckManager \<Rightarrow> PingAckManager" where
  "PA_signal_pending msg p =
     (case pa_pendingAcks p (msg_SeqNum msg) of
        Some pending \<Rightarrow>
          if NodeID_Equals (pp_target pending) (msg_Sender msg) then
            p\<lparr>pa_pendingAcks := (pa_pendingAcks p)(msg_SeqNum msg \<mapsto>
              pending\<lparr>pp_directAck := True, pp_ackReceived := True\<rparr>)\<rparr>
          else p
      | None \<Rightarrow> p)"

definition PA_signal_waiter :: "Message \<Rightarrow> PingAckManager \<Rightarrow> PingAckManager" where
  "PA_signal_waiter msg p =
     (case map_of (pa_pendingIndirect p) (indirect_key (msg_SeqNum msg) (msg_Sender msg)) of
        None \<Rightarrow> p
      | Some a \<Rightarrow>
          (case pa_heap p a of
             None \<Rightarrow> p
           | Some waiter \<Rightarrow>
               if iw_ch waiter = None then
                 p\<lparr>pa_heap := (pa_heap p)(a \<mapsto>
                   waiter\<lparr>iw_ch := Some (msg_Incarnation msg)\<rparr>)\<rparr>
               else p))"

definition PA_handleAck :: "Message \<Rightarrow> time \<Rightarrow> node \<Rightarrow> node" where
  "PA_handleAck msg now w =
     (if \<not> pa_active (pingack w) then w
      else
        let w1 = w\<lparr>membership := PA_note_sender msg now (membership w)\<rparr>;
            w2 = ClearSuspect (msg_Sender msg) (msg_Incarnation msg) w1;
            w3 = w2\<lparr>pingack := PA_signal_pending msg (pingack w2)\<rparr>
        in w3\<lparr>pingack := PA_signal_waiter msg (pingack w3)\<rparr>)"

subsection \<open>Indirect probing, at the helper\<close>

text \<open>
  The handler creates the waiter, files it under the probe's key, processes the updates,
  pings the target and starts the goroutine that waits. \<^term>\<open>None\<close> is the panic of the
  slice expression in \<^verbatim>\<open>GetRecentUpdates\<close>.
\<close>

definition PA_handleIndirectPing :: "Message \<Rightarrow> time \<Rightarrow> node \<Rightarrow> node option" where
  "PA_handleIndirectPing msg now w =
     (if \<not> pa_active (pingack w) then Some w
      else
        let ml = membership w;
            ml1 = (case lookup ml (NodeID_String (msg_Sender msg)) of
                None \<Rightarrow> ml
              | Some m \<Rightarrow>
                  if sint (msg_Incarnation msg) \<ge> sint (mb_Incarnation m)
                  then store (NodeID_String (msg_Sender msg)) (m\<lparr>mb_LastHeartbeat := now\<rparr>) ml
                  else ml);
            key = indirect_key (msg_SeqNum msg) (msg_Target msg);
            waiter = \<lparr>iw_requester = msg_Sender msg, iw_ch = None, iw_cancelled = False,
              iw_createdTime = now\<rparr>;
            p = pingack w;
            a = pa_next p;
            p1 = p\<lparr>pa_heap := (pa_heap p)(a \<mapsto> waiter), pa_next := Suc a,
              pa_pendingIndirect := AList.update key a (pa_pendingIndirect p)\<rparr>;
            w1 = PA_processUpdates (msg_Members msg) (msg_Sender msg) now
              (w\<lparr>membership := ml1, pingack := p1\<rparr>)
        in case GetRecentUpdates now 5 (membership w1) of
             None \<Rightarrow> None
           | Some (updates, ml2) \<Rightarrow>
               let ping = (message Ping)\<lparr>msg_Sender := ml_LocalNode ml2,
                     msg_Target := msg_Target msg, msg_Incarnation := ml_Incarnation ml2,
                     msg_SeqNum := msg_SeqNum msg, msg_Members := updates\<rparr>;
                   n = snd (Send now ping (NodeID_Address (msg_Target msg)) (network w1));
                   p2 = pingack w1;
                   goroutine = \<lparr>rl_key = key, rl_waiter = a, rl_msg = msg,
                     rl_deadline = time_Add now (to_AckTimeout (pa_timeouts p2))\<rparr>
               in Some (w1\<lparr>membership := ml2, network := n,
                    pingack := p2\<lparr>pa_relays := pa_relays p2 @ [goroutine]\<rparr>\<rparr>))"

definition cancel_waiter :: "nat \<Rightarrow> PingAckManager \<Rightarrow> PingAckManager" where
  "cancel_waiter a p =
     (case pa_heap p a of
        None \<Rightarrow> p
      | Some waiter \<Rightarrow> p\<lparr>pa_heap := (pa_heap p)(a \<mapsto> waiter\<lparr>iw_cancelled := True\<rparr>)\<rparr>)"

definition waiter_done :: "PingAckManager \<Rightarrow> nat \<Rightarrow> bool" where
  "waiter_done p a \<longleftrightarrow> pa_cancelled p
     \<or> (case pa_heap p a of None \<Rightarrow> False | Some waiter \<Rightarrow> iw_cancelled waiter)"

text \<open>
  The goroutine's deferred call: the waiter is cancelled and the map entry under its key
  deleted, whichever waiter that entry points to.
\<close>

definition relay_finish :: "relay \<Rightarrow> PingAckManager \<Rightarrow> PingAckManager" where
  "relay_finish r p =
     (let p1 = cancel_waiter (rl_waiter r) p in
      p1\<lparr>pa_pendingIndirect := AList.delete (rl_key r) (pa_pendingIndirect p1),
         pa_relays := remove1 r (pa_relays p1)\<rparr>)"

text \<open>The three branches of the goroutine's \<^verbatim>\<open>select\<close>; \<^term>\<open>None\<close> when not ready.\<close>

definition PA_relay_ack :: "relay \<Rightarrow> time \<Rightarrow> node \<Rightarrow> node option" where
  "PA_relay_ack r now w =
     (case pa_heap (pingack w) (rl_waiter r) of
        None \<Rightarrow> None
      | Some waiter \<Rightarrow>
          (case iw_ch waiter of
             None \<Rightarrow> None
           | Some receivedIncarnation \<Rightarrow>
               let indAck = (message IndirectAck)\<lparr>msg_Sender := ml_LocalNode (membership w),
                     msg_Target := msg_Target (rl_msg r),
                     msg_Incarnation := receivedIncarnation,
                     msg_SeqNum := msg_SeqNum (rl_msg r)\<rparr>;
                   p1 = (pingack w)\<lparr>pa_heap := (pa_heap (pingack w))(rl_waiter r \<mapsto>
                     waiter\<lparr>iw_ch := None\<rparr>)\<rparr>
               in Some (w\<lparr>network := snd (Send now indAck
                      (NodeID_Address (iw_requester waiter)) (network w)),
                    pingack := relay_finish r p1\<rparr>)))"

definition PA_relay_timeout :: "relay \<Rightarrow> time \<Rightarrow> node \<Rightarrow> node option" where
  "PA_relay_timeout r now w =
     (if now < rl_deadline r then None else Some (w\<lparr>pingack := relay_finish r (pingack w)\<rparr>))"

definition PA_relay_cancelled :: "relay \<Rightarrow> node \<Rightarrow> node option" where
  "PA_relay_cancelled r w =
     (if waiter_done (pingack w) (rl_waiter r)
      then Some (w\<lparr>pingack := relay_finish r (pingack w)\<rparr>) else None)"

text \<open>One pass of the loop that removes the collected entries.\<close>

definition cleanup_step :: "string \<Rightarrow> PingAckManager \<Rightarrow> PingAckManager" where
  "cleanup_step key p =
     (case map_of (pa_pendingIndirect p) key of
        None \<Rightarrow> p
      | Some a \<Rightarrow> (cancel_waiter a p)\<lparr>pa_pendingIndirect :=
          AList.delete key (pa_pendingIndirect p)\<rparr>)"

definition PA_cleanupOrphanedEntries :: "time \<Rightarrow> node \<Rightarrow> node" where
  "PA_cleanupOrphanedEntries now w =
     (let p = pingack w;
          maxAge = 2 * to_AckTimeout (pa_timeouts p);
          toCleanup = map fst (filter (\<lambda>(key, a). waiter_done p a
            \<or> (case pa_heap p a of None \<Rightarrow> False
               | Some waiter \<Rightarrow> sint (time_Sub now (iw_createdTime waiter)) > sint maxAge))
            (pa_pendingIndirect p));
          p' = fold cleanup_step toCleanup p
      in w\<lparr>pingack := p'\<rparr>)"

subsection \<open>Indirect probing, at the origin\<close>

text \<open>The signal to the waiting period, and the membership part of the handler.\<close>

definition PA_signal_indirect :: "Message \<Rightarrow> PingAckManager \<Rightarrow> PingAckManager" where
  "PA_signal_indirect msg p =
     (case pa_pendingAcks p (msg_SeqNum msg) of
        Some pending \<Rightarrow>
          if NodeID_Equals (pp_target pending) (msg_Target msg) then
            p\<lparr>pa_pendingAcks := (pa_pendingAcks p)(msg_SeqNum msg \<mapsto>
              pending\<lparr>pp_indirectAcks :=
                  List.insert (NodeID_String (msg_Sender msg)) (pp_indirectAcks pending),
                pp_ackReceived := True\<rparr>)\<rparr>
          else p
      | None \<Rightarrow> p)"

definition indirect_ack_members :: "Message \<Rightarrow> time \<Rightarrow> MembershipList \<Rightarrow> MembershipList" where
  "indirect_ack_members msg now ml =
     (let targetKey = NodeID_String (msg_Target msg) in
      case lookup ml targetKey of
        None \<Rightarrow> ml
      | Some m \<Rightarrow>
          if sint (msg_Incarnation msg) \<ge> sint (mb_Incarnation m) then
            let m1 = m\<lparr>mb_Incarnation := msg_Incarnation msg, mb_LastHeartbeat := now\<rparr>
            in if mb_Status m1 \<noteq> Alive then
                 let m2 = m1\<lparr>mb_Status := Alive, mb_SuspicionStart := 0\<rparr>
                 in AddRecentUpdate now m2 (store targetKey m2 ml)
               else store targetKey m1 ml
          else ml)"

definition PA_handleIndirectAck :: "Message \<Rightarrow> time \<Rightarrow> node \<Rightarrow> node" where
  "PA_handleIndirectAck msg now w =
     (if \<not> pa_active (pingack w) then w
      else
        let w1 = w\<lparr>pingack := PA_signal_indirect msg (pingack w)\<rparr>;
            w2 = w1\<lparr>membership := indirect_ack_members msg now (membership w1)\<rparr>
        in ClearSuspect (msg_Target msg) (msg_Incarnation msg) w2)"

section \<open>The protocol period\<close>

text \<open>
  The blocking points of \<^verbatim>\<open>performSWIMProtocolPeriod\<close>: the wait for a direct
  acknowledgement and the wait for an indirect one. \<^term>\<open>None\<close> stands for a panic in
  \<open>begin\<close> and \<open>direct_timeout\<close>, and for a branch that is not ready.
\<close>

definition drop_pending :: "uint64 \<Rightarrow> PingAckManager \<Rightarrow> PingAckManager" where
  "drop_pending seq p = p\<lparr>pa_pendingAcks := (pa_pendingAcks p)(seq := None)\<rparr>"

definition PA_period_begin :: "(nat \<Rightarrow> nat) \<Rightarrow> time \<Rightarrow> node \<Rightarrow> node option" where
  "PA_period_begin rnd now w =
     (case GetRandomMembers rnd 1 [NodeID_String (ml_LocalNode (membership w))] (membership w) of
        None \<Rightarrow> None
      | Some [] \<Rightarrow> Some w
      | Some (target # _) \<Rightarrow>
          let p = pingack w; seqNum = pa_seqNum p + 1 in
          (case GetRecentUpdates now 5 (membership w) of
             None \<Rightarrow> None
           | Some (updates, ml) \<Rightarrow>
               let pingMsg = (message Ping)\<lparr>msg_Sender := ml_LocalNode ml,
                     msg_Target := mb_ID target, msg_Incarnation := ml_Incarnation ml,
                     msg_SeqNum := seqNum, msg_Members := updates\<rparr>;
                   pending = \<lparr>pp_target = mb_ID target, pp_seqNum = seqNum,
                     pp_startTime = now, pp_directAck = False, pp_indirectAcks = [],
                     pp_ackReceived = False\<rparr>;
                   wait = \<lparr>pd_seqNum = seqNum, pd_target = mb_ID target, pd_updates = updates,
                     pd_phase = WaitDirect,
                     pd_deadline = time_Add now (to_AckTimeout (pa_timeouts p))\<rparr>
               in Some (w\<lparr>membership := ml,
                    network := snd (Send now pingMsg (NodeID_Address (mb_ID target)) (network w)),
                    pingack := p\<lparr>pa_seqNum := seqNum,
                      pa_pendingAcks := (pa_pendingAcks p)(seqNum \<mapsto> pending),
                      pa_periods := pa_periods p @ [wait]\<rparr>\<rparr>)))"

definition period_finish :: "period \<Rightarrow> PingAckManager \<Rightarrow> PingAckManager" where
  "period_finish d p =
     (drop_pending (pd_seqNum d) p)\<lparr>pa_periods := remove1 d (pa_periods p)\<rparr>"

text \<open>\<^verbatim>\<open>case <-pending.ackReceived\<close>, in either wait.\<close>

definition PA_period_ack :: "period \<Rightarrow> node \<Rightarrow> node option" where
  "PA_period_ack d w =
     (case pa_pendingAcks (pingack w) (pd_seqNum d) of
        None \<Rightarrow> None
      | Some pending \<Rightarrow>
          if pp_ackReceived pending
          then Some (w\<lparr>pingack := period_finish d (pingack w)\<rparr>) else None)"

definition PA_period_direct_timeout :: "(nat \<Rightarrow> nat) \<Rightarrow> period \<Rightarrow> time \<Rightarrow> node \<Rightarrow> node option" where
  "PA_period_direct_timeout rnd d now w =
     (if pd_phase d \<noteq> WaitDirect \<or> now < pd_deadline d then None
      else case GetRandomMembers rnd (sint (pa_k (pingack w)))
             [NodeID_String (ml_LocalNode (membership w)), NodeID_String (pd_target d)]
             (membership w) of
        None \<Rightarrow> None
      | Some indirectMembers \<Rightarrow>
          if indirectMembers = [] then
            Some (PA_declareSuspicion (pd_target d) now
              (w\<lparr>pingack := period_finish d (pingack w)\<rparr>))
          else
            let pingReqMsg = (message IndirectPing)\<lparr>
                  msg_Sender := ml_LocalNode (membership w), msg_Target := pd_target d,
                  msg_Incarnation := ml_Incarnation (membership w),
                  msg_SeqNum := pd_seqNum d, msg_Members := pd_updates d\<rparr>;
                n = fold (\<lambda>indirectMember n. snd (Send now pingReqMsg
                  (NodeID_Address (mb_ID indirectMember)) n)) indirectMembers (network w);
                p = pingack w;
                remainingTimeout = to_ProtocolPeriod (pa_timeouts p)
                  - to_AckTimeout (pa_timeouts p);
                d' = d\<lparr>pd_phase := WaitIndirect, pd_deadline := time_Add now remainingTimeout\<rparr>
            in Some (w\<lparr>network := n,
                 pingack := p\<lparr>pa_periods := remove1 d (pa_periods p) @ [d']\<rparr>\<rparr>))"

definition PA_period_indirect_timeout :: "period \<Rightarrow> time \<Rightarrow> node \<Rightarrow> node option" where
  "PA_period_indirect_timeout d now w =
     (if pd_phase d \<noteq> WaitIndirect \<or> now < pd_deadline d then None
      else Some (PA_declareSuspicion (pd_target d) now
             (w\<lparr>pingack := period_finish d (pingack w)\<rparr>)))"

section \<open>The loops\<close>

text \<open>
  One pass of each goroutine that \<^verbatim>\<open>Start\<close> launches. A loop that returns is one loop fewer;
  \<^term>\<open>None\<close> stands for a channel that is not ready, and for a panic of the body.
\<close>

definition PA_pingLoop :: "Wakeup \<Rightarrow> (nat \<Rightarrow> nat) \<Rightarrow> time \<Rightarrow> node \<Rightarrow> node option" where
  "PA_pingLoop wakeup rnd now w =
     (case wakeup of
        StopSignal \<Rightarrow>
          if pa_stopped (pingack w)
          then Some (w\<lparr>pingack := (pingack w)\<lparr>pa_pingLoops := pa_pingLoops (pingack w) - 1\<rparr>\<rparr>)
          else None
      | Tick \<Rightarrow> PA_period_begin rnd now w)"

definition PA_failureDetectionLoop :: "Wakeup \<Rightarrow> time \<Rightarrow> node \<Rightarrow> node option" where
  "PA_failureDetectionLoop wakeup now w =
     (case wakeup of
        StopSignal \<Rightarrow>
          if pa_stopped (pingack w)
          then Some (w\<lparr>pingack := (pingack w)\<lparr>pa_failureLoops := pa_failureLoops (pingack w) - 1\<rparr>\<rparr>)
          else None
      | Tick \<Rightarrow> Some (PA_checkFailures now w))"

definition PA_cleanupLoop :: "Wakeup \<Rightarrow> time \<Rightarrow> node \<Rightarrow> node option" where
  "PA_cleanupLoop wakeup now w =
     (case wakeup of
        StopSignal \<Rightarrow>
          if pa_stopped (pingack w) \<or> pa_cancelled (pingack w)
          then Some (w\<lparr>pingack := (pingack w)\<lparr>pa_cleanupLoops := pa_cleanupLoops (pingack w) - 1\<rparr>\<rparr>)
          else None
      | Tick \<Rightarrow> Some (PA_cleanupOrphanedEntries now w))"

section \<open>Membership handlers\<close>

text \<open>
  The deletion of the entries of the same address under another timestamp, with the
  failed updates that are recorded for them.
\<close>

definition old_entries :: "NodeID \<Rightarrow> MembershipList \<Rightarrow> string list" where
  "old_entries joiner ml = map fst (filter (\<lambda>(key, member).
     NodeID_Address (mb_ID member) = NodeID_Address joiner
     \<and> nid_Timestamp (mb_ID member) \<noteq> nid_Timestamp joiner) (ml_Members ml))"

fun remove_old :: "string list \<Rightarrow> MembershipList \<Rightarrow> MembershipList \<times> Member list" where
  "remove_old [] ml = (ml, [])"
| "remove_old (key # keys) ml =
     (case lookup ml key of
        None \<Rightarrow> remove_old keys ml
      | Some oldMember \<Rightarrow>
          let (ml', oldFailedUpdates) = remove_old keys (discard key ml)
          in (ml', failed_member oldMember # oldFailedUpdates))"

definition membership_updates :: "time \<Rightarrow> MembershipList \<Rightarrow> MemberUpdate list" where
  "membership_updates now ml = map (\<lambda>(k, member). \<lparr>up_NodeID = mb_ID member,
     up_Incarnation = mb_Incarnation member, up_Status = mb_Status member,
     up_Timestamp = now\<rparr>) (ml_Members ml)"

text \<open>The membership part of \<^verbatim>\<open>handleJoin\<close>, and the list that the response carries.\<close>

definition join_members ::
  "Message \<Rightarrow> time \<Rightarrow> MembershipList \<Rightarrow> MembershipList \<times> MemberUpdate list" where
  "join_members msg now ml =
     (let (ml1, oldFailedUpdates) = remove_old (old_entries (msg_Sender msg) ml) ml;
          newMember = zero_Member\<lparr>mb_ID := msg_Sender msg,
            mb_Incarnation := msg_Incarnation msg, mb_Status := Alive,
            mb_LastHeartbeat := now\<rparr>;
          ml2 = store (NodeID_String (msg_Sender msg)) newMember ml1;
          members = membership_updates now ml2;
          ml3 = fold (AddRecentUpdateSafe now) oldFailedUpdates ml2
      in (AddRecentUpdateSafe now newMember ml3, members))"

definition PA_handleJoin :: "Message \<Rightarrow> time \<Rightarrow> node \<Rightarrow> node" where
  "PA_handleJoin msg now w =
     (if \<not> pa_active (pingack w) then w
      else
        let (ml, members) = join_members msg now (membership w);
            response = (message JoinResponse)\<lparr>msg_Sender := ml_LocalNode ml,
              msg_Incarnation := ml_Incarnation ml, msg_Members := members\<rparr>
        in w\<lparr>membership := ml,
             network := snd (Send now response (NodeID_Address (msg_Sender msg)) (network w))\<rparr>)"

text \<open>One pass of the loop of \<^verbatim>\<open>handleJoinResponse\<close>, with the list \<^verbatim>\<open>clears\<close>.\<close>

definition join_response_step ::
  "time \<Rightarrow> MemberUpdate \<Rightarrow> MembershipList \<times> MemberUpdate list \<Rightarrow> MembershipList \<times> MemberUpdate list"
where
  "join_response_step now update s =
     (let (ml, clears) = s;
          memberKey = NodeID_String (up_NodeID update);
          clears' = (if up_Status update = Alive then clears @ [update] else clears)
      in if memberKey = NodeID_String (ml_LocalNode ml) then (ml, clears)
         else case lookup ml memberKey of
           None \<Rightarrow>
             let newMember = PA_new_member update now
             in (AddRecentUpdate now newMember (store memberKey newMember ml), clears')
         | Some member \<Rightarrow>
             if sint (up_Incarnation update) > sint (mb_Incarnation member) then
               let m1 = member\<lparr>mb_Incarnation := up_Incarnation update,
                     mb_Status := up_Status update, mb_LastHeartbeat := now\<rparr>;
                   m2 = (if up_Status update = Suspected then m1\<lparr>mb_SuspicionStart := now\<rparr>
                     else if up_Status update = Alive then m1\<lparr>mb_SuspicionStart := 0\<rparr>
                     else m1)
               in (AddRecentUpdate now m2 (store memberKey m2 ml), clears')
             else (ml, clears))"

definition PA_handleJoinResponse :: "Message \<Rightarrow> time \<Rightarrow> node \<Rightarrow> node" where
  "PA_handleJoinResponse msg now w =
     (if \<not> pa_active (pingack w) then w
      else
        let (ml, clears) = fold (join_response_step now) (msg_Members msg) (membership w, [])
        in fold (\<lambda>u. ClearSuspect (up_NodeID u) (up_Incarnation u)) clears
             (w\<lparr>membership := ml\<rparr>))"

text \<open>The membership part of \<^verbatim>\<open>handleAliveMessage\<close>.\<close>

definition alive_members :: "Message \<Rightarrow> time \<Rightarrow> MembershipList \<Rightarrow> MembershipList" where
  "alive_members msg now ml =
     (let memberKey = NodeID_String (msg_Sender msg) in
      case lookup ml memberKey of
        None \<Rightarrow> ml
      | Some member \<Rightarrow>
          if sint (msg_Incarnation msg) \<ge> sint (mb_Incarnation member)
            \<and> (mb_Status member \<noteq> Alive
               \<or> sint (msg_Incarnation msg) > sint (mb_Incarnation member)) then
            let member' = member\<lparr>mb_Incarnation := msg_Incarnation msg, mb_Status := Alive,
                  mb_LastHeartbeat := now, mb_SuspicionStart := 0\<rparr>
            in AddRecentUpdate now member' (store memberKey member' ml)
          else ml)"

definition PA_handleAliveMessage :: "Message \<Rightarrow> time \<Rightarrow> node \<Rightarrow> node" where
  "PA_handleAliveMessage msg now w =
     (if \<not> pa_active (pingack w) then w
      else ClearSuspect (msg_Sender msg) (msg_Incarnation msg)
        (w\<lparr>membership := alive_members msg now (membership w)\<rparr>))"

definition PA_handleSuspectMessage :: "Message \<Rightarrow> time \<Rightarrow> node \<Rightarrow> node" where
  "PA_handleSuspectMessage msg now w =
     (if \<not> pa_enableSuspicion (pingack w) then w
      else if \<not> pa_active (pingack w) then w
      else ProcessSuspicion (msg_Sender msg) (msg_Target msg) (msg_Incarnation msg) now w)"

text \<open>The membership part of \<^verbatim>\<open>handleLeave\<close>.\<close>

definition leave_members :: "Message \<Rightarrow> time \<Rightarrow> MembershipList \<Rightarrow> MembershipList" where
  "leave_members msg now ml =
     (let key = NodeID_String (msg_Sender msg) in
      case lookup ml key of
        None \<Rightarrow> ml
      | Some m \<Rightarrow> AddRecentUpdate now (failed_member m) (discard key ml))"

definition PA_handleLeave :: "Message \<Rightarrow> time \<Rightarrow> node \<Rightarrow> node" where
  "PA_handleLeave msg now w = w\<lparr>membership := leave_members msg now (membership w)\<rparr>"

section \<open>Joining and leaving\<close>

definition PA_JoinGroup :: "string \<Rightarrow> time \<Rightarrow> node \<Rightarrow> string option \<times> node" where
  "PA_JoinGroup introducerAddr now w =
     (if introducerAddr = [] then (None, w)
      else
        let w1 = w\<lparr>pingack := (pingack w)\<lparr>pa_active := True\<rparr>\<rparr>;
            ml = RefreshLocalNode now (membership w1);
            joinMsg = (message Join)\<lparr>msg_Sender := ml_LocalNode ml,
              msg_Incarnation := ml_Incarnation ml\<rparr>;
            (err, n) = Send now joinMsg introducerAddr (network w1)
        in (err, w1\<lparr>membership := ml, network := n\<rparr>))"

definition PA_LeaveGroup :: "time \<Rightarrow> node \<Rightarrow> node" where
  "PA_LeaveGroup now w =
     (let addrs = other_addresses (membership w);
          msg = (message Leave)\<lparr>msg_Sender := ml_LocalNode (membership w),
            msg_Incarnation := ml_Incarnation (membership w)\<rparr>
      in w\<lparr>network := send_all now msg addrs (network w),
           pingack := (pingack w)\<lparr>pa_active := False\<rparr>\<rparr>)"

end
