(* ===== verification/Gossip.thy ===== *)
theory Gossip
  imports PingAck
begin

text \<open>
  The gossip failure detector of \<^verbatim>\<open>src/detectors/gossip.go\<close>, one definition per method
  (prefix \<open>GM_\<close>). The methods whose text is that of the ping/ack detector but for the
  receiver (\<^verbatim>\<open>handleJoin\<close>, \<^verbatim>\<open>handleJoinResponse\<close>, \<^verbatim>\<open>handleAliveMessage\<close>,
  \<^verbatim>\<open>handleLeave\<close>) share the definitions of their membership part with it; the merge of an
  update and the treatment of a heartbeat's sender are written differently there, are
  transcribed separately and proved equal.
\<close>

section \<open>Life cycle\<close>

definition GM_Start :: "node \<Rightarrow> node" where
  "GM_Start w =
     (let g = gossip w in
      if gm_active g then w
      else
        let n1 = RegisterHandler Heartbeat G_handleHeartbeat (network w);
            n2 = RegisterHandler Suspect G_handleSuspectMessage n1;
            n3 = RegisterHandler AliveMsg G_handleAliveMessage n2;
            n4 = RegisterHandler Confirm G_handleConfirmMessage n3;
            n5 = RegisterHandler Join G_handleJoin n4;
            n6 = RegisterHandler JoinResponse G_handleJoinResponse n5;
            n7 = RegisterHandler Leave G_handleLeave n6
        in w\<lparr>network := n7,
             gossip := g\<lparr>gm_stopCh := Some False, gm_active := True,
               gm_gossipLoops := gm_gossipLoops g + 1,
               gm_failureLoops := gm_failureLoops g + 1\<rparr>\<rparr>)"

text \<open>
  \<^verbatim>\<open>Stop\<close> closes the channel that every loop of the manager waits on, waits for the loops
  and forgets the channel. Closing a closed channel panics.
\<close>

definition GM_Stop :: "node \<Rightarrow> Outcome \<times> node" where
  "GM_Stop w =
     (let g = gossip w in
      if \<not> gm_active g then (Returned, w)
      else
        let g1 = g\<lparr>gm_active := False\<rparr> in
        case gm_stopCh g of
          Some True \<Rightarrow> (Panicked, w\<lparr>gossip := g1\<rparr>)
        | Some False \<Rightarrow> (Returned, w\<lparr>gossip := g1\<lparr>gm_gossipLoops := 0,
            gm_failureLoops := 0, gm_stopCh := None\<rparr>\<rparr>)
        | None \<Rightarrow> (Returned, w\<lparr>gossip := g1\<rparr>))"

definition GM_SetSuspicion :: "bool \<Rightarrow> node \<Rightarrow> node" where
  "GM_SetSuspicion enable w = w\<lparr>gossip := (gossip w)\<lparr>gm_enableSuspicion := enable\<rparr>\<rparr>"

definition GM_SuspicionEnabled :: "node \<Rightarrow> bool" where
  "GM_SuspicionEnabled w = gm_enableSuspicion (gossip w)"

section \<open>The gossip round\<close>

text \<open>
  \<open>rnd1\<close> and \<open>rnd2\<close> are the random numbers of the two calls of \<^verbatim>\<open>GetRandomMembers\<close>;
  \<^term>\<open>None\<close> is a panic of a slice expression.
\<close>

definition GM_performGossipRound ::
  "(nat \<Rightarrow> nat) \<Rightarrow> (nat \<Rightarrow> nat) \<Rightarrow> time \<Rightarrow> node \<Rightarrow> node option" where
  "GM_performGossipRound rnd1 rnd2 now w =
     (let ml = membership w; localKey = NodeID_String (ml_LocalNode ml) in
      case GetRandomMembers rnd1 (sint (gm_fanout (gossip w))) [localKey] ml of
        None \<Rightarrow> None
      | Some targets \<Rightarrow>
          if targets = [] then Some w
          else
            let ml1 = (case lookup ml localKey of
                    None \<Rightarrow> ml | Some snapshot \<Rightarrow> AddRecentUpdateSafe now snapshot ml);
                ml2 = fold (AddRecentUpdateSafe now) targets ml1
            in (case GetRandomMembers rnd2 2 [localKey] ml2 of
                  None \<Rightarrow> None
                | Some extraPeers \<Rightarrow>
                    (case GetRecentUpdates now 10 (fold (AddRecentUpdateSafe now) extraPeers ml2) of
                       None \<Rightarrow> None
                     | Some (updates, ml3) \<Rightarrow>
                         let msg = (message Heartbeat)\<lparr>msg_Sender := ml_LocalNode ml3,
                               msg_Incarnation := ml_Incarnation ml3, msg_Members := updates,
                               msg_Timestamp := time_Unix now\<rparr>;
                             n = fold (\<lambda>target n. snd (Send now msg
                               (NodeID_Address (mb_ID target)) n)) targets (network w)
                         in Some (w\<lparr>membership := ml3, network := n\<rparr>))))"

section \<open>Failure check\<close>

definition suspect_threshold :: "TimeoutConfig \<Rightarrow> duration" where
  "suspect_threshold timeouts = (if sint (to_FailureTimeout timeouts) \<le> 0 then 3 * Second
     else to_FailureTimeout timeouts)"

definition confirm_threshold :: "TimeoutConfig \<Rightarrow> duration" where
  "confirm_threshold timeouts =
     (let suspectThreshold = suspect_threshold timeouts;
          confirmThreshold = suspectThreshold + to_CleanupTimeout timeouts
      in if sint confirmThreshold \<le> sint suspectThreshold then suspectThreshold + Second
         else confirmThreshold)"

text \<open>
  The scan of the members: the members afterwards, the members newly suspected and the
  candidates for removal, in the order of the scan.
\<close>

fun failure_scan :: "bool \<Rightarrow> TimeoutConfig \<Rightarrow> time \<Rightarrow> string \<Rightarrow> Member gomap
    \<Rightarrow> Member gomap \<times> Member list \<times> Member list" where
  "failure_scan enable timeouts now localKey [] = ([], [], [])"
| "failure_scan enable timeouts now localKey ((key, member) # rest) =
     (let (ms, suspectUpdates, removalCandidates) =
            failure_scan enable timeouts now localKey rest;
          suspectThreshold = suspect_threshold timeouts;
          confirmThreshold = confirm_threshold timeouts
      in if key = localKey then ((key, member) # ms, suspectUpdates, removalCandidates)
         else case mb_Status member of
           Alive \<Rightarrow>
             if sint suspectThreshold > 0
               \<and> sint (time_Sub now (mb_LastHeartbeat member)) \<ge> sint suspectThreshold then
               if enable then
                 let member' = member\<lparr>mb_Status := Suspected, mb_SuspicionStart := now\<rparr>
                 in ((key, member') # ms, member' # suspectUpdates, removalCandidates)
               else ((key, member) # ms, suspectUpdates, member # removalCandidates)
             else ((key, member) # ms, suspectUpdates, removalCandidates)
         | Suspected \<Rightarrow>
             if sint (time_Sub now (mb_SuspicionStart member)) \<ge> sint confirmThreshold
             then ((key, member) # ms, suspectUpdates, member # removalCandidates)
             else ((key, member) # ms, suspectUpdates, removalCandidates)
         | Failed \<Rightarrow>
             if sint (to_CleanupTimeout timeouts) > 0
               \<and> sint (time_Sub now (mb_LastHeartbeat member)) \<ge> sint (to_CleanupTimeout timeouts)
             then ((key, member) # ms, suspectUpdates, member # removalCandidates)
             else ((key, member) # ms, suspectUpdates, removalCandidates)
         | UnknownStatus _ \<Rightarrow> ((key, member) # ms, suspectUpdates, removalCandidates))"

text \<open>One pass of the loop that reports the newly suspected members.\<close>

definition report_suspect :: "time \<Rightarrow> Member \<Rightarrow> node \<Rightarrow> node" where
  "report_suspect now member w =
     (let w' = w\<lparr>membership := AddRecentUpdateSafe now member (membership w)\<rparr>
      in if gm_enableSuspicion (gossip w')
         then ProcessSuspicion (ml_LocalNode (membership w')) (mb_ID member)
           (mb_Incarnation member) now w'
         else w')"

definition GM_checkFailures :: "time \<Rightarrow> node \<Rightarrow> node" where
  "GM_checkFailures now w =
     (let g = gossip w; ml = membership w;
          (ms, suspectUpdates, removalCandidates) =
            failure_scan (gm_enableSuspicion g) (gm_timeouts g) now
              (NodeID_String (ml_LocalNode ml)) (ml_Members ml);
          ml1 = fold (\<lambda>member. discard (NodeID_String (mb_ID member))) removalCandidates
            (ml\<lparr>ml_Members := ms\<rparr>);
          w1 = fold (report_suspect now) suspectUpdates (w\<lparr>membership := ml1\<rparr>)
      in w1\<lparr>membership := fold (\<lambda>member. AddRecentUpdateSafe now
           ((failed_member member)\<lparr>mb_LastHeartbeat := now\<rparr>)) removalCandidates
           (membership w1)\<rparr>)"

section \<open>The loops\<close>

text \<open>
  One pass of each goroutine that \<^verbatim>\<open>Start\<close> launches. \<^verbatim>\<open>Stop\<close> closes the channel and waits for
  both, so the branch that returns is part of \<^term>\<open>GM_Stop\<close> in every run of the program.
\<close>

definition GM_gossipLoop ::
  "Wakeup \<Rightarrow> (nat \<Rightarrow> nat) \<Rightarrow> (nat \<Rightarrow> nat) \<Rightarrow> time \<Rightarrow> node \<Rightarrow> node option" where
  "GM_gossipLoop wakeup rnd1 rnd2 now w =
     (case wakeup of
        StopSignal \<Rightarrow>
          if gm_stopCh (gossip w) = Some True
          then Some (w\<lparr>gossip := (gossip w)\<lparr>gm_gossipLoops := gm_gossipLoops (gossip w) - 1\<rparr>\<rparr>)
          else None
      | Tick \<Rightarrow> GM_performGossipRound rnd1 rnd2 now w)"

definition GM_failureDetectionLoop :: "Wakeup \<Rightarrow> time \<Rightarrow> node \<Rightarrow> node option" where
  "GM_failureDetectionLoop wakeup now w =
     (case wakeup of
        StopSignal \<Rightarrow>
          if gm_stopCh (gossip w) = Some True
          then Some (w\<lparr>gossip := (gossip w)\<lparr>gm_failureLoops := gm_failureLoops (gossip w) - 1\<rparr>\<rparr>)
          else None
      | Tick \<Rightarrow> Some (GM_checkFailures now w))"

section \<open>Heartbeats and updates\<close>

definition GM_processUpdate :: "MemberUpdate \<Rightarrow> NodeID \<Rightarrow> time \<Rightarrow> node \<Rightarrow> node" where
  "GM_processUpdate update reporter now w =
     (let memberKey = NodeID_String (up_NodeID update);
          ml = membership w;
          enableSuspicion = gm_enableSuspicion (gossip w)
      in if memberKey = NodeID_String (ml_LocalNode ml) then
           if up_Status update = Suspected \<and> enableSuspicion then
             ProcessSuspicion reporter (up_NodeID update) (up_Incarnation update) now w
           else if up_Status update = Alive then
             ClearSuspect (up_NodeID update) (up_Incarnation update) w
           else w
         else case lookup ml memberKey of
           None \<Rightarrow>
             let newMember = zero_Member\<lparr>mb_ID := up_NodeID update,
                   mb_Incarnation := up_Incarnation update, mb_Status := up_Status update,
                   mb_LastHeartbeat := now\<rparr>;
                 newMember' = (if up_Status update = Suspected
                   then newMember\<lparr>mb_SuspicionStart := now\<rparr> else newMember)
             in w\<lparr>membership := AddRecentUpdate now newMember' (store memberKey newMember' ml)\<rparr>
         | Some member \<Rightarrow>
             let (member', updated) =
               (if sint (up_Incarnation update) > sint (mb_Incarnation member) then
                  let m1 = member\<lparr>mb_Incarnation := up_Incarnation update,
                        mb_Status := up_Status update\<rparr>;
                      m2 = (if up_Status update = Alive
                        then m1\<lparr>mb_LastHeartbeat := now, mb_SuspicionStart := 0\<rparr>
                        else if up_Status update = Suspected \<and> enableSuspicion
                        then m1\<lparr>mb_SuspicionStart := now\<rparr> else m1)
                  in (m2, True)
                else if up_Incarnation update = mb_Incarnation member then
                  if up_Status update = Alive \<and> mb_Status member = Suspected then
                    (member\<lparr>mb_Status := Alive, mb_LastHeartbeat := now,
                      mb_SuspicionStart := 0\<rparr>, True)
                  else if up_Status update = Suspected \<and> mb_Status member = Alive then
                    (member\<lparr>mb_Status := Suspected, mb_SuspicionStart := now\<rparr>, True)
                  else (member, False)
                else (member, False));
                 ml1 = store memberKey member' ml;
                 w1 = w\<lparr>membership := (if updated then AddRecentUpdate now member' ml1 else ml1)\<rparr>;
                 w2 = (if up_Status update = Suspected \<and> enableSuspicion then
                   ProcessSuspicion reporter (up_NodeID update) (up_Incarnation update) now w1
                   else w1)
             in if up_Status update = Alive
                then ClearSuspect (up_NodeID update) (up_Incarnation update) w2 else w2)"

definition GM_processUpdates :: "MemberUpdate list \<Rightarrow> NodeID \<Rightarrow> time \<Rightarrow> node \<Rightarrow> node" where
  "GM_processUpdates updates reporter now w =
     fold (\<lambda>update. GM_processUpdate update reporter now) updates w"

text \<open>The update of the sender's entry in \<^verbatim>\<open>handleHeartbeat\<close>, with its \<^verbatim>\<open>updated\<close> flag.\<close>

definition GM_note_sender :: "Message \<Rightarrow> time \<Rightarrow> MembershipList \<Rightarrow> MembershipList" where
  "GM_note_sender msg now ml =
     (let senderKey = NodeID_String (msg_Sender msg) in
      case lookup ml senderKey of
        None \<Rightarrow>
          let newMember = zero_Member\<lparr>mb_ID := msg_Sender msg,
                mb_Incarnation := msg_Incarnation msg, mb_Status := Alive,
                mb_LastHeartbeat := now\<rparr>
          in AddRecentUpdate now newMember (store senderKey newMember ml)
      | Some sender \<Rightarrow>
          let (sender', updated) =
            (if sint (msg_Incarnation msg) > sint (mb_Incarnation sender) then
               (sender\<lparr>mb_Incarnation := msg_Incarnation msg, mb_Status := Alive,
                  mb_LastHeartbeat := now, mb_SuspicionStart := 0\<rparr>, True)
             else if msg_Incarnation msg = mb_Incarnation sender then
               let sender1 = sender\<lparr>mb_LastHeartbeat := now\<rparr>
               in if mb_Status sender1 = Suspected
                  then (sender1\<lparr>mb_Status := Alive, mb_SuspicionStart := 0\<rparr>, True)
                  else (sender1, False)
             else (sender, False));
              ml1 = store senderKey sender' ml
          in if updated then AddRecentUpdate now sender' ml1 else ml1)"

definition GM_handleHeartbeat :: "Message \<Rightarrow> time \<Rightarrow> node \<Rightarrow> node" where
  "GM_handleHeartbeat msg now w =
     (if \<not> gm_active (gossip w) then w
      else GM_processUpdates (msg_Members msg) (msg_Sender msg) now
        (w\<lparr>membership := GM_note_sender msg now (membership w)\<rparr>))"

section \<open>The other handlers\<close>

definition GM_handleSuspectMessage :: "Message \<Rightarrow> time \<Rightarrow> node \<Rightarrow> node" where
  "GM_handleSuspectMessage msg now w =
     (if \<not> gm_enableSuspicion (gossip w) \<or> \<not> gm_active (gossip w) then w
      else ProcessSuspicion (msg_Sender msg) (msg_Target msg) (msg_Incarnation msg) now w)"

definition GM_handleAliveMessage :: "Message \<Rightarrow> time \<Rightarrow> node \<Rightarrow> node" where
  "GM_handleAliveMessage msg now w =
     (if \<not> gm_active (gossip w) then w
      else ClearSuspect (msg_Sender msg) (msg_Incarnation msg)
        (w\<lparr>membership := alive_members msg now (membership w)\<rparr>))"

definition GM_handleConfirmMessage :: "Message \<Rightarrow> time \<Rightarrow> node \<Rightarrow> node" where
  "GM_handleConfirmMessage msg now w =
     (if \<not> gm_active (gossip w) then w
      else
        let ml = membership w; memberKey = NodeID_String (msg_Target msg) in
        case lookup ml memberKey of
          None \<Rightarrow> w
        | Some member \<Rightarrow>
            if sint (msg_Incarnation msg) \<ge> sint (mb_Incarnation member) then
              let member' = member\<lparr>mb_Status := Failed, mb_Incarnation := msg_Incarnation msg\<rparr>
              in w\<lparr>membership := AddRecentUpdate now member' (store memberKey member' ml)\<rparr>
            else w)"

definition GM_handleJoin :: "Message \<Rightarrow> time \<Rightarrow> node \<Rightarrow> node" where
  "GM_handleJoin msg now w =
     (if \<not> gm_active (gossip w) then w
      else
        let (ml, members) = join_members msg now (membership w);
            response = (message JoinResponse)\<lparr>msg_Sender := ml_LocalNode ml,
              msg_Incarnation := ml_Incarnation ml, msg_Members := members\<rparr>
        in w\<lparr>membership := ml,
             network := snd (Send now response (NodeID_Address (msg_Sender msg)) (network w))\<rparr>)"

definition GM_handleJoinResponse :: "Message \<Rightarrow> time \<Rightarrow> node \<Rightarrow> node" where
  "GM_handleJoinResponse msg now w =
     (if \<not> gm_active (gossip w) then w
      else
        let (ml, clears) = fold (join_response_step now) (msg_Members msg) (membership w, [])
        in fold (\<lambda>u. ClearSuspect (up_NodeID u) (up_Incarnation u)) clears
             (w\<lparr>membership := ml\<rparr>))"

definition GM_handleLeave :: "Message \<Rightarrow> time \<Rightarrow> node \<Rightarrow> node" where
  "GM_handleLeave msg now w = w\<lparr>membership := leave_members msg now (membership w)\<rparr>"

definition GM_JoinGroup :: "string \<Rightarrow> time \<Rightarrow> node \<Rightarrow> string option \<times> node" where
  "GM_JoinGroup introducerAddr now w =
     (if introducerAddr = [] then (None, w)
      else
        let w1 = w\<lparr>gossip := (gossip w)\<lparr>gm_active := True\<rparr>\<rparr>;
            ml = RefreshLocalNode now (membership w1);
            joinMsg = (message Join)\<lparr>msg_Sender := ml_LocalNode ml,
              msg_Incarnation := ml_Incarnation ml\<rparr>;
            (err, n) = Send now joinMsg introducerAddr (network w1)
        in (err, w1\<lparr>membership := ml, network := n\<rparr>))"

definition GM_LeaveGroup :: "time \<Rightarrow> node \<Rightarrow> node" where
  "GM_LeaveGroup now w =
     (let addrs = other_addresses (membership w);
          msg = (message Leave)\<lparr>msg_Sender := ml_LocalNode (membership w),
            msg_Incarnation := ml_Incarnation (membership w)\<rparr>
      in w\<lparr>network := send_all now msg addrs (network w),
           gossip := (gossip w)\<lparr>gm_active := False\<rparr>\<rparr>)"

end
