(* ===== verification/Controller.thy ===== *)
theory Controller
  imports Gossip
begin

text \<open>
  The controller of \<^verbatim>\<open>src/main.go\<close>: its construction with the three callbacks of the
  suspicion manager, the operations that pass to the detector of the current mode, the
  dispatch of received messages, and the handlers of the local HTTP control server. The
  controller's name is \<open>C_\<close>, the control server's \<open>CS_\<close>.
\<close>

section \<open>The callbacks\<close>

text \<open>
  A callback changes the target's entry, then sends a message to every member other than
  the local node and the target.
\<close>

definition callback_recipients :: "NodeID \<Rightarrow> MembershipList \<Rightarrow> NodeID list" where
  "callback_recipients target ml = map (\<lambda>(k, mm). mb_ID mm)
     (filter (\<lambda>(k, mm). \<not> (NodeID_String (mb_ID mm) = NodeID_String (ml_LocalNode ml)
        \<or> NodeID_String (mb_ID mm) = NodeID_String target)) (ml_Members ml))"

definition C_OnSuspect :: "NodeID \<Rightarrow> int32 \<Rightarrow> NodeID list \<Rightarrow> time \<Rightarrow> node \<Rightarrow> node" where
  "C_OnSuspect target inc reporters now w =
     (let key = NodeID_String target;
          ml = (case lookup (membership w) key of
              None \<Rightarrow> membership w
            | Some m \<Rightarrow> store key (m\<lparr>mb_Status := Suspected, mb_Incarnation := inc,
                mb_SuspicionStart := now\<rparr>) (membership w));
          recipients = callback_recipients target ml;
          msg = (message Suspect)\<lparr>msg_Sender := ml_LocalNode ml, msg_Target := target,
            msg_Incarnation := inc\<rparr>
      in w\<lparr>membership := ml,
           network := send_all now msg (map NodeID_Address recipients) (network w)\<rparr>)"

definition C_OnConfirm :: "NodeID \<Rightarrow> int32 \<Rightarrow> time \<Rightarrow> node \<Rightarrow> node" where
  "C_OnConfirm target inc now w =
     (let key = NodeID_String target;
          ml = (case lookup (membership w) key of
              None \<Rightarrow> membership w
            | Some m \<Rightarrow> store key (m\<lparr>mb_Status := Failed, mb_Incarnation := inc\<rparr>)
                (membership w));
          recipients = callback_recipients target ml;
          msg = (message Confirm)\<lparr>msg_Sender := ml_LocalNode ml, msg_Target := target,
            msg_Incarnation := inc\<rparr>
      in w\<lparr>membership := ml,
           network := send_all now msg (map NodeID_Address recipients) (network w)\<rparr>)"

definition C_OnClear :: "NodeID \<Rightarrow> int32 \<Rightarrow> time \<Rightarrow> node \<Rightarrow> node" where
  "C_OnClear target inc now w =
     (let key = NodeID_String target;
          ml = (case lookup (membership w) key of
              None \<Rightarrow> membership w
            | Some m \<Rightarrow>
                let m1 = m\<lparr>mb_Status := Alive\<rparr>;
                    m2 = (if sint inc \<ge> sint (mb_Incarnation m1)
                      then m1\<lparr>mb_Incarnation := inc\<rparr> else m1)
                in store key (m2\<lparr>mb_LastHeartbeat := now, mb_SuspicionStart := 0\<rparr>)
                     (membership w));
          recipients = callback_recipients target ml;
          msg = (message AliveMsg)\<lparr>msg_Sender := ml_LocalNode ml, msg_Incarnation := inc\<rparr>
      in w\<lparr>membership := ml,
           network := send_all now msg (map NodeID_Address recipients) (network w)\<rparr>)"

fun run_task :: "Task \<Rightarrow> time \<Rightarrow> node \<Rightarrow> node" where
  "run_task (OnSuspect target inc reporters) now w = C_OnSuspect target inc reporters now w"
| "run_task (OnConfirm target inc) now w = C_OnConfirm target inc now w"
| "run_task (OnClear target inc) now w = C_OnClear target inc now w"

section \<open>Construction and life cycle\<close>

definition controller_options :: Options where
  "controller_options = \<lparr>op_SuspicionTimeout = 2 * Second, op_CheckInterval = 200 * Millisecond,
     op_RequireReports = 1, op_ConfirmedRetention = 3 * Second,
     op_OnSuspect = True, op_OnConfirm = True, op_OnClear = True\<rparr>"

definition NewController :: "Config \<Rightarrow> (string \<Rightarrow> string option) \<Rightarrow> time \<Rightarrow> node" where
  "NewController config conn now =
     \<lparr>membership = NewMembershipList (cfg_NodeID config) now,
      network = NewNetworkLayer conn,
      suspicion = NewSuspicionManager controller_options,
      spawned = [],
      pingack = NewPingAckManager,
      gossip = NewGossipManager,
      mode = cfg_Mode config\<rparr>"

text \<open>\<open>listen_error\<close> is the error with which the socket could not be opened, if any.\<close>

definition C_Start :: "string option \<Rightarrow> node \<Rightarrow> string option \<times> node" where
  "C_Start listen_error w =
     (case listen_error of
        Some err \<Rightarrow> (Some err, w)
      | None \<Rightarrow>
          let w1 = w\<lparr>suspicion := Suspicion_Start (suspicion w)\<rparr> in
          (None, case mode w1 of GossipMode \<Rightarrow> GM_Start w1 | PingAckMode \<Rightarrow> PA_Start w1))"

definition C_JoinGroup :: "string \<Rightarrow> time \<Rightarrow> node \<Rightarrow> string option \<times> node" where
  "C_JoinGroup introducerAddr now w =
     (case mode w of
        GossipMode \<Rightarrow> GM_JoinGroup introducerAddr now w
      | PingAckMode \<Rightarrow> PA_JoinGroup introducerAddr now w)"

definition C_Stop :: "node \<Rightarrow> Outcome \<times> node" where
  "C_Stop w =
     (case (case mode w of GossipMode \<Rightarrow> GM_Stop w | PingAckMode \<Rightarrow> PA_Stop w) of
        (Panicked, w1) \<Rightarrow> (Panicked, w1)
      | (Returned, w1) \<Rightarrow>
          let w2 = w1\<lparr>suspicion := Suspicion_Stop (suspicion w1)\<rparr> in
          (case Network_Stop (network w2) of
             None \<Rightarrow> (Panicked, w2)
           | Some n \<Rightarrow> (Returned, w2\<lparr>network := n\<rparr>)))"

definition C_SetDropRate :: "rat \<Rightarrow> node \<Rightarrow> node" where
  "C_SetDropRate rate w = w\<lparr>network := SetDropRate rate (network w)\<rparr>"

definition C_SwitchMode :: "DetectionMode \<Rightarrow> node \<Rightarrow> Outcome \<times> node" where
  "C_SwitchMode m w =
     (let w1 = w\<lparr>mode := m\<rparr> in
      case m of
        GossipMode \<Rightarrow>
          (case PA_Stop w1 of
             (Panicked, w2) \<Rightarrow> (Panicked, w2)
           | (Returned, w2) \<Rightarrow> (Returned, GM_Start w2))
      | PingAckMode \<Rightarrow>
          (case GM_Stop w1 of
             (Panicked, w2) \<Rightarrow> (Panicked, w2)
           | (Returned, w2) \<Rightarrow> (Returned, PA_Start w2)))"

definition C_SetSuspicion :: "bool \<Rightarrow> node \<Rightarrow> node" where
  "C_SetSuspicion enable w =
     (case mode w of
        PingAckMode \<Rightarrow> PA_SetSuspicion enable w
      | GossipMode \<Rightarrow> GM_SetSuspicion enable w)"

definition C_GetProtocol :: "node \<Rightarrow> string \<times> string" where
  "C_GetProtocol w =
     (case mode w of
        PingAckMode \<Rightarrow> (''ping'', if PA_SuspicionEnabled w then ''suspect'' else ''nosuspect'')
      | GossipMode \<Rightarrow> (''gossip'', if GM_SuspicionEnabled w then ''suspect'' else ''nosuspect''))"

definition C_LeaveGroup :: "time \<Rightarrow> node \<Rightarrow> node" where
  "C_LeaveGroup now w =
     (case mode w of PingAckMode \<Rightarrow> PA_LeaveGroup now w | GossipMode \<Rightarrow> GM_LeaveGroup now w)"

section \<open>Dispatch\<close>

fun run_handler :: "Handler \<Rightarrow> Message \<Rightarrow> time \<Rightarrow> node \<Rightarrow> node option" where
  "run_handler P_handlePing msg now w = Some (PA_handlePing msg now w)"
| "run_handler P_handleAck msg now w = Some (PA_handleAck msg now w)"
| "run_handler P_handleIndirectPing msg now w = PA_handleIndirectPing msg now w"
| "run_handler P_handleIndirectAck msg now w = Some (PA_handleIndirectAck msg now w)"
| "run_handler P_handleJoin msg now w = Some (PA_handleJoin msg now w)"
| "run_handler P_handleJoinResponse msg now w = Some (PA_handleJoinResponse msg now w)"
| "run_handler P_handleAliveMessage msg now w = Some (PA_handleAliveMessage msg now w)"
| "run_handler P_handleSuspectMessage msg now w = Some (PA_handleSuspectMessage msg now w)"
| "run_handler P_handleLeave msg now w = Some (PA_handleLeave msg now w)"
| "run_handler G_handleHeartbeat msg now w = Some (GM_handleHeartbeat msg now w)"
| "run_handler G_handleSuspectMessage msg now w = Some (GM_handleSuspectMessage msg now w)"
| "run_handler G_handleAliveMessage msg now w = Some (GM_handleAliveMessage msg now w)"
| "run_handler G_handleConfirmMessage msg now w = Some (GM_handleConfirmMessage msg now w)"
| "run_handler G_handleJoin msg now w = Some (GM_handleJoin msg now w)"
| "run_handler G_handleJoinResponse msg now w = Some (GM_handleJoinResponse msg now w)"
| "run_handler G_handleLeave msg now w = Some (GM_handleLeave msg now w)"

text \<open>
  One pass of the loop of \<^verbatim>\<open>processQueue\<close>: \<^term>\<open>None\<close> when no message waits or the
  handler panics; a message without a handler is dropped.
\<close>

definition process_message :: "time \<Rightarrow> node \<Rightarrow> node option" where
  "process_message now w =
     (case processQueue_step (network w) of
        None \<Rightarrow> None
      | Some ((msg, handler), n) \<Rightarrow>
          let w1 = w\<lparr>network := n\<rparr> in
          (case handler of None \<Rightarrow> Some w1 | Some h \<Rightarrow> run_handler h msg now w1))"

section \<open>The status log\<close>

text \<open>
  One tick of \<^verbatim>\<open>StartCLI\<close>: what it prints of each member (identity, status, incarnation,
  time since the last heartbeat and a remark), the numbers of the summary line, and the
  state after the recent updates were read, which prunes them.
\<close>

datatype StatusInfo = NoInfo | Stale duration | SuspectedFor duration | FailedInfo

record StatusLine =
  sl_ID :: NodeID
  sl_Status :: MemberStatus
  sl_Incarnation :: int32
  sl_LastHB :: duration
  sl_Info :: StatusInfo

record StatusReport =
  sr_total :: nat
  sr_lines :: "StatusLine list"
  sr_alive :: nat
  sr_suspected :: nat
  sr_failed :: nat

text \<open>\<^verbatim>\<open>d.Truncate(m)\<close>: \<open>d\<close> rounded towards zero to a multiple of the positive \<open>m\<close>.\<close>

definition Truncate :: "duration \<Rightarrow> duration \<Rightarrow> duration" where
  "Truncate d m = word_of_int (sint d - (if sint d < 0 then - ((- sint d) mod sint m) else sint d mod sint m))"

definition status_info :: "time \<Rightarrow> Member \<Rightarrow> StatusInfo" where
  "status_info now member =
     (let timeSinceHeartbeat = time_Sub now (mb_LastHeartbeat member) in
      case mb_Status member of
        Alive \<Rightarrow> if sint timeSinceHeartbeat > sint (5 * Second) then Stale timeSinceHeartbeat else NoInfo
      | Suspected \<Rightarrow> SuspectedFor (time_Sub now (mb_SuspicionStart member))
      | Failed \<Rightarrow> FailedInfo
      | UnknownStatus _ \<Rightarrow> NoInfo)"

definition status_line :: "time \<Rightarrow> Member \<Rightarrow> StatusLine" where
  "status_line now member =
     \<lparr>sl_ID = mb_ID member, sl_Status = mb_Status member, sl_Incarnation = mb_Incarnation member,
      sl_LastHB = Truncate (time_Sub now (mb_LastHeartbeat member)) Millisecond,
      sl_Info = status_info now member\<rparr>"

definition status_counts :: "Member list \<Rightarrow> nat \<times> nat \<times> nat" where
  "status_counts members = fold (\<lambda>member (a, s, f). case mb_Status member of
       Alive \<Rightarrow> (a + 1, s, f) | Suspected \<Rightarrow> (a, s + 1, f) | Failed \<Rightarrow> (a, s, f + 1)
     | UnknownStatus _ \<Rightarrow> (a, s, f)) members (0, 0, 0)"

definition status_report :: "time \<Rightarrow> Member list \<Rightarrow> StatusReport" where
  "status_report now members =
     (let (aliveCount, suspectedCount, failedCount) = status_counts members in
      \<lparr>sr_total = length members, sr_lines = map (status_line now) members,
       sr_alive = aliveCount, sr_suspected = suspectedCount, sr_failed = failedCount\<rparr>)"

definition CLI_tick :: "time \<Rightarrow> node \<Rightarrow> (StatusReport \<times> MemberUpdate list \<times> node) option" where
  "CLI_tick now w =
     (let rep = status_report now (GetAllMembers (membership w)) in
      case GetRecentUpdates now 10 (membership w) of
        None \<Rightarrow> None
      | Some (recentUpdates, ml) \<Rightarrow> Some (rep, recentUpdates, w\<lparr>membership := ml\<rparr>))"

section \<open>The control server\<close>

text \<open>
  A response is its status code and body. \<^verbatim>\<open>strings.ToLower\<close> is modelled on ASCII letters.
\<close>

type_synonym Response = "nat \<times> string"

definition newline :: string where
  "newline = [char_of (10 :: nat)]"

definition member_line :: "Member \<Rightarrow> string" where
  "member_line m = ''  '' @ NodeID_String (mb_ID m) @ '' | ''
     @ MemberStatus_String (mb_Status m) @ '' | Inc:'' @ dec_int (sint (mb_Incarnation m)) @ newline"

definition CS_handleListMem :: "node \<Rightarrow> Response" where
  "CS_handleListMem w = (200, concat (map member_line
     (filter (\<lambda>m. mb_Status m = Alive) (GetAllMembers (membership w)))))"

text \<open>The local entry is dereferenced without a test: \<^term>\<open>None\<close> is the panic.\<close>

definition CS_handleListSelf :: "node \<Rightarrow> Response option" where
  "CS_handleListSelf w =
     (case lookup (membership w) (NodeID_String (ml_LocalNode (membership w))) of
        None \<Rightarrow> None
      | Some m \<Rightarrow> Some (200, member_line m))"

definition CS_handleDisplaySuspects :: "node \<Rightarrow> Response" where
  "CS_handleDisplaySuspects w = (200, concat (map member_line (GetSuspectedMembers (membership w))))"

definition CS_handleJoin :: "string \<Rightarrow> time \<Rightarrow> node \<Rightarrow> Response \<times> node" where
  "CS_handleJoin intro now w =
     (if intro = [] then ((400, ''introducer is required'' @ newline), w)
      else case C_JoinGroup intro now w of
        (Some err, w') \<Rightarrow> ((500, err @ newline), w')
      | (None, w') \<Rightarrow> ((200, ''ok'' @ newline), w'))"

definition CS_handleLeave :: "time \<Rightarrow> node \<Rightarrow> Response \<times> node" where
  "CS_handleLeave now w = ((200, ''ok'' @ newline), C_LeaveGroup now w)"

definition quoted :: "string \<Rightarrow> string" where
  "quoted s = CHR 0x27 # s @ [CHR 0x27]"

definition CS_handleSwitch :: "string \<Rightarrow> string \<Rightarrow> node \<Rightarrow> Response option \<times> node" where
  "CS_handleSwitch mechanism suspicion_arg w =
     (let mech = ToLower mechanism; susp = ToLower suspicion_arg in
      if mech \<noteq> ''gossip'' \<and> mech \<noteq> ''ping'' then
        (Some (400, ''mechanism must be '' @ quoted ''gossip'' @ '' or '' @ quoted ''ping'' @ newline), w)
      else if susp \<noteq> ''suspect'' \<and> susp \<noteq> ''nosuspect'' then
        (Some (400, ''suspicion must be '' @ quoted ''suspect'' @ '' or '' @ quoted ''nosuspect'' @ newline), w)
      else case C_SwitchMode (if mech = ''ping'' then PingAckMode else GossipMode) w of
        (Panicked, w') \<Rightarrow> (None, w')
      | (Returned, w') \<Rightarrow>
          (Some (200, ''ok'' @ newline), C_SetSuspicion (susp = ''suspect'') w'))"

definition CS_handleDisplayProtocol :: "node \<Rightarrow> Response" where
  "CS_handleDisplayProtocol w =
     (let (mech, susp) = C_GetProtocol w in (200, ''('' @ mech @ '', '' @ susp @ '')''))"

end
