(* ===== verification/PingAck_Keeps.thy ===== *)
theory PingAck_Keeps
  imports PingAck
begin

text \<open>
  What the methods of the ping/ack detector keep: every one keeps the shared state
  well-formed (\<open>keeps\<close>); the ones that only learn about members moreover lose none and
  never go back to an older incarnation (\<open>grows\<close>).
\<close>

section \<open>Parts of the handlers on the membership list\<close>

lemma PA_note_sender_keeps:
  "ml_LocalNode (PA_note_sender msg now ml) = ml_LocalNode ml"
  "ml_Incarnation (PA_note_sender msg now ml) = ml_Incarnation ml"
  "incs_grow ml (PA_note_sender msg now ml)"
  "wf_ml ml \<Longrightarrow> wf_ml (PA_note_sender msg now ml)"
  by (auto simp: PA_note_sender_def Let_def member_key_def incs_grow_store_iff
      intro!: wf_ml_store dest: wf_ml_lookup split: option.splits)

lemma alive_members_keeps:
  "ml_LocalNode (alive_members msg now ml) = ml_LocalNode ml"
  "incs_grow ml (alive_members msg now ml)"
  "wf_ml ml \<Longrightarrow> wf_ml (alive_members msg now ml)"
  by (auto simp: alive_members_def Let_def incs_grow_store_iff intro!: wf_ml_store dest: wf_ml_lookup split: option.splits)

lemma PA_merge_keeps:
  assumes "PA_merge en u now m = (m', b)"
  shows "mb_ID m' = mb_ID m" "sint (mb_Incarnation m) \<le> sint (mb_Incarnation m')"
  using assms by (auto simp: PA_merge_def Let_def split: if_splits)

lemma PA_new_member_simps [simp]:
  "mb_ID (PA_new_member u now) = up_NodeID u"
  "mb_Incarnation (PA_new_member u now) = up_Incarnation u"
  "mb_Status (PA_new_member u now) = up_Status u"
  by (simp_all add: PA_new_member_def Let_def)

lemma join_response_step_keeps:
  assumes "join_response_step now u (ml, cs) = (ml', cs')"
  shows "ml_LocalNode ml' = ml_LocalNode ml" "incs_grow ml ml'" "wf_ml ml \<Longrightarrow> wf_ml ml'"
proof -
  have "wf_ml ml \<Longrightarrow> lookup ml (NodeID_String (up_NodeID u)) = Some m
      \<Longrightarrow> mb_ID m = up_NodeID u" for m
    by (rule wf_ml_lookup_id)
  then show "ml_LocalNode ml' = ml_LocalNode ml" "incs_grow ml ml'" "wf_ml ml \<Longrightarrow> wf_ml ml'"
    using assms
    by (auto simp: join_response_step_def Let_def member_key_def incs_grow_store_iff
        intro!: wf_ml_store split: option.splits if_splits)
qed

definition ml_rel :: "MembershipList \<Rightarrow> MembershipList \<Rightarrow> bool" where
  "ml_rel ml ml' \<longleftrightarrow> ml_LocalNode ml' = ml_LocalNode ml \<and> incs_grow ml ml' \<and> (wf_ml ml \<longrightarrow> wf_ml ml')"

lemma ml_rel_refl [simp]: "ml_rel ml ml"
  by (simp add: ml_rel_def)

lemma ml_rel_trans: "ml_rel a b \<Longrightarrow> ml_rel b c \<Longrightarrow> ml_rel a c"
  unfolding ml_rel_def by (metis incs_grow_trans)

lemma grows_ml_rel: "ml_rel (membership w) ml \<Longrightarrow> grows w (w\<lparr>membership := ml\<rparr>)"
  unfolding ml_rel_def by (intro grows_membership) simp_all

lemma ml_rel_recent [simp]: "ml_rel ml (AddRecentUpdate now m ml') = ml_rel ml ml'"
  by (simp add: ml_rel_def)

lemma grows_then_clear: "grows w w' \<Longrightarrow> grows w (ClearSuspect t i w')"
  by (rule grows_trans [OF _ ClearSuspect_grows])

lemma grows_then_process: "grows w w' \<Longrightarrow> grows w (ProcessSuspicion r t i now w')"
  by (rule grows_trans [OF _ ProcessSuspicion_grows])

lemma grows_ml_rel_pa:
  fixes w :: node
  shows "ml_rel (membership w) ml \<Longrightarrow> grows w (w\<lparr>pingack := p, membership := ml\<rparr>)"
  using grows_ml_rel [of "w\<lparr>pingack := p\<rparr>" ml] by simp

interpretation jr: growing "\<lambda>s t. ml_rel (fst s) (fst t)" "join_response_step now" for now
proof
  show "ml_rel (fst s) (fst s)" for s :: "MembershipList \<times> MemberUpdate list"
    by simp
  show "ml_rel (fst s) (fst t) \<Longrightarrow> ml_rel (fst t) (fst u) \<Longrightarrow> ml_rel (fst s) (fst u)"
    for s t u :: "MembershipList \<times> MemberUpdate list"
    by (rule ml_rel_trans)
  show "ml_rel (fst s) (fst (join_response_step now u s))"
    for u and s :: "MembershipList \<times> MemberUpdate list"
    using join_response_step_keeps [of now u "fst s" "snd s"]
    by (cases "join_response_step now u s") (auto simp: ml_rel_def)
qed

lemma wf_ml_recent_fold: "wf_ml (fold (AddRecentUpdateSafe now) ms ml) = wf_ml ml"
  by (induction ms arbitrary: ml) simp_all

lemma recent_fold_simps [simp]:
  "ml_Members (fold (AddRecentUpdateSafe now) ms ml) = ml_Members ml"
  "ml_LocalNode (fold (AddRecentUpdateSafe now) ms ml) = ml_LocalNode ml"
  "ml_Incarnation (fold (AddRecentUpdateSafe now) ms ml) = ml_Incarnation ml"
  by (induction ms arbitrary: ml) simp_all

lemma remove_old_keeps:
  "ml_LocalNode (fst (remove_old ks ml)) = ml_LocalNode ml"
  "ml_Incarnation (fst (remove_old ks ml)) = ml_Incarnation ml"
  "wf_ml ml \<Longrightarrow> wf_ml (fst (remove_old ks ml))"
  by (induction ks ml rule: remove_old.induct)
    (auto simp: wf_ml_discard split: option.splits prod.splits)

lemma remove_old_lookup:
  "lookup (fst (remove_old ks ml)) k = (if k \<in> set ks then None else lookup ml k)"
proof (induction ks ml rule: remove_old.induct)
  case (1 ml)
  then show ?case by simp
next
  case (2 key keys ml)
  then show ?case
    by (cases "lookup ml key") (auto split: prod.splits)
qed

lemma join_members_keeps:
  "ml_LocalNode (fst (join_members msg now ml)) = ml_LocalNode ml"
  "ml_Incarnation (fst (join_members msg now ml)) = ml_Incarnation ml"
  "wf_ml ml \<Longrightarrow> wf_ml (fst (join_members msg now ml))"
  using remove_old_keeps [where ks = "old_entries (msg_Sender msg) ml" and ml = ml]
  by (auto simp: join_members_def Let_def wf_ml_recent_fold member_key_def intro!: wf_ml_store
      split: prod.splits)

lemma leave_members_keeps:
  "ml_LocalNode (leave_members msg now ml) = ml_LocalNode ml"
  "wf_ml ml \<Longrightarrow> wf_ml (leave_members msg now ml)"
  by (auto simp: leave_members_def Let_def wf_ml_discard split: option.splits)

section \<open>Methods that only learn\<close>

text \<open>
  The two detectors apply an update in the same way; \<open>apply_update\<close> is that way, with the
  detector's suspicion flag as a parameter.
\<close>

definition apply_update :: "bool \<Rightarrow> MemberUpdate \<Rightarrow> NodeID \<Rightarrow> time \<Rightarrow> node \<Rightarrow> node" where
  "apply_update en update reporter now w =
     (let memberKey = NodeID_String (up_NodeID update); ml = membership w in
      if up_NodeID update = ml_LocalNode ml then
        if up_Status update = Suspected \<and> en
        then ProcessSuspicion reporter (up_NodeID update) (up_Incarnation update) now w
        else if up_Status update = Alive
        then ClearSuspect (up_NodeID update) (up_Incarnation update) w else w
      else case lookup ml memberKey of
        None \<Rightarrow> w\<lparr>membership := AddRecentUpdate now (PA_new_member update now)
            (store memberKey (PA_new_member update now) ml)\<rparr>
      | Some member \<Rightarrow> notify (\<lambda>r t i. ProcessSuspicion r t i now) ClearSuspect en update reporter
          (w\<lparr>membership := (if snd (PA_merge en update now member)
            then AddRecentUpdate now (fst (PA_merge en update now member))
              (store memberKey (fst (PA_merge en update now member)) ml)
            else store memberKey (fst (PA_merge en update now member)) ml)\<rparr>))"

lemma PA_processUpdate_eq:
  "PA_processUpdate update reporter now w
    = apply_update (pa_enableSuspicion (pingack w)) update reporter now w"
  by (auto simp: PA_processUpdate_def apply_update_def Let_def split_def split: option.split)

lemma apply_update_grows: "grows w (apply_update en update reporter now w)"
proof -
  let ?k = "NodeID_String (up_NodeID update)"
  have known: "ml_rel (membership w) (store ?k (fst (PA_merge en update now m)) (membership w))"
    if "lookup (membership w) ?k = Some m" for m
    using that PA_merge_keeps [of en update now m, OF surjective_pairing]
    by (auto simp: ml_rel_def member_key_def incs_grow_store_iff intro!: wf_ml_store
        dest: wf_ml_lookup)
  have new: "ml_rel (membership w) (store ?k (PA_new_member update now) (membership w))"
    if "lookup (membership w) ?k = None"
    using that by (auto simp: ml_rel_def member_key_def incs_grow_store_iff intro!: wf_ml_store)
  show ?thesis
  proof (cases "lookup (membership w) ?k")
    case None
    then show ?thesis
      using new by (simp add: apply_update_def Let_def ProcessSuspicion_grows ClearSuspect_grows
          grows_ml_rel)
  next
    case (Some m)
    then show ?thesis
      using known [OF Some] by (simp add: apply_update_def Let_def ProcessSuspicion_grows
          ClearSuspect_grows sv.merge_notify_le grows_ml_rel)
  qed
qed

lemma PA_processUpdate_grows: "grows w (PA_processUpdate update reporter now w)"
  unfolding PA_processUpdate_eq by (rule apply_update_grows)

interpretation pu: growing grows "\<lambda>update. PA_processUpdate update reporter now"
  for reporter now
  by unfold_locales (auto intro: grows_trans PA_processUpdate_grows)

lemma PA_processUpdates_grows: "grows w (PA_processUpdates us reporter now w)"
  unfolding PA_processUpdates_def by (rule pu.loop_grows)

lemma grows_then_updates: "grows w w' \<Longrightarrow> grows w (PA_processUpdates us reporter now w')"
  using PA_processUpdates_grows by (rule grows_trans [rotated])

lemma PA_note_sender_grows: "grows w (w\<lparr>membership := PA_note_sender msg now (membership w)\<rparr>)"
  by (intro grows_ml_rel) (simp add: ml_rel_def PA_note_sender_keeps)

lemma PA_handlePing_grows: "grows w (PA_handlePing msg now w)"
proof -
  have "grows w (w\<lparr>network := snd (Send now m a (network w)),
      membership := PA_note_sender msg now (membership w)\<rparr>)" for m a
    using grows_trans [OF grows_Send [of w now m a] PA_note_sender_grows [of _ msg now]] by simp
  then show ?thesis
    unfolding PA_handlePing_def Let_def by (auto intro: grows_then_updates)
qed

lemma PA_handleAck_grows: "grows w (PA_handleAck msg now w)"
  unfolding PA_handleAck_def Let_def
  by (auto intro: grows_trans [OF PA_note_sender_grows ClearSuspect_grows])

lemma PA_handleAliveMessage_grows: "grows w (PA_handleAliveMessage msg now w)"
proof -
  have "grows w (w\<lparr>membership := alive_members msg now (membership w)\<rparr>)"
    by (intro grows_ml_rel) (simp add: ml_rel_def alive_members_keeps)
  then show ?thesis
    unfolding PA_handleAliveMessage_def by (auto intro: grows_trans ClearSuspect_grows)
qed

lemma PA_handleSuspectMessage_grows: "grows w (PA_handleSuspectMessage msg now w)"
  by (simp add: PA_handleSuspectMessage_def ProcessSuspicion_grows)

lemma grows_with_clears:
  "grows w w' \<Longrightarrow> grows w (fold (\<lambda>u. ClearSuspect (up_NodeID u) (up_Incarnation u)) cs w')"
  by (rule grows_trans [OF _ sv.clearing.loop_grows])

lemma PA_handleJoinResponse_grows: "grows w (PA_handleJoinResponse msg now w)"
proof -
  have "grows w (w\<lparr>membership := fst (fold (join_response_step now) us (membership w, []))\<rparr>)" for us
    using jr.loop_grows [of "(membership w, [])" now us] by (intro grows_ml_rel) simp
  then show ?thesis
    by (auto simp: PA_handleJoinResponse_def split: prod.splits intro!: grows_with_clears)
      (metis fst_conv)
qed

section \<open>Indirect probing\<close>

lemma grows_recent_updates:
  "GetRecentUpdates now l (membership w) = Some (us, ml)
    \<Longrightarrow> grows w (w\<lparr>membership := ml\<rparr>)"
  by (intro grows_ml_rel) (auto simp: ml_rel_def GetRecentUpdates_def Let_def incs_grow_def
      split: if_splits)

lemma grows_heartbeat:
  assumes "lookup (membership w) k = Some m"
  shows "grows w (w\<lparr>membership := store k (m\<lparr>mb_LastHeartbeat := now\<rparr>) (membership w)\<rparr>)"
  using assms by (intro grows_ml_rel) (auto simp: ml_rel_def incs_grow_store_iff
      intro!: wf_ml_store dest: wf_ml_lookup)

lemma PA_handleIndirectPing_grows:
  assumes "PA_handleIndirectPing msg now w = Some w'"
  shows "grows w w'"
proof -
  let ?k = "NodeID_String (msg_Sender msg)"
  let ?ml = "case lookup (membership w) ?k of None \<Rightarrow> membership w
    | Some m \<Rightarrow> if sint (mb_Incarnation m) \<le> sint (msg_Incarnation msg)
        then store ?k (m\<lparr>mb_LastHeartbeat := now\<rparr>) (membership w) else membership w"
  have start: "grows w (w\<lparr>membership := ?ml, pingack := p\<rparr>)" for p
    by (auto simp: grows_heartbeat split: option.split)
  have rest: "grows w (w1\<lparr>membership := ml, network := snd (Send now m a (network w1)), pingack := p\<rparr>)"
    if "grows w w1" "GetRecentUpdates now 5 (membership w1) = Some (us, ml)" for w1 us ml m a p
    using grows_trans [OF grows_trans [OF that(1) grows_recent_updates [OF that(2)]]
        grows_Send [of "w1\<lparr>membership := ml\<rparr>" now m a]] by simp
  show ?thesis
    using assms rest [OF grows_then_updates [OF start]]
    by (auto simp: PA_handleIndirectPing_def Let_def split: if_splits option.splits prod.splits)
qed

lemma indirect_ack_members_rel: "ml_rel ml (indirect_ack_members msg now ml)"
  by (auto simp: ml_rel_def indirect_ack_members_def Let_def incs_grow_store_iff member_key_def
      intro!: wf_ml_store dest: wf_ml_lookup split: option.splits)

lemma PA_handleIndirectAck_grows: "grows w (PA_handleIndirectAck msg now w)"
  using grows_then_clear [OF grows_ml_rel_pa [OF indirect_ack_members_rel]]
  by (simp add: PA_handleIndirectAck_def Let_def)

lemma relay_steps_grow:
  "PA_relay_ack r now w = Some w' \<Longrightarrow> grows w w'"
  "PA_relay_timeout r now w = Some w' \<Longrightarrow> grows w w'"
  "PA_relay_cancelled r w = Some w' \<Longrightarrow> grows w w'"
  by (auto simp: PA_relay_ack_def PA_relay_timeout_def PA_relay_cancelled_def Let_def grows_Send
      split: option.splits if_splits)

lemma PA_cleanupOrphanedEntries_grows: "grows w (PA_cleanupOrphanedEntries now w)"
  by (simp add: PA_cleanupOrphanedEntries_def Let_def)

section \<open>The protocol period\<close>

lemma declare_members_rel:
  "ml_rel ml (AddRecentUpdate now m' (store (NodeID_String n) m' ml))"
  if "mb_ID m' = n" "case lookup ml (NodeID_String n) of None \<Rightarrow> True
    | Some m \<Rightarrow> mb_Incarnation m' = mb_Incarnation m"
  using that by (auto simp: ml_rel_def incs_grow_store_iff member_key_def intro!: wf_ml_store
      split: option.splits)

lemma PA_declareSuspicion_grows:
  assumes "pa_enableSuspicion (pingack w)" "wf_ml (membership w)"
  shows "grows w (PA_declareSuspicion n now w)"
proof (cases "lookup (membership w) (NodeID_String n)")
  case None
  then show ?thesis
    using assms by (auto simp: PA_declareSuspicion_def Let_def intro!: grows_then_process
        grows_ml_rel declare_members_rel)
next
  case (Some m)
  then have "mb_ID m = n" using assms(2) by (simp add: wf_ml_lookup_id)
  with Some show ?thesis
    using assms by (auto simp: PA_declareSuspicion_def Let_def ProcessSuspicion_grows
        intro!: grows_then_process grows_ml_rel declare_members_rel)
qed

lemma keeps_ml: "(wf_ml (membership w) \<Longrightarrow> wf_ml ml) \<Longrightarrow> keeps w (w\<lparr>membership := ml\<rparr>)"
  by (rule keeps_membership)

lemma PA_declareSuspicion_keeps: "keeps w (PA_declareSuspicion n now w)"
proof -
  have put: "keeps w (ProcessSuspicion r t i now
      (w\<lparr>membership := AddRecentUpdate now m (store (NodeID_String n) m (membership w))\<rparr>))"
    if "mb_ID m = n \<or> lookup (membership w) (NodeID_String n) = Some m0 \<and> mb_ID m = mb_ID m0"
    for r t i m m0
  proof (rule keeps_trans [OF keeps_ml grows_keeps [OF ProcessSuspicion_grows]])
    show "wf_ml (AddRecentUpdate now m (store (NodeID_String n) m (membership w)))"
      if "wf_ml (membership w)"
      using that \<open>mb_ID m = n \<or> lookup (membership w) (NodeID_String n) = Some m0 \<and> mb_ID m = mb_ID m0\<close>
        wf_ml_lookup_id [of "membership w" n m0]
      by (auto simp: member_key_def intro!: wf_ml_store)
  qed
  show ?thesis
    unfolding PA_declareSuspicion_def Let_def
    by (auto simp: wf_ml_discard grows_keeps ProcessSuspicion_grows intro!: put keeps_ml
        split: option.split)
qed

lemma period_begin_grows: "PA_period_begin rnd now w = Some w' \<Longrightarrow> grows w w'"
proof -
  have "grows w (w\<lparr>membership := ml, network := snd (Send now m a (network w)), pingack := p\<rparr>)"
    if "GetRecentUpdates now 5 (membership w) = Some (us, ml)" for us ml m a p
    using grows_trans [OF grows_recent_updates [OF that] grows_Send [of "w\<lparr>membership := ml\<rparr>" now m a]]
    by simp
  then show "PA_period_begin rnd now w = Some w' \<Longrightarrow> grows w w'"
    by (auto simp: PA_period_begin_def Let_def split: option.splits list.splits prod.splits)
qed

lemma period_ack_grows: "PA_period_ack d w = Some w' \<Longrightarrow> grows w w'"
  by (auto simp: PA_period_ack_def split: option.splits if_splits)

lemma send_each_frame [simp]:
  "nl_conn (fold (\<lambda>m n. snd (Send now msg (f m) n)) ms n) = nl_conn n"
  "nl_messageQueue (fold (\<lambda>m n. snd (Send now msg (f m) n)) ms n) = nl_messageQueue n"
  "nl_handlers (fold (\<lambda>m n. snd (Send now msg (f m) n)) ms n) = nl_handlers n"
  "nl_closed (fold (\<lambda>m n. snd (Send now msg (f m) n)) ms n) = nl_closed n"
  by (induction ms arbitrary: n) simp_all

lemma grows_network:
  "nl_conn n = nl_conn (network w) \<Longrightarrow> nl_messageQueue n = nl_messageQueue (network w)
    \<Longrightarrow> nl_handlers n = nl_handlers (network w) \<Longrightarrow> grows w (w\<lparr>network := n\<rparr>)"
  by (simp add: grows_def keeps_def wf_shared_def queue_ok_def)

lemma period_timeout_keeps:
  "PA_period_direct_timeout rnd d now w = Some w' \<Longrightarrow> keeps w w'"
  "PA_period_indirect_timeout d now w = Some w' \<Longrightarrow> keeps w w'"
proof -
  have decl: "keeps w (PA_declareSuspicion n now (w\<lparr>pingack := p\<rparr>))" for n p
    using PA_declareSuspicion_keeps [of "w\<lparr>pingack := p\<rparr>" n now] by simp
  have send: "keeps w (w\<lparr>network := fold (\<lambda>m n. snd (Send now msg (f m) n)) ms (network w)\<rparr>)"
    for msg f and ms :: "Member list"
    by (rule grows_keeps [OF grows_network]) simp_all
  show "PA_period_direct_timeout rnd d now w = Some w' \<Longrightarrow> keeps w w'"
    by (auto simp: PA_period_direct_timeout_def Let_def decl send split: option.splits if_splits)
  show "PA_period_indirect_timeout d now w = Some w' \<Longrightarrow> keeps w w'"
    by (auto simp: PA_period_indirect_timeout_def decl split: if_splits)
qed

section \<open>Joining, leaving, failure check\<close>

lemma wf_ml_discard_all: "wf_ml ml \<Longrightarrow> wf_ml (fold (\<lambda>m. discard (f m)) ms ml)"
  by (induction ms arbitrary: ml) (auto intro: wf_ml_discard)

lemma wf_ml_failed_updates:
  "wf_ml (fold (\<lambda>m. AddRecentUpdateSafe now (f m)) ms ml) = wf_ml ml"
  by (induction ms arbitrary: ml) simp_all

lemma PA_checkFailures_keeps: "keeps w (PA_checkFailures now w)"
  unfolding PA_checkFailures_def Let_def
  by (rule keeps_ml) (simp add: wf_ml_failed_updates wf_ml_discard_all)

lemma keeps_then_Send:
  "keeps w w' \<Longrightarrow> keeps w (w'\<lparr>network := snd (Send now m a (network w'))\<rparr>)"
  by (rule keeps_trans [OF _ grows_keeps [OF grows_Send]])

lemma join_members_state:
  "keeps w (w\<lparr>membership := fst (join_members msg now (membership w)),
    network := snd (Send now m a (network w))\<rparr>)"
proof -
  have "keeps w (w\<lparr>membership := fst (join_members msg now (membership w))\<rparr>)"
    by (intro keeps_ml join_members_keeps)
  from keeps_then_Send [OF this] show ?thesis by simp
qed

lemma PA_handleJoin_keeps: "keeps w (PA_handleJoin msg now w)"
  by (simp add: PA_handleJoin_def Let_def split_def join_members_state)

lemma PA_handleLeave_keeps: "keeps w (PA_handleLeave msg now w)"
  unfolding PA_handleLeave_def by (rule keeps_ml) (rule leave_members_keeps)

lemma rejoin_state:
  "keeps w (w\<lparr>membership := RefreshLocalNode now (membership w),
    network := snd (Send now m a (network w))\<rparr>)"
proof -
  have "keeps w (w\<lparr>membership := RefreshLocalNode now (membership w)\<rparr>)"
    by (intro keeps_ml wf_ml_RefreshLocalNode)
  from keeps_then_Send [OF this] show ?thesis by simp
qed

lemma PA_JoinGroup_keeps: "keeps w (snd (PA_JoinGroup a now w))"
  using rejoin_state [of "w\<lparr>pingack := (pingack w)\<lparr>pa_active := True\<rparr>\<rparr>" now]
  by (simp add: PA_JoinGroup_def Let_def split_def)

lemma PA_LeaveGroup_grows: "grows w (PA_LeaveGroup now w)"
  by (simp add: PA_LeaveGroup_def Let_def grows_send_all)

end
