(* ===== verification/SuspicionSpec.thy ===== *)
theory SuspicionSpec
  imports Suspicion
begin

text \<open>
  What the suspicion manager promises about one target, as a state machine of four phases
  with mathematical integers and times, and the proof that the model of
  \<^verbatim>\<open>src/utils/suspicion.go\<close> implements it. The locale \<open>phase_machine\<close> is the promise; its
  lemmas about sequences of reports, refutations and checks are proved once over it.
\<close>

section \<open>The abstract machine\<close>

text \<open>
  A target is not suspected, or reports about an incarnation are being collected, or it has
  been suspected since a time, or the suspicion was confirmed (with the time after which
  the confirmation is forgotten).
\<close>

datatype suspicion_phase =
    Unsuspected
  | Collecting int32 "NodeID set"
  | Suspecting int32 time
  | Confirmed int32 time

definition spec_fresh :: "int \<Rightarrow> NodeID \<Rightarrow> int32 \<Rightarrow> time \<Rightarrow> suspicion_phase" where
  "spec_fresh quorum r i now = (if quorum \<le> 1 then Suspecting i now else Collecting i {r})"

fun spec_report :: "int \<Rightarrow> int \<Rightarrow> NodeID \<Rightarrow> int32 \<Rightarrow> time \<Rightarrow> suspicion_phase \<Rightarrow> suspicion_phase" where
  "spec_report quorum known r i now Unsuspected =
     (if sint i < known then Unsuspected else spec_fresh quorum r i now)"
| "spec_report quorum known r i now (Collecting j rs) =
     (if sint i < sint j then Collecting j rs
      else if sint j < sint i then spec_fresh quorum r i now
      else if quorum \<le> int (card (insert r rs)) then Suspecting j now
      else Collecting j (insert r rs))"
| "spec_report quorum known r i now (Suspecting j t) =
     (if sint j < sint i then spec_fresh quorum r i now else Suspecting j t)"
| "spec_report quorum known r i now (Confirmed j t) =
     (if sint j < sint i then spec_fresh quorum r i now else Confirmed j t)"

fun spec_clear :: "int32 \<Rightarrow> suspicion_phase \<Rightarrow> suspicion_phase" where
  "spec_clear i Unsuspected = Unsuspected"
| "spec_clear i (Collecting j rs) = (if sint i < sint j then Collecting j rs else Unsuspected)"
| "spec_clear i (Suspecting j t) = (if sint i < sint j then Suspecting j t else Unsuspected)"
| "spec_clear i (Confirmed j t) = (if sint i < sint j then Confirmed j t else Unsuspected)"

fun spec_tick :: "int \<Rightarrow> int \<Rightarrow> time \<Rightarrow> suspicion_phase \<Rightarrow> suspicion_phase" where
  "spec_tick timeout retention now (Suspecting j t) =
     (if t + timeout \<le> now then Confirmed j (if 0 < retention then now + retention else 0)
      else Suspecting j t)"
| "spec_tick timeout retention now (Confirmed j c) =
     (if 0 < retention \<and> c \<noteq> 0 \<and> c < now then Unsuspected else Confirmed j c)"
| "spec_tick timeout retention now p = p"

section \<open>The promise\<close>

locale phase_machine =
  fixes ph :: "'s \<Rightarrow> NodeID \<Rightarrow> suspicion_phase"
    and report :: "NodeID \<Rightarrow> NodeID \<Rightarrow> int32 \<Rightarrow> time \<Rightarrow> 's \<Rightarrow> 's"
    and clear :: "NodeID \<Rightarrow> int32 \<Rightarrow> 's \<Rightarrow> 's"
    and tick :: "time \<Rightarrow> 's \<Rightarrow> 's"
    and ok :: "'s \<Rightarrow> bool"
    and self :: "'s \<Rightarrow> NodeID"
    and known :: "'s \<Rightarrow> NodeID \<Rightarrow> int"
    and quorum timeout retention :: "'s \<Rightarrow> int"
  assumes ok_report: "ok s \<Longrightarrow> ok (report r t i now s)"
    and ok_clear: "ok s \<Longrightarrow> ok (clear t i s)"
    and ok_tick: "ok s \<Longrightarrow> ok (tick now s)"
    and report_frame: "self (report r t i now s) = self s" "quorum (report r t i now s) = quorum s"
      "timeout (report r t i now s) = timeout s"
    and clear_frame: "self (clear t i s) = self s" "quorum (clear t i s) = quorum s"
      "timeout (clear t i s) = timeout s"
    and tick_frame: "self (tick now s) = self s" "quorum (tick now s) = quorum s"
      "timeout (tick now s) = timeout s"
    and ph_report: "ok s \<Longrightarrow> now \<noteq> 0 \<Longrightarrow> ph (report r t i now s) n =
      (if n = t \<and> t \<noteq> self s then spec_report (quorum s) (known s t) r i now (ph s n) else ph s n)"
    and ph_clear: "ok s \<Longrightarrow> ph (clear t i s) n = (if n = t then spec_clear i (ph s n) else ph s n)"
    and ph_tick: "ok s \<Longrightarrow> ph (tick now s) n = spec_tick (timeout s) (retention s) now (ph s n)"
begin

text \<open>Checks before the deadline change nothing; the first one at or after it confirms.\<close>

lemma quiet_ticks:
  "ok s \<Longrightarrow> ph s n = Suspecting i t \<Longrightarrow> list_all (\<lambda>u. u < t + timeout s) us
    \<Longrightarrow> ph (fold tick us s) n = Suspecting i t \<and> ok (fold tick us s)
      \<and> timeout (fold tick us s) = timeout s"
  by (induction us arbitrary: s) (simp_all add: ok_tick ph_tick tick_frame)

lemma tick_confirms:
  "ok s \<Longrightarrow> ph s n = Suspecting i t \<Longrightarrow> t + timeout s \<le> u \<Longrightarrow> \<exists>c. ph (tick u s) n = Confirmed i c"
  by (simp add: ph_tick)

lemma detection:
  assumes "ok s" "ph s n = Suspecting i t" "list_all (\<lambda>u. u < t + timeout s) us"
    "t + timeout s \<le> u"
  shows "\<exists>c. ph (tick u (fold tick us s)) n = Confirmed i c"
  using quiet_ticks [OF assms(1-3)] tick_confirms [of "fold tick us s" n i t u] assms(4) by simp

text \<open>A refutation before the deadline ends the suspicion, and checks do not bring it back.\<close>

lemma unsuspected_ticks:
  "ok s \<Longrightarrow> ph s n = Unsuspected \<Longrightarrow> ph (fold tick us s) n = Unsuspected"
  by (induction us arbitrary: s) (simp_all add: ok_tick ph_tick)

lemma refuted_in_time:
  assumes "ok s" "ph s n = Suspecting i t" "list_all (\<lambda>u. u < t + timeout s) us"
    "sint i \<le> sint j"
  shows "ph (fold tick vs (clear n j (fold tick us s))) n = Unsuspected"
  using quiet_ticks [OF assms(1-3)] assms(4)
  by (intro unsuspected_ticks) (simp_all add: ok_clear ph_clear)

text \<open>Reports of one incarnation: only their reporters count, and only a quorum suspects.\<close>

lemma collected:
  assumes "ok s" "now \<noteq> 0" "n \<noteq> self s" "ph s n = Collecting i rs0" "finite rs0"
    "int (card (rs0 \<union> set rs)) < quorum s"
  shows "ph (fold (\<lambda>r. report r n i now) rs s) n = Collecting i (rs0 \<union> set rs)
    \<and> ok (fold (\<lambda>r. report r n i now) rs s) \<and> self (fold (\<lambda>r. report r n i now) rs s) = self s
    \<and> quorum (fold (\<lambda>r. report r n i now) rs s) = quorum s"
  using assms
proof (induction rs arbitrary: s rs0)
  case Nil
  then show ?case by simp
next
  case (Cons r rs)
  have "card (insert r rs0) \<le> card (rs0 \<union> set (r # rs))"
    using Cons.prems(5) by (intro card_mono) auto
  then have "ph (report r n i now s) n = Collecting i (insert r rs0)"
    using Cons.prems by (simp add: ph_report)
  with Cons.prems Cons.IH [of "report r n i now s" "insert r rs0"] show ?case
    by (simp add: ok_report report_frame)
qed

lemma below_quorum:
  assumes "ok s" "now \<noteq> 0" "n \<noteq> self s" "ph s n = Unsuspected" "known s n \<le> sint i"
    "rs \<noteq> []" "int (card (set rs)) < quorum s"
  shows "ph (fold (\<lambda>r. report r n i now) rs s) n = Collecting i (set rs)"
proof -
  obtain r rs' where rs: "rs = r # rs'" using assms(6) by (cases rs) auto
  have "card (set [r]) \<le> card (set rs)" unfolding rs by (intro card_mono) auto
  with assms have "ph (report r n i now s) n = Collecting i {r}"
    by (simp add: ph_report spec_fresh_def)
  with collected [of "report r n i now s" now n i "{r}" rs'] assms show ?thesis
    by (simp add: rs ok_report report_frame)
qed

lemma at_quorum:
  assumes "ok s" "now \<noteq> 0" "n \<noteq> self s" "ph s n = Unsuspected" "known s n \<le> sint i"
    "int (card (set rs)) < quorum s" "quorum s \<le> int (card (insert r (set rs)))"
  shows "ph (report r n i now (fold (\<lambda>r. report r n i now) rs s)) n = Suspecting i now"
proof (cases "rs = []")
  case True
  with assms show ?thesis by (simp add: ph_report spec_fresh_def)
next
  case False
  then obtain r0 rs' where rs: "rs = r0 # rs'" by (cases rs) auto
  have "card (set [r0]) \<le> card (set rs)" unfolding rs by (intro card_mono) auto
  with assms have "ph (report r0 n i now s) n = Collecting i {r0}"
    by (simp add: ph_report spec_fresh_def)
  with collected [of "report r0 n i now s" now n i "{r0}" rs'] assms show ?thesis
    by (simp add: rs ok_report report_frame ph_report)
qed

end

section \<open>The model implements it\<close>

fun entry_phase :: "suspectEntry option \<Rightarrow> suspicion_phase" where
  "entry_phase None = Unsuspected"
| "entry_phase (Some e) =
     (if se_firstReport e = 0 then Collecting (se_incarnation e) (fst ` set (se_reporters e))
      else if se_confirmed e then Confirmed (se_incarnation e) (se_cleanupAfter e)
      else Suspecting (se_incarnation e) (se_firstReport e))"

definition target_phase :: "'z shared_scheme \<Rightarrow> NodeID \<Rightarrow> suspicion_phase" where
  "target_phase w n = entry_phase (map_of (sm_entries (suspicion w)) (NodeID_String n))"

definition known_incarnation :: "'z shared_scheme \<Rightarrow> NodeID \<Rightarrow> int" where
  "known_incarnation w n = (case lookup (membership w) (NodeID_String n) of
     None \<Rightarrow> 0 | Some m \<Rightarrow> sint (mb_Incarnation m))"

definition suspicion_ok :: "'z shared_scheme \<Rightarrow> bool" where
  "suspicion_ok w \<longleftrightarrow> wf_sm (suspicion w) \<and> 0 \<le> sint (op_SuspicionTimeout (sm_opts (suspicion w)))"

abbreviation manager_quorum :: "'z shared_scheme \<Rightarrow> int" where
  "manager_quorum w \<equiv> sint (op_RequireReports (sm_opts (suspicion w)))"

abbreviation manager_timeout :: "'z shared_scheme \<Rightarrow> int" where
  "manager_timeout w \<equiv> sint (op_SuspicionTimeout (sm_opts (suspicion w)))"

abbreviation manager_retention :: "'z shared_scheme \<Rightarrow> int" where
  "manager_retention w \<equiv> sint (op_ConfirmedRetention (sm_opts (suspicion w)))"

lemma suspicion_ok_grows:
  assumes "grows w w'" "suspicion_ok w" "wf_sm (suspicion w) \<Longrightarrow> wf_sm (suspicion w')"
  shows "suspicion_ok w'"
  using assms by (simp add: suspicion_ok_def grows_def keeps_def)

lemma card_reporters:
  "distinct (map fst al) \<Longrightarrow> card (fst ` set al) = length al"
  using distinct_card [of "map fst al"] by simp

lemma set_reporters: "fst ` set (AList.update r t al) = insert r (fst ` set al)"
  by (simp add: dom_update)

text \<open>The entry that a report leaves.\<close>

definition reported_entry :: "int \<Rightarrow> NodeID \<Rightarrow> time \<Rightarrow> suspectEntry \<Rightarrow> suspectEntry" where
  "reported_entry quorum r now e =
     (let e1 = e\<lparr>se_reporters := AList.update r now (se_reporters e)\<rparr>
      in if quorum \<le> int (length (se_reporters e1)) \<and> se_firstReport e = 0
         then e1\<lparr>se_firstReport := now\<rparr> else e1)"

lemma ProcessSuspicion_entries:
  "sm_entries (suspicion (ProcessSuspicion r t i now w)) =
     (if t = ml_LocalNode (membership w) then sm_entries (suspicion w)
      else case report_entry t i w of None \<Rightarrow> sm_entries (suspicion w)
        | Some e \<Rightarrow> AList.update (NodeID_String t) (reported_entry (manager_quorum w) r now e)
            (sm_entries (suspicion w)))"
  by (simp add: ProcessSuspicion_def handleSelfRefutation_def reported_entry_def time_IsZero_def
      Let_def split: option.split)

lemma reported_phase:
  assumes "wf_entry opts e" "now \<noteq> 0"
  shows "entry_phase (Some (reported_entry (sint (op_RequireReports opts)) r now e)) =
    (if se_firstReport e \<noteq> 0 then entry_phase (Some e)
     else if sint (op_RequireReports opts) \<le> int (card (insert r (fst ` set (se_reporters e))))
     then Suspecting (se_incarnation e) now
     else Collecting (se_incarnation e) (insert r (fst ` set (se_reporters e))))"
proof -
  have "card (insert r (fst ` set (se_reporters e))) = length (AList.update r now (se_reporters e))"
    using assms(1) card_reporters [of "AList.update r now (se_reporters e)"]
    by (simp add: wf_entry_def distinct_update set_reporters)
  with assms show ?thesis
    by (auto simp: reported_entry_def Let_def wf_entry_def set_reporters)
qed

lemma report_phase:
  assumes "suspicion_ok w" "now \<noteq> 0"
  shows "target_phase (ProcessSuspicion r t i now w) n =
    (if n = t \<and> t \<noteq> ml_LocalNode (membership w)
     then spec_report (manager_quorum w) (known_incarnation w t) r i now (target_phase w n)
     else target_phase w n)"
proof (cases "n = t \<and> t \<noteq> ml_LocalNode (membership w)")
  case False
  then have "map_of (sm_entries (suspicion (ProcessSuspicion r t i now w))) (NodeID_String n)
      = map_of (sm_entries (suspicion w)) (NodeID_String n)"
    by (cases "t = ml_LocalNode (membership w)")
      (simp_all add: ProcessSuspicion_entries split: option.split)
  with False show ?thesis by (simp only: target_phase_def if_False)
next
  case True
  then have t: "n = t" "t \<noteq> ml_LocalNode (membership w)" by simp_all
  let ?q = "op_RequireReports (sm_opts (suspicion w))"
  have wf: "wf_sm (suspicion w)" using assms(1) by (simp add: suspicion_ok_def)
  have fresh: "entry_phase (Some (reported_entry (sint ?q) r now (new_entry t i)))
      = spec_fresh (sint ?q) r i now"
    using reported_phase [OF wf_new_entry assms(2), of "sm_opts (suspicion w)" r t i]
    by (simp add: spec_fresh_def)
  have old: "entry_phase (Some (reported_entry (sint ?q) r now e)) =
      (if se_firstReport e \<noteq> 0 then entry_phase (Some e)
       else if sint ?q \<le> int (card (insert r (fst ` set (se_reporters e))))
       then Suspecting (se_incarnation e) now
       else Collecting (se_incarnation e) (insert r (fst ` set (se_reporters e))))"
    if "report_entry t i w = Some e" for e
    using report_entry_wf(1) [OF wf that] assms(2) by (rule reported_phase)
  show ?thesis
  proof (cases "map_of (sm_entries (suspicion w)) (NodeID_String t)")
    case None
    with t fresh show ?thesis
      by (simp add: target_phase_def ProcessSuspicion_entries report_entry_def Let_def
          known_incarnation_def split: option.split)
  next
    case (Some e)
    show ?thesis
    proof (cases "sint i = sint (se_incarnation e)")
      case True
      with Some have "report_entry t i w = Some e" by (simp add: report_entry_def)
      with t Some True old [OF this] show ?thesis
        by (simp add: target_phase_def ProcessSuspicion_entries del: entry_phase.simps)
          simp
    next
      case False
      with t Some fresh show ?thesis
        by (auto simp: target_phase_def ProcessSuspicion_entries report_entry_def Let_def
            simp del: entry_phase.simps split: if_splits) simp_all
    qed
  qed
qed

lemma clear_phase:
  "target_phase (ClearSuspect t i w) n =
    (if n = t then spec_clear i (target_phase w n) else target_phase w n)"
  by (auto simp: target_phase_def ClearSuspect_def Let_def split: option.split)

lemma checked_entry:
  assumes "wf_sm (suspicion w)"
  shows "map_of (sm_entries (suspicion (check now w))) k =
    (case map_of (sm_entries (suspicion w)) k of None \<Rightarrow> None
     | Some e \<Rightarrow> if entry_cleanable (sm_opts (suspicion w)) now e then None
         else Some (check_entry (sm_opts (suspicion w)) now e))"
proof -
  let ?es = "sm_entries (suspicion w)"
  let ?c = "entry_cleanable (sm_opts (suspicion w)) now"
  have "k \<in> set (map fst (filter (\<lambda>(k, e). ?c e) ?es))
      \<longleftrightarrow> (\<exists>e. map_of ?es k = Some e \<and> ?c e)"
    using assms keyed_update_iff_mem [of entry_key ?es k]
    by (force simp: wf_sm_def)
  then show ?thesis
    by (auto simp: check_suspicion am.get_del_all split: option.split)
qed

lemma check_phase:
  assumes "suspicion_ok w"
  shows "target_phase (check now w) n
    = spec_tick (manager_timeout w) (manager_retention w) now (target_phase w n)"
proof -
  have wf: "wf_sm (suspicion w)" using assms by (simp add: suspicion_ok_def)
  have late: "manager_timeout w \<le> sint (time_Sub now t) \<longleftrightarrow> t + manager_timeout w \<le> now" for t
    using assms by (subst time_Sub_ge) (auto simp: suspicion_ok_def)
  have "se_cleanupAfter e = 0"
    if "map_of (sm_entries (suspicion w)) (NodeID_String n) = Some e" "\<not> se_confirmed e" for e
    using wf that by (auto simp: wf_sm_def wf_entry_def)
  with late show ?thesis
    by (auto simp: target_phase_def checked_entry [OF wf] entry_cleanable_def check_entry_def
        entry_expired_def confirm_entry_def time_Add_def Let_def split: option.split)
qed

lemma service_frames:
  "ml_LocalNode (membership (ProcessSuspicion r t i now w)) = ml_LocalNode (membership w)"
  "sm_opts (suspicion (ProcessSuspicion r t i now w)) = sm_opts (suspicion w)"
  "ml_LocalNode (membership (ClearSuspect t i w)) = ml_LocalNode (membership w)"
  "sm_opts (suspicion (ClearSuspect t i w)) = sm_opts (suspicion w)"
  "ml_LocalNode (membership (check now w)) = ml_LocalNode (membership w)"
  "sm_opts (suspicion (check now w)) = sm_opts (suspicion w)"
  using ProcessSuspicion_grows [of w r t i now] ClearSuspect_grows [of w t i] check_grows [of w now]
  by (simp_all add: grows_def keeps_def)

lemma wf_sm_report: "wf_sm (suspicion w) \<Longrightarrow> wf_sm (suspicion (ProcessSuspicion r t i now w))"
proof -
  assume wf: "wf_sm (suspicion w)"
  have "wf_entry (sm_opts (suspicion w)) (reported_entry (manager_quorum w) r now e)
      \<and> entry_key (reported_entry (manager_quorum w) r now e) = NodeID_String t"
    if "report_entry t i w = Some e" for e
    using report_entry_wf [OF wf that] wf_entry_report [of "sm_opts (suspicion w)" e r now]
    by (simp add: reported_entry_def entry_key_def Let_def)
  with wf show ?thesis
    by (auto simp: wf_sm_def ProcessSuspicion_entries service_frames keyed_put split: option.split)
qed

lemma ClearSuspect_entries:
  "sm_entries (suspicion (ClearSuspect t i w)) = sm_entries (suspicion w)
    \<or> sm_entries (suspicion (ClearSuspect t i w)) = AList.delete (NodeID_String t) (sm_entries (suspicion w))"
  by (simp add: ClearSuspect_def Let_def split: option.split)

lemma wf_sm_clear: "wf_sm (suspicion w) \<Longrightarrow> wf_sm (suspicion (ClearSuspect t i w))"
  using ClearSuspect_entries [of t i w] by (auto simp: wf_sm_def service_frames keyed_del split: if_splits)

interpretation pm: phase_machine target_phase
    "\<lambda>r t i now w. ProcessSuspicion r t i now w" ClearSuspect check suspicion_ok
    "\<lambda>w. ml_LocalNode (membership w)" known_incarnation
    manager_quorum manager_timeout manager_retention
proof
  show "suspicion_ok (ProcessSuspicion r t i now w)" if "suspicion_ok w"
    for w :: "'a shared_scheme" and r t i now
    using that by (simp add: suspicion_ok_def service_frames wf_sm_report)
  show "suspicion_ok (ClearSuspect t i w)" if "suspicion_ok w"
    for w :: "'a shared_scheme" and t i
    using that by (simp add: suspicion_ok_def service_frames wf_sm_clear)
  show "suspicion_ok (check now w)" if "suspicion_ok w" for w :: "'a shared_scheme" and now
    using that by (simp add: suspicion_ok_def service_frames wf_sm_check)
qed (simp_all add: service_frames report_phase clear_phase check_phase)

section \<open>The members' states\<close>

text \<open>The check fails exactly the members whose suspicion has lasted for the timeout.\<close>

lemma check_member:
  assumes "suspicion_ok w"
  shows "lookup (membership (check now w)) (NodeID_String n) =
    (case target_phase w n of
       Suspecting i t \<Rightarrow> if t + manager_timeout w \<le> now
         then map_option (\<lambda>m. m\<lparr>mb_Status := Failed\<rparr>) (lookup (membership w) (NodeID_String n))
         else lookup (membership w) (NodeID_String n)
     | _ \<Rightarrow> lookup (membership w) (NodeID_String n))"
proof -
  let ?es = "sm_entries (suspicion w)"
  let ?x = "entry_expired (sm_opts (suspicion w)) now"
  let ?expired = "map (\<lambda>(k, e). (se_target e, se_incarnation e)) (filter (\<lambda>(k, e). ?x e) ?es)"
  have wf: "wf_sm (suspicion w)" using assms by (simp add: suspicion_ok_def)
  have mem: "map_of ?es k = Some e \<longleftrightarrow> (k, e) \<in> set ?es" for k e
    using wf by (intro keyed_update_iff_mem [of entry_key]) (simp add: wf_sm_def)
  have key: "(k, e) \<in> set ?es \<Longrightarrow> k = NodeID_String (se_target e)" for k e
    using wf keyed_key [of entry_key ?es k e] by (simp add: wf_sm_def entry_key_def)
  have "NodeID_String n \<in> (\<lambda>c. NodeID_String (fst c)) ` set ?expired
      \<longleftrightarrow> (\<exists>e. (NodeID_String n, e) \<in> set ?es \<and> ?x e)"
    using key by force
  also have "\<dots> \<longleftrightarrow> (\<exists>i t. target_phase w n = Suspecting i t \<and> t + manager_timeout w \<le> now)"
  proof -
    have late: "manager_timeout w \<le> sint (time_Sub now t) \<longleftrightarrow> t + manager_timeout w \<le> now" for t
      using assms by (subst time_Sub_ge) (auto simp: suspicion_ok_def)
    show ?thesis unfolding mem [symmetric]
      by (cases "map_of ?es (NodeID_String n)") (auto simp: target_phase_def entry_expired_def late)
  qed
  finally have "NodeID_String n \<in> (\<lambda>c. NodeID_String (fst c)) ` set ?expired
      \<longleftrightarrow> (\<exists>i t. target_phase w n = Suspecting i t \<and> t + manager_timeout w \<le> now)" .
  then show ?thesis
    unfolding check_membership confirm_members_lookup(1) [OF surjective_pairing]
    by (auto split: suspicion_phase.split)
qed

lemma grows_timeout_ticks:
  assumes "suspicion_ok w" "target_phase w n = Suspecting i t"
    "list_all (\<lambda>u. u < t + manager_timeout w) us"
  shows "lookup (membership (fold check us w)) (NodeID_String n)
    = lookup (membership w) (NodeID_String n)"
  using assms
proof (induction us arbitrary: w)
  case Nil
  then show ?case by simp
next
  case (Cons u us)
  have "lookup (membership (check u w)) (NodeID_String n) = lookup (membership w) (NodeID_String n)"
    using Cons.prems by (simp add: check_member)
  moreover have "target_phase (check u w) n = Suspecting i t"
    using Cons.prems by (simp add: check_phase)
  ultimately show ?case
    using Cons by (simp add: pm.ok_tick service_frames)
qed

lemma fresh_report_member:
  assumes "t \<noteq> ml_LocalNode (membership w)" "target_phase w t = Unsuspected"
    "known_incarnation w t \<le> sint i" "manager_quorum w \<le> 1"
  shows "membership (ProcessSuspicion r t i now w)
    = mark_suspected now (NodeID_String t) (membership w)"
proof -
  have "map_of (sm_entries (suspicion w)) (NodeID_String t) = None"
    using assms(2) by (cases "map_of (sm_entries (suspicion w)) (NodeID_String t)")
      (auto simp: target_phase_def split: if_splits)
  then have "report_entry t i w = Some (new_entry t i)"
    using assms(3) by (auto simp: report_entry_def known_incarnation_def Let_def split: option.splits)
  with assms show ?thesis
    by (simp add: ProcessSuspicion_def Let_def time_IsZero_def)
qed

lemma quiet_report_member:
  assumes "t \<noteq> ml_LocalNode (membership w)" "now \<noteq> 0"
    "target_phase (ProcessSuspicion r t i now w) t = Collecting j rs"
  shows "membership (ProcessSuspicion r t i now w) = membership w"
  using assms
  by (auto simp: target_phase_def ProcessSuspicion_entries reported_entry_def ProcessSuspicion_def
      time_IsZero_def Let_def split: option.splits if_splits)

lemma unsuspected_ticks_member:
  "suspicion_ok w \<Longrightarrow> target_phase w n = Unsuspected \<Longrightarrow>
    lookup (membership (fold check us w)) (NodeID_String n) = lookup (membership w) (NodeID_String n)"
  by (induction us arbitrary: w) (simp_all add: check_member pm.ok_tick check_phase)

lemma clear_member_lookup:
  "target_phase w n = Unsuspected \<or> (\<exists>i t. target_phase w n = Suspecting i t \<and> sint i \<le> sint j)
    \<Longrightarrow> lookup (membership w) (NodeID_String n) = Some m \<Longrightarrow> sint (mb_Incarnation m) \<le> sint j
    \<Longrightarrow> lookup (membership (ClearSuspect n j w)) (NodeID_String n)
      = Some (m\<lparr>mb_Status := Alive, mb_Incarnation := j\<rparr>)"
  by (auto simp: target_phase_def ClearSuspect_def clear_member_def Let_def
      split: option.splits if_splits)

section \<open>A sample state\<close>

text \<open>A node on port 0 that knows a live node on port 1, with the controller's timing.\<close>

definition node_at :: "int64 \<Rightarrow> NodeID" where
  "node_at p = \<lparr>nid_IP = ''10.0.0.1'', nid_Port = p, nid_Timestamp = 100\<rparr>"

definition alive_at :: "int64 \<Rightarrow> Member" where
  "alive_at p = zero_Member\<lparr>mb_ID := node_at p\<rparr>"

definition sample_shared :: "int64 \<Rightarrow> shared" where
  "sample_shared quorum =
     \<lparr>membership = \<lparr>ml_LocalNode = node_at 0,
        ml_Members = [(NodeID_String (node_at 0), alive_at 0), (NodeID_String (node_at 1), alive_at 1)],
        ml_Incarnation = 0, ml_recentUpdates = [], ml_updateWindow = 5 * Second\<rparr>,
      network = NewNetworkLayer (\<lambda>_. None),
      suspicion = NewSuspicionManager \<lparr>op_SuspicionTimeout = 2 * Second,
        op_CheckInterval = 200 * Millisecond, op_RequireReports = quorum,
        op_ConfirmedRetention = 3 * Second, op_OnSuspect = False, op_OnConfirm = False,
        op_OnClear = False\<rparr>,
      spawned = []\<rparr>"

lemma node_at_inject [simp]: "node_at p = node_at q \<longleftrightarrow> p = q"
  by (simp add: node_at_def)

lemma sample_shared_simps [simp]:
  "ml_LocalNode (membership (sample_shared q)) = node_at 0"
  "lookup (membership (sample_shared q)) (NodeID_String (node_at 1)) = Some (alive_at 1)"
  "sm_entries (suspicion (sample_shared q)) = []"
  "manager_timeout (sample_shared q) = 2000000000"
  "manager_retention (sample_shared q) = 3000000000"
  "manager_quorum (sample_shared q) = max 1 (sint q)"
  by (simp_all add: sample_shared_def NewSuspicionManager_def Second_def Millisecond_def Let_def)

lemma sample_shared_ok [simp]:
  "suspicion_ok (sample_shared q)" "target_phase (sample_shared q) n = Unsuspected"
  "known_incarnation (sample_shared q) (node_at 1) = 0"
  by (simp_all add: suspicion_ok_def target_phase_def known_incarnation_def wf_sm_def
      alive_at_def zero_Member_def)

lemma mb_alive_at [simp]: "mb_Incarnation (alive_at p) = 0" "mb_Status (alive_at p) = Alive"
  "mb_ID (alive_at p) = node_at p"
  by (simp_all add: alive_at_def zero_Member_def)

section \<open>The time line of a suspicion\<close>

lemma suspicion_timeline:
  assumes "suspicion_ok w" "now \<noteq> 0" "n \<noteq> ml_LocalNode (membership w)"
    "target_phase w n = Unsuspected" "manager_quorum w \<le> 1"
    "lookup (membership w) (NodeID_String n) = Some m" "sint (mb_Incarnation m) \<le> sint i"
    "list_all (\<lambda>u. u < now + manager_timeout w) us" "now + manager_timeout w \<le> late"
  shows "lookup (membership (fold check us (ProcessSuspicion r n i now w))) (NodeID_String n)
      = Some (m\<lparr>mb_Status := Suspected, mb_SuspicionStart := now\<rparr>)
    \<and> lookup (membership (check late (fold check us (ProcessSuspicion r n i now w)))) (NodeID_String n)
      = Some (m\<lparr>mb_Status := Failed, mb_SuspicionStart := now\<rparr>)"
proof -
  let ?w = "ProcessSuspicion r n i now w"
  have phase: "target_phase ?w n = Suspecting i now"
    using assms by (simp add: report_phase spec_fresh_def known_incarnation_def)
  have m: "lookup (membership ?w) (NodeID_String n)
      = Some (m\<lparr>mb_Status := Suspected, mb_SuspicionStart := now\<rparr>)"
    using assms fresh_report_member [of n w i r now]
    by (simp add: known_incarnation_def mark_suspected_def)
  have ok: "suspicion_ok ?w" using assms(1) by (rule pm.ok_report)
  note quiet = pm.quiet_ticks [OF ok phase, of us]
  have same: "lookup (membership (fold check us ?w)) (NodeID_String n)
      = lookup (membership ?w) (NodeID_String n)"
    using ok phase assms(8) by (intro grows_timeout_ticks) (simp_all add: service_frames)
  show ?thesis
    using quiet same m assms(8,9) by (simp add: check_member service_frames)
qed

section \<open>Properties\<close>

text \<open>
  C2: The suspicion manager refines the abstract four-phase machine: a report, a refutation
  and a periodic check each do to the phase of every target what the abstract step says,
  and nothing to the other targets; reports about the local node touch no phase.
\<close>

theorem suspicion_refinement:
  assumes "suspicion_ok w" "now \<noteq> 0"
  shows "target_phase (ProcessSuspicion r t i now w) n =
      (if n = t \<and> t \<noteq> ml_LocalNode (membership w)
       then spec_report (manager_quorum w) (known_incarnation w t) r i now (target_phase w n)
       else target_phase w n)
    \<and> target_phase (ClearSuspect t i w) n =
      (if n = t then spec_clear i (target_phase w n) else target_phase w n)
    \<and> target_phase (check now w) n
      = spec_tick (manager_timeout w) (manager_retention w) now (target_phase w n)"
  using assms by (simp add: report_phase clear_phase check_phase)

theorem suspicion_refinement_witness:
  "target_phase (ProcessSuspicion (node_at 0) (node_at 1) 3 7 (sample_shared 1)) (node_at 1)
    = Suspecting 3 7"
  using suspicion_refinement [of "sample_shared 1" 7 "node_at 0" "node_at 1" 3 "node_at 1"]
  by (simp add: spec_fresh_def)

text \<open>
  C3: A member that is reported once (with a quorum of one) and not refuted is suspected at
  once, stays suspected as long as every check comes before the timeout, and is failed by
  the first check that comes at or after it.
\<close>

theorem unrefuted_suspicion_fails:
  assumes "suspicion_ok w" "now \<noteq> 0" "n \<noteq> ml_LocalNode (membership w)"
    "target_phase w n = Unsuspected" "manager_quorum w \<le> 1"
    "lookup (membership w) (NodeID_String n) = Some m" "sint (mb_Incarnation m) \<le> sint i"
    "list_all (\<lambda>u. u < now + manager_timeout w) us" "now + manager_timeout w \<le> late"
  shows "lookup (membership (fold check us (ProcessSuspicion r n i now w))) (NodeID_String n)
      = Some (m\<lparr>mb_Status := Suspected, mb_SuspicionStart := now\<rparr>)
    \<and> lookup (membership (check late (fold check us (ProcessSuspicion r n i now w)))) (NodeID_String n)
      = Some (m\<lparr>mb_Status := Failed, mb_SuspicionStart := now\<rparr>)"
  using assms by (rule suspicion_timeline)

theorem unrefuted_suspicion_witness:
  "lookup (membership (check 2000000009 (fold check [100, 1000]
      (ProcessSuspicion (node_at 0) (node_at 1) 0 7 (sample_shared 1))))) (NodeID_String (node_at 1))
    = Some ((alive_at 1)\<lparr>mb_Status := Failed, mb_SuspicionStart := 7\<rparr>)"
  using unrefuted_suspicion_fails [of "sample_shared 1" 7 "node_at 1" "alive_at 1" 0 "[100, 1000]"
      2000000009 "node_at 0"] by simp

text \<open>
  C4: A suspicion that is refuted before its timeout, by an incarnation not older than the
  suspected one and the stored one, leaves the member alive: no later check fails it.
\<close>

theorem refutation_in_time:
  assumes "suspicion_ok w" "target_phase w n = Suspecting i t"
    "lookup (membership w) (NodeID_String n) = Some m"
    "list_all (\<lambda>u. u < t + manager_timeout w) before"
    "sint i \<le> sint j" "sint (mb_Incarnation m) \<le> sint j"
  shows "target_phase (fold check after (ClearSuspect n j (fold check before w))) n = Unsuspected
    \<and> lookup (membership (fold check after (ClearSuspect n j (fold check before w)))) (NodeID_String n)
      = Some (m\<lparr>mb_Status := Alive, mb_Incarnation := j\<rparr>)"
proof -
  let ?w = "fold check before w"
  note quiet = pm.quiet_ticks [OF assms(1,2,4)]
  have m: "lookup (membership ?w) (NodeID_String n) = Some m"
    using grows_timeout_ticks [OF assms(1,2,4)] assms(3) by simp
  have cleared: "lookup (membership (ClearSuspect n j ?w)) (NodeID_String n)
      = Some (m\<lparr>mb_Status := Alive, mb_Incarnation := j\<rparr>)"
    using quiet m assms(5,6) by (intro clear_member_lookup) blast+
  have "suspicion_ok (ClearSuspect n j ?w)" "target_phase (ClearSuspect n j ?w) n = Unsuspected"
    using quiet assms(5) by (simp_all add: pm.ok_clear clear_phase)
  then have "lookup (membership (fold check after (ClearSuspect n j ?w))) (NodeID_String n)
      = Some (m\<lparr>mb_Status := Alive, mb_Incarnation := j\<rparr>)"
    using cleared by (simp add: unsuspected_ticks_member)
  with pm.refuted_in_time [OF assms(1,2,4,5)] show ?thesis by simp
qed

theorem refutation_in_time_witness:
  "lookup (membership (fold check [3000000000] (ClearSuspect (node_at 1) 1
      (fold check [1000] (ProcessSuspicion (node_at 0) (node_at 1) 0 7 (sample_shared 1))))))
      (NodeID_String (node_at 1))
    = Some ((alive_at 1)\<lparr>mb_SuspicionStart := 7, mb_Incarnation := 1\<rparr>)"
proof -
  let ?w = "ProcessSuspicion (node_at 0) (node_at 1) 0 7 (sample_shared 1)"
  have "suspicion_ok ?w" "target_phase ?w (node_at 1) = Suspecting 0 7"
    by (simp_all add: pm.ok_report report_phase spec_fresh_def)
  moreover have "lookup (membership ?w) (NodeID_String (node_at 1))
      = Some ((alive_at 1)\<lparr>mb_Status := Suspected, mb_SuspicionStart := 7\<rparr>)"
    by (simp add: fresh_report_member mark_suspected_def)
  ultimately show ?thesis
    using refutation_in_time [of ?w "node_at 1" 0 7
        "(alive_at 1)\<lparr>mb_Status := Suspected, mb_SuspicionStart := 7\<rparr>" "[1000]" 1 "[3000000000]"]
    by (simp add: service_frames alive_at_def zero_Member_def)
qed

lemma below_quorum_members:
  assumes "suspicion_ok w" "now \<noteq> 0" "n \<noteq> ml_LocalNode (membership w)"
    "target_phase w n = Unsuspected" "known_incarnation w n \<le> sint i"
    "int (card (set rs)) < manager_quorum w"
  shows "membership (fold (\<lambda>r. ProcessSuspicion r n i now) rs w) = membership w"
  using assms
proof (induction rs rule: rev_induct)
  case Nil
  then show ?case by simp
next
  case (snoc r rs)
  have less: "int (card (set rs)) < manager_quorum w"
  proof -
    have "card (set rs) \<le> card (set (rs @ [r]))" by (intro card_mono) auto
    with snoc.prems(6) show ?thesis by linarith
  qed
  let ?v = "fold (\<lambda>r. ProcessSuspicion r n i now) rs w"
  have same: "membership ?v = membership w" using snoc less by simp
  have "target_phase (fold (\<lambda>r. ProcessSuspicion r n i now) (rs @ [r]) w) n
      = Collecting i (set (rs @ [r]))"
    using snoc.prems by (intro pm.below_quorum) simp_all
  then have "membership (ProcessSuspicion r n i now ?v) = membership ?v"
    using snoc.prems same by (intro quiet_report_member) simp_all
  with same show ?case by simp
qed

text \<open>
  C27: Suspicion needs a quorum of distinct reporters of one incarnation: repeated reports
  of fewer reporters leave the membership list as it was, and the report that completes the
  quorum marks the member suspected from that time on.
\<close>

theorem quorum_needed:
  assumes "suspicion_ok w" "now \<noteq> 0" "n \<noteq> ml_LocalNode (membership w)"
    "target_phase w n = Unsuspected" "known_incarnation w n \<le> sint i"
    "int (card (set rs)) < manager_quorum w" "manager_quorum w \<le> int (card (insert r (set rs)))"
  shows "membership (fold (\<lambda>r. ProcessSuspicion r n i now) rs w) = membership w
    \<and> target_phase (ProcessSuspicion r n i now (fold (\<lambda>r. ProcessSuspicion r n i now) rs w)) n
      = Suspecting i now"
  using assms below_quorum_members [OF assms(1-6)] pm.at_quorum [OF assms] by simp

theorem quorum_needed_witness:
  "target_phase (ProcessSuspicion (node_at 3) (node_at 1) 0 7
      (fold (\<lambda>r. ProcessSuspicion r (node_at 1) 0 7) [node_at 2, node_at 2] (sample_shared 2)))
      (node_at 1) = Suspecting 0 7"
  using quorum_needed [of "sample_shared 2" 7 "node_at 1" 0 "[node_at 2, node_at 2]" "node_at 3"]
  by simp

text \<open>
  A node that hears of a suspicion of itself takes an incarnation above both its own
  and the suspected one and sends it to every other member it knows (and can reach); the
  stored members and the suspicions of others are left alone.
\<close>

theorem self_refutation:
  assumes "sint inc < 2 ^ 31 - 1" "sint (ml_Incarnation (membership w)) < 2 ^ 31 - 1"
  shows "let w' = ProcessSuspicion reporter (ml_LocalNode (membership w)) inc now w;
           new = ml_Incarnation (membership w')
    in sint inc < sint new \<and> sint (ml_Incarnation (membership w)) < sint new
      \<and> ml_Members (membership w') = ml_Members (membership w)
      \<and> suspicion w' = suspicion w
      \<and> nl_sent (network w') = nl_sent (network w) @
        map (\<lambda>a. (a, stamped now ((message AliveMsg)\<lparr>msg_Sender := ml_LocalNode (membership w),
            msg_Incarnation := new\<rparr>)))
          (filter (\<lambda>a. nl_conn (network w) a = None) (other_addresses (membership w)))"
  using assms sint_plus1_32 [OF assms(1)] sint_plus1_32 [OF assms(2)]
  by (simp add: ProcessSuspicion_def handleSelfRefutation_def other_addresses_def send_all_sent Let_def)

theorem self_refutation_witness:
  "map fst (nl_sent (network (ProcessSuspicion (node_at 1) (node_at 0) 4 7 (sample_shared 1))))
    = [''10.0.0.1:1'']
   \<and> sint (ml_Incarnation (membership (ProcessSuspicion (node_at 1) (node_at 0) 4 7 (sample_shared 1)))) > 4"
proof -
  have "sint (4 :: int32) < 2 ^ 31 - 1" "sint (ml_Incarnation (membership (sample_shared 1))) < 2 ^ 31 - 1"
    by (simp_all add: sample_shared_def)
  note refuted = self_refutation [OF this, of "node_at 1" 7, unfolded Let_def]
  have "map fst (nl_sent (network (ProcessSuspicion (node_at 1) (node_at 0) 4 7 (sample_shared 1))))
      = other_addresses (membership (sample_shared 1))"
    using refuted by (simp add: comp_def) (simp add: sample_shared_def NewNetworkLayer_def)
  also have "\<dots> = [''10.0.0.1:1'']"
    by code_simp
  finally show ?thesis using refuted by simp
qed


end
