(* ===== verification/Gossip_Keeps.thy ===== *)
theory Gossip_Keeps
  imports Gossip PingAck_Keeps SuspicionSpec
begin

text \<open>
  The gossip detector keeps what the ping/ack detector keeps. Its merge of an update and
  its treatment of a sender are shown to be those of the ping/ack detector, and its
  failure scan to be a map over the members with two filters.
\<close>

section \<open>Equivalence with the ping/ack detector\<close>

lemma GM_note_sender_eq: "GM_note_sender msg now ml = PA_note_sender msg now ml"
  by (simp add: GM_note_sender_def PA_note_sender_def Let_def store_same split: option.split)

lemma GM_processUpdate_eq:
  "GM_processUpdate update reporter now w
    = apply_update (gm_enableSuspicion (gossip w)) update reporter now w"
  by (auto simp: GM_processUpdate_def apply_update_def PA_merge_def PA_new_member_def notify_def
      Let_def split: option.split)

lemma GM_processUpdate_grows: "grows w (GM_processUpdate update reporter now w)"
  unfolding GM_processUpdate_eq by (rule apply_update_grows)

interpretation gu: growing grows "\<lambda>update. GM_processUpdate update reporter now"
  for reporter now
  by unfold_locales (auto intro: grows_trans GM_processUpdate_grows)

lemma GM_processUpdates_grows: "grows w (GM_processUpdates us reporter now w)"
  unfolding GM_processUpdates_def by (rule gu.loop_grows)

section \<open>The failure scan\<close>

text \<open>
  What one pass does to a member: a live member that has been silent for too long becomes
  suspected (with suspicion) or is removed (without), a suspected or failed one is removed
  after its time.
\<close>

definition silent :: "TimeoutConfig \<Rightarrow> time \<Rightarrow> Member \<Rightarrow> bool" where
  "silent to now m \<longleftrightarrow> mb_Status m = Alive \<and>
     sint (suspect_threshold to) \<le> sint (time_Sub now (mb_LastHeartbeat m))"

definition suspect_now :: "time \<Rightarrow> Member \<Rightarrow> Member" where
  "suspect_now now m = m\<lparr>mb_Status := Suspected, mb_SuspicionStart := now\<rparr>"

definition removable :: "bool \<Rightarrow> TimeoutConfig \<Rightarrow> time \<Rightarrow> Member \<Rightarrow> bool" where
  "removable en to now m \<longleftrightarrow>
     (silent to now m \<and> \<not> en)
     \<or> (mb_Status m = Suspected
        \<and> sint (confirm_threshold to) \<le> sint (time_Sub now (mb_SuspicionStart m)))
     \<or> (mb_Status m = Failed \<and> 0 < sint (to_CleanupTimeout to)
        \<and> sint (to_CleanupTimeout to) \<le> sint (time_Sub now (mb_LastHeartbeat m)))"

lemma suspect_threshold_pos: "0 < sint (suspect_threshold to)"
  by (auto simp: suspect_threshold_def Second_def)

lemma failure_scan_eq:
  "failure_scan en to now lk ms =
     (map (\<lambda>(k, m). (k, if k \<noteq> lk \<and> silent to now m \<and> en then suspect_now now m else m)) ms,
      map (\<lambda>(k, m). suspect_now now m) (filter (\<lambda>(k, m). k \<noteq> lk \<and> silent to now m \<and> en) ms),
      map snd (filter (\<lambda>(k, m). k \<noteq> lk \<and> removable en to now m) ms))"
proof (induction en to now lk ms rule: failure_scan.induct)
  case (1 en to now lk)
  then show ?case by simp
next
  case (2 en to now lk k m rest)
  then show ?case
    using suspect_threshold_pos [of to]
    by (cases "mb_Status m")
      (simp_all add: silent_def removable_def suspect_now_def Let_def)
qed

lemma wf_failure_scan:
  assumes "wf_ml ml"
  shows "wf_ml (ml\<lparr>ml_Members := fst (failure_scan en to now lk (ml_Members ml))\<rparr>)"
proof -
  have "keyed member_key (map (\<lambda>(k, m). (k, if k \<noteq> lk \<and> silent to now m \<and> en
      then suspect_now now m else m)) (ml_Members ml))"
    using assms unfolding wf_ml_def by (intro keyed_map_values) (auto simp: suspect_now_def)
  then show ?thesis by (simp add: wf_ml_def failure_scan_eq)
qed

section \<open>What the methods keep\<close>

lemma grows_recent: "grows w (w\<lparr>membership := AddRecentUpdateSafe now m (membership w)\<rparr>)"
  by (rule grows_ml_rel) (simp add: ml_rel_def)

interpretation rs: growing grows "report_suspect now" for now
  by unfold_locales (auto simp: report_suspect_def Let_def intro: grows_trans grows_recent
      grows_then_process)

lemma GM_checkFailures_keeps: "keeps w (GM_checkFailures now w)"
proof -
  let ?scan = "failure_scan (gm_enableSuspicion (gossip w)) (gm_timeouts (gossip w)) now
    (NodeID_String (ml_LocalNode (membership w))) (ml_Members (membership w))"
  let ?ml = "fold (\<lambda>m. discard (NodeID_String (mb_ID m))) (snd (snd ?scan))
    ((membership w)\<lparr>ml_Members := fst ?scan\<rparr>)"
  have "keeps w (w\<lparr>membership := ?ml\<rparr>)"
    by (intro keeps_ml wf_ml_discard_all wf_failure_scan)
  then have step: "keeps w (fold (report_suspect now) (fst (snd ?scan)) (w\<lparr>membership := ?ml\<rparr>))"
    by (rule keeps_trans) (rule grows_keeps [OF rs.loop_grows])
  have "keeps w' (w'\<lparr>membership := fold (\<lambda>m. AddRecentUpdateSafe now (f m)) ms (membership w')\<rparr>)"
    for w' :: node and f and ms :: "Member list"
    by (rule keeps_ml) (simp add: wf_ml_failed_updates)
  with step show ?thesis
    by (auto simp: GM_checkFailures_def Let_def split_def intro: keeps_trans)
qed

lemma GM_handleHeartbeat_grows: "grows w (GM_handleHeartbeat msg now w)"
  by (auto simp: GM_handleHeartbeat_def GM_note_sender_eq
      intro: grows_trans [OF PA_note_sender_grows GM_processUpdates_grows])

lemma GM_handleSuspectMessage_grows: "grows w (GM_handleSuspectMessage msg now w)"
  by (simp add: GM_handleSuspectMessage_def ProcessSuspicion_grows)

lemma alive_members_rel: "ml_rel ml (alive_members msg now ml)"
  by (simp add: ml_rel_def alive_members_keeps)

lemma GM_handleAliveMessage_grows: "grows w (GM_handleAliveMessage msg now w)"
  by (simp add: GM_handleAliveMessage_def grows_then_clear grows_ml_rel alive_members_rel)

lemma GM_handleConfirmMessage_grows: "grows w (GM_handleConfirmMessage msg now w)"
proof -
  let ?k = "NodeID_String (msg_Target msg)"
  have "ml_rel (membership w) (store ?k (m\<lparr>mb_Status := Failed, mb_Incarnation := i\<rparr>) (membership w))"
    if "lookup (membership w) ?k = Some m" "sint (mb_Incarnation m) \<le> sint i" for m i
    using that by (auto simp: ml_rel_def incs_grow_store_iff intro!: wf_ml_store dest: wf_ml_lookup)
  then show ?thesis
    by (auto simp: GM_handleConfirmMessage_def Let_def intro!: grows_ml_rel split: option.split)
qed

lemma GM_handleJoin_keeps: "keeps w (GM_handleJoin msg now w)"
  by (simp add: GM_handleJoin_def Let_def split_def join_members_state)

lemma GM_handleJoinResponse_grows: "grows w (GM_handleJoinResponse msg now w)"
proof -
  have "grows w (w\<lparr>membership := fst (fold (join_response_step now) us (membership w, []))\<rparr>)" for us
    using jr.loop_grows [of "(membership w, [])" now us] by (intro grows_ml_rel) simp
  then show ?thesis
    by (simp add: GM_handleJoinResponse_def Let_def split_def grows_with_clears)
qed

lemma GM_handleLeave_keeps: "keeps w (GM_handleLeave msg now w)"
  unfolding GM_handleLeave_def by (rule keeps_ml) (rule leave_members_keeps)

lemma GM_JoinGroup_keeps: "keeps w (snd (GM_JoinGroup a now w))"
  using rejoin_state [of "w\<lparr>gossip := (gossip w)\<lparr>gm_active := True\<rparr>\<rparr>" now]
  by (simp add: GM_JoinGroup_def Let_def split_def)

lemma GM_LeaveGroup_grows: "grows w (GM_LeaveGroup now w)"
  by (simp add: GM_LeaveGroup_def Let_def grows_send_all)

lemma ml_rel_recents: "ml_rel ml (fold (AddRecentUpdateSafe now) ms ml)"
  by (simp add: ml_rel_def incs_grow_members wf_ml_recent_fold)

lemma GetRecentUpdates_rel: "GetRecentUpdates now l ml = Some (us, ml') \<Longrightarrow> ml_rel ml ml'"
  by (auto simp: ml_rel_def GetRecentUpdates_def Let_def incs_grow_def split: if_splits)

lemma GM_performGossipRound_grows:
  assumes "GM_performGossipRound rnd1 rnd2 now w = Some w'"
  shows "grows w w'"
proof -
  have "grows w (w\<lparr>membership := ml, network := fold (\<lambda>m n. snd (Send now msg (f m) n)) ms (network w)\<rparr>)"
    if "ml_rel (membership w) ml" for ml msg f and ms :: "Member list"
  proof (rule grows_trans [OF grows_ml_rel [OF that]])
    have "grows (w\<lparr>membership := ml\<rparr>) (w\<lparr>membership := ml, network := n\<rparr>)"
      if "n = fold (\<lambda>m n. snd (Send now msg (f m) n)) ms (network w)" for n
      using that grows_network [of n "w\<lparr>membership := ml\<rparr>"] by simp
    then show "grows (w\<lparr>membership := ml\<rparr>) (w\<lparr>membership := ml,
      network := fold (\<lambda>m n. snd (Send now msg (f m) n)) ms (network w)\<rparr>)" by blast
  qed
  moreover have "ml_rel (membership w) ml'"
    if "GetRecentUpdates now l (fold (AddRecentUpdateSafe now) es
      (fold (AddRecentUpdateSafe now) ts ml)) = Some (us, ml')" "ml_rel (membership w) ml"
    for l es ts us ml ml'
    using that ml_rel_trans ml_rel_recents GetRecentUpdates_rel by metis
  moreover have "ml_rel (membership w) (AddRecentUpdateSafe now s (membership w))" for s
    by (simp add: ml_rel_def)
  ultimately show ?thesis
    using assms
    by (fastforce simp: GM_performGossipRound_def Let_def split: option.splits prod.splits if_splits)
qed

section \<open>What an update does\<close>

lemma ProcessSuspicion_lookup:
  "lookup (membership (ProcessSuspicion r t i now w)) k = lookup (membership w) k
   \<or> (k = NodeID_String t \<and> (\<exists>m. lookup (membership w) k = Some m
     \<and> lookup (membership (ProcessSuspicion r t i now w)) k
       = Some (m\<lparr>mb_Status := Suspected, mb_SuspicionStart := now\<rparr>)))"
  by (auto simp: ProcessSuspicion_def handleSelfRefutation_def mark_suspected_def Let_def
      split: option.split)

lemma ClearSuspect_lookup:
  "lookup (membership (ClearSuspect t i w)) k = lookup (membership w) k
   \<or> (k = NodeID_String t \<and> (\<exists>m. lookup (membership w) k = Some m
     \<and> sint (mb_Incarnation m) \<le> sint i
     \<and> lookup (membership (ClearSuspect t i w)) k = Some (m\<lparr>mb_Status := Alive, mb_Incarnation := i\<rparr>)))"
  by (auto simp: ClearSuspect_def clear_member_def Let_def split: option.split)

lemma ClearSuspect_live:
  assumes "lookup (membership w) (NodeID_String t) = Some m" "mb_Incarnation m = i" "mb_Status m = Alive"
  shows "lookup (membership (ClearSuspect t i w)) (NodeID_String t) = Some m"
  using ClearSuspect_lookup [of t i w "NodeID_String t"] assms by (cases m) auto

text \<open>The status of a known member after an update, as the merge computes it.\<close>

definition merged_status :: "MemberUpdate \<Rightarrow> Member \<Rightarrow> MemberStatus" where
  "merged_status u m =
     (if sint (mb_Incarnation m) < sint (up_Incarnation u) then up_Status u
      else if up_Incarnation u = mb_Incarnation m \<and> up_Status u = Alive \<and> mb_Status m = Suspected
      then Alive
      else if up_Incarnation u = mb_Incarnation m \<and> up_Status u = Suspected \<and> mb_Status m = Alive
      then Suspected else mb_Status m)"

definition merged_incarnation :: "MemberUpdate \<Rightarrow> Member \<Rightarrow> int32" where
  "merged_incarnation u m = (if sint (mb_Incarnation m) < sint (up_Incarnation u)
     then up_Incarnation u else mb_Incarnation m)"

lemma PA_merge_status:
  "mb_Status (fst (PA_merge en u now m)) = merged_status u m"
  "mb_Incarnation (fst (PA_merge en u now m)) = merged_incarnation u m"
  "mb_ID (fst (PA_merge en u now m)) = mb_ID m"
  by (auto simp: PA_merge_def merged_status_def merged_incarnation_def Let_def)

lemma apply_update_known:
  assumes "up_NodeID u \<noteq> ml_LocalNode (membership w)"
    "lookup (membership w) (NodeID_String (up_NodeID u)) = Some m"
  obtains w1 where "lookup (membership w1) (NodeID_String (up_NodeID u)) = Some (fst (PA_merge en u now m))"
    "\<And>k. k \<noteq> NodeID_String (up_NodeID u) \<Longrightarrow> lookup (membership w1) k = lookup (membership w) k"
    "apply_update en u r now w = notify (\<lambda>r t i. ProcessSuspicion r t i now) ClearSuspect en u r w1"
proof
  let ?m' = "fst (PA_merge en u now m)"
  let ?w1 = "w\<lparr>membership := (if snd (PA_merge en u now m)
    then AddRecentUpdate now ?m' (store (NodeID_String (up_NodeID u)) ?m' (membership w))
    else store (NodeID_String (up_NodeID u)) ?m' (membership w))\<rparr>"
  show "lookup (membership ?w1) (NodeID_String (up_NodeID u)) = Some ?m'" by simp
  show "k \<noteq> NodeID_String (up_NodeID u) \<Longrightarrow> lookup (membership ?w1) k = lookup (membership w) k" for k
    by simp
  show "apply_update en u r now w = notify (\<lambda>r t i. ProcessSuspicion r t i now) ClearSuspect en u r ?w1"
    using assms by (simp add: apply_update_def Let_def)
qed

lemma notify_lookup_others:
  "k \<noteq> NodeID_String (up_NodeID u) \<Longrightarrow>
    lookup (membership (notify (\<lambda>r t i. ProcessSuspicion r t i now) ClearSuspect en u r w)) k
      = lookup (membership w) k"
  using ProcessSuspicion_lookup [of r "up_NodeID u" "up_Incarnation u" now w k]
    ClearSuspect_lookup [of "up_NodeID u" "up_Incarnation u"]
  by (auto simp: notify_def Let_def)

lemma notify_lookup_target:
  assumes "lookup (membership w) (NodeID_String (up_NodeID u)) = Some m"
  shows "\<exists>m'. lookup (membership (notify (\<lambda>r t i. ProcessSuspicion r t i now) ClearSuspect en u r w))
      (NodeID_String (up_NodeID u)) = Some m' \<and> mb_ID m' = mb_ID m
    \<and> (if up_Status u = Alive then
         (m' = m \<or> sint (mb_Incarnation m) \<le> sint (up_Incarnation u)
           \<and> mb_Status m' = Alive \<and> mb_Incarnation m' = up_Incarnation u)
       else mb_Incarnation m' = mb_Incarnation m
         \<and> (mb_Status m' = mb_Status m \<or> (up_Status u = Suspected \<and> en \<and> mb_Status m' = Suspected)))"
  using assms ProcessSuspicion_lookup [of r "up_NodeID u" "up_Incarnation u" now w "NodeID_String (up_NodeID u)"]
    ClearSuspect_lookup [of "up_NodeID u" "up_Incarnation u" w "NodeID_String (up_NodeID u)"]
  by (cases "up_Status u") (fastforce simp: notify_def Let_def)+

section \<open>Properties\<close>

text \<open>
  C12: The gossip detector merges an update and treats the sender of a heartbeat exactly as
  the ping/ack detector merges an update and treats the sender of a ping, although the two
  are written differently: with the same suspicion flag the resulting states are equal.
\<close>

theorem detectors_merge_alike:
  "GM_processUpdate u r now (w\<lparr>gossip := (gossip w)\<lparr>gm_enableSuspicion := en\<rparr>,
       pingack := (pingack w)\<lparr>pa_enableSuspicion := en\<rparr>\<rparr>)
    = PA_processUpdate u r now (w\<lparr>gossip := (gossip w)\<lparr>gm_enableSuspicion := en\<rparr>,
       pingack := (pingack w)\<lparr>pa_enableSuspicion := en\<rparr>\<rparr>)
   \<and> GM_note_sender msg now ml = PA_note_sender msg now ml"
  by (simp add: GM_processUpdate_eq PA_processUpdate_eq GM_note_sender_eq)

text \<open>A node that runs both managers over the sample state.\<close>

definition sample_node :: "int64 \<Rightarrow> node" where
  "sample_node quorum = \<lparr>membership = membership (sample_shared quorum),
     network = network (sample_shared quorum), suspicion = suspicion (sample_shared quorum),
     spawned = [], pingack = NewPingAckManager, gossip = NewGossipManager, mode = PingAckMode\<rparr>"

lemma sample_node_simps [simp]:
  "membership (sample_node q) = membership (sample_shared q)"
  "network (sample_node q) = network (sample_shared q)"
  "suspicion (sample_node q) = suspicion (sample_shared q)"
  "spawned (sample_node q) = []" "pingack (sample_node q) = NewPingAckManager"
  "gossip (sample_node q) = NewGossipManager" "mode (sample_node q) = PingAckMode"
  by (simp_all add: sample_node_def)

definition update_of :: "int64 \<Rightarrow> MemberStatus \<Rightarrow> int32 \<Rightarrow> MemberUpdate" where
  "update_of p st i = \<lparr>up_NodeID = node_at p, up_Incarnation = i, up_Status = st, up_Timestamp = 0\<rparr>"

lemma update_of_simps [simp]:
  "up_NodeID (update_of p st i) = node_at p" "up_Status (update_of p st i) = st"
  "up_Incarnation (update_of p st i) = i"
  by (simp_all add: update_of_def)

text \<open>
  C11: An update about a known member other than the local node gives that member the
  newer of the two incarnations and the merged status: the update's status if it is newer,
  at the same incarnation the outcome of a suspicion or its refutation, otherwise the old
  status. Besides that, only a live update of the same incarnation can revive the member,
  and only a suspicion (with suspicion enabled) can suspect it; no other entry changes.
\<close>

theorem update_of_known_member:
  assumes "up_NodeID u \<noteq> ml_LocalNode (membership w)"
    "lookup (membership w) (NodeID_String (up_NodeID u)) = Some m"
  shows "\<exists>m'. lookup (membership (PA_processUpdate u r now w)) (NodeID_String (up_NodeID u)) = Some m'
    \<and> mb_ID m' = mb_ID m \<and> mb_Incarnation m' = merged_incarnation u m
    \<and> (mb_Status m' = merged_status u m
       \<or> (up_Status u = Alive \<and> up_Incarnation u = mb_Incarnation m \<and> mb_Status m' = Alive)
       \<or> (up_Status u = Suspected \<and> pa_enableSuspicion (pingack w) \<and> mb_Status m' = Suspected))
    \<and> (k = NodeID_String (up_NodeID u)
       \<or> lookup (membership (PA_processUpdate u r now w)) k = lookup (membership w) k)"
proof -
  let ?en = "pa_enableSuspicion (pingack w)"
  obtain w1 where m: "lookup (membership w1) (NodeID_String (up_NodeID u))
      = Some (fst (PA_merge ?en u now m))"
    and others: "\<And>k. k \<noteq> NodeID_String (up_NodeID u) \<Longrightarrow>
      lookup (membership w1) k = lookup (membership w) k"
    and eq: "PA_processUpdate u r now w
      = notify (\<lambda>r t i. ProcessSuspicion r t i now) ClearSuspect ?en u r w1"
    using apply_update_known [OF assms] unfolding PA_processUpdate_eq by metis
  have "sint (merged_incarnation u m) \<le> sint (up_Incarnation u) \<Longrightarrow>
      merged_incarnation u m = up_Incarnation u"
    by (auto simp: merged_incarnation_def sint_inject [symmetric])
  moreover have "up_Status u = Alive \<Longrightarrow> merged_incarnation u m = up_Incarnation u \<Longrightarrow>
      merged_status u m = Alive \<or> up_Incarnation u = mb_Incarnation m"
    by (auto simp: merged_incarnation_def merged_status_def split: if_splits)
  moreover have "k = NodeID_String (up_NodeID u)
      \<or> lookup (membership (PA_processUpdate u r now w)) k = lookup (membership w) k"
    using notify_lookup_others [of k u now ?en r w1] others [of k] unfolding eq by metis
  ultimately show ?thesis
    using notify_lookup_target [OF m, where en = ?en and r = r and now = now]
    unfolding eq by (fastforce simp: PA_merge_status split: if_splits)
qed

theorem update_of_known_member_witness:
  "map_option mb_Status (lookup (membership (PA_processUpdate (update_of 1 Failed 2) (node_at 2) 7
    (sample_node 1))) (NodeID_String (node_at 1))) = Some Failed"
  using update_of_known_member [of "update_of 1 Failed 2" "sample_node 1" "alive_at 1" "node_at 2" 7 "[]"]
  by (auto simp: merged_status_def)

text \<open>
  A stale update (an incarnation below the stored one) that announces a live or failed
  state changes nothing in the membership list, and an update about an unknown node enters
  it as announced.
\<close>

theorem stale_and_new_updates:
  assumes "up_NodeID u \<noteq> ml_LocalNode (membership w)"
  shows "case lookup (membership w) (NodeID_String (up_NodeID u)) of
      Some m \<Rightarrow> sint (up_Incarnation u) < sint (mb_Incarnation m) \<and> up_Status u \<noteq> Suspected
        \<longrightarrow> membership (PA_processUpdate u r now w) = membership w
    | None \<Rightarrow> PA_processUpdate u r now w = w\<lparr>membership := AddRecentUpdate now (PA_new_member u now)
        (store (NodeID_String (up_NodeID u)) (PA_new_member u now) (membership w))\<rparr>"
  using assms
  by (auto simp: PA_processUpdate_eq apply_update_def notify_def PA_merge_def ClearSuspect_def
      clear_member_def store_same Let_def split: option.split)

theorem stale_and_new_updates_witness:
  "lookup (membership (PA_processUpdate (update_of 5 Suspected 3) (node_at 1) 7 (sample_node 1)))
      (NodeID_String (node_at 5))
    = Some (zero_Member\<lparr>mb_ID := node_at 5, mb_Incarnation := 3, mb_Status := Suspected,
        mb_LastHeartbeat := 7, mb_SuspicionStart := 7\<rparr>)"
proof -
  have "lookup (membership (sample_node 1)) (NodeID_String (node_at 5)) = None"
    by (simp add: sample_shared_def)
  with stale_and_new_updates [of "update_of 5 Suspected 3" "sample_node 1" "node_at 1" 7]
  show ?thesis by (simp add: PA_new_member_def)
qed

text \<open>
  A failure that is announced at the incarnation a peer already stores is lost: the
  peer's state does not change at all. The detectors announce every failure they detect
  with the member's stored incarnation.
\<close>

theorem failure_update_ignored:
  assumes "up_NodeID u \<noteq> ml_LocalNode (membership w)" "up_Status u = Failed"
    "lookup (membership w) (NodeID_String (up_NodeID u)) = Some m"
    "up_Incarnation u = mb_Incarnation m"
  shows "PA_processUpdate u r now w = w"
  using assms
  by (simp add: PA_processUpdate_eq apply_update_def notify_def PA_merge_def store_same Let_def)

theorem failure_update_ignored_witness:
  "PA_processUpdate (update_of 1 Failed 0) (node_at 2) 7 (sample_node 1) = sample_node 1"
  by (rule failure_update_ignored [where m = "alive_at 1"]) simp_all

text \<open>
  A failed member is revived by a live update of the very incarnation at which it
  failed, unless a suspicion of a newer incarnation is on file.
\<close>

theorem failed_member_revived:
  assumes "up_NodeID u \<noteq> ml_LocalNode (membership w)" "up_Status u = Alive"
    "lookup (membership w) (NodeID_String (up_NodeID u)) = Some m" "mb_Status m = Failed"
    "up_Incarnation u = mb_Incarnation m"
    "case map_of (sm_entries (suspicion w)) (NodeID_String (up_NodeID u)) of None \<Rightarrow> True
     | Some e \<Rightarrow> sint (se_incarnation e) \<le> sint (up_Incarnation u)"
  shows "lookup (membership (PA_processUpdate u r now w)) (NodeID_String (up_NodeID u))
    = Some (m\<lparr>mb_Status := Alive\<rparr>)"
  using assms
  by (auto simp: PA_processUpdate_eq apply_update_def notify_def PA_merge_def store_same Let_def
      ClearSuspect_def clear_member_def split: option.splits)

theorem failed_member_revived_witness:
  "lookup (membership (PA_processUpdate (update_of 1 Alive 0) (node_at 2) 7
      ((sample_node 1)\<lparr>membership := store (NodeID_String (node_at 1))
        ((alive_at 1)\<lparr>mb_Status := Failed\<rparr>) (membership (sample_node 1))\<rparr>)))
      (NodeID_String (node_at 1)) = Some (alive_at 1)"
  by (subst failed_member_revived [where u = "update_of 1 Alive 0" and
      m = "(alive_at 1)\<lparr>mb_Status := Failed\<rparr>", simplified])
    (simp_all add: alive_at_def zero_Member_def)

section \<open>The failure checks\<close>

lemma report_suspect_lookup:
  assumes "lookup (membership w) (member_key s) = Some s" "mb_Status s = Suspected"
    "mb_SuspicionStart s = now"
  shows "lookup (membership (report_suspect now s w)) k = lookup (membership w) k"
proof -
  have "s\<lparr>mb_Status := Suspected, mb_SuspicionStart := now\<rparr> = s" using assms by simp
  then show ?thesis
    using assms(1) ProcessSuspicion_lookup [of "ml_LocalNode (membership w)" "mb_ID s"
      "mb_Incarnation s" now "w\<lparr>membership := AddRecentUpdateSafe now s (membership w)\<rparr>" k]
    by (auto simp: report_suspect_def member_key_def Let_def)
qed

lemma report_suspects_lookup:
  assumes "list_all (\<lambda>s. lookup (membership w) (member_key s) = Some s \<and> mb_Status s = Suspected
    \<and> mb_SuspicionStart s = now) ss"
  shows "lookup (membership (fold (report_suspect now) ss w)) k = lookup (membership w) k"
  using assms
proof (induction ss arbitrary: w)
  case Nil
  then show ?case by simp
next
  case (Cons s ss)
  then have "lookup (membership (report_suspect now s w)) k = lookup (membership w) k" for k
    by (intro report_suspect_lookup) simp_all
  with Cons show ?case by simp
qed

lemma recent_updates_fold_members [simp]:
  "ml_Members (fold (\<lambda>m. AddRecentUpdateSafe now (f m)) ms ml) = ml_Members ml"
  by (induction ms arbitrary: ml) simp_all

text \<open>
  C23: A pass of the ping/ack failure check removes exactly the members, other than the
  local node, that have been suspected for longer than the suspicion timeout; every other
  entry keeps its value.
\<close>

theorem PA_checkFailures_removes:
  assumes "wf_ml (membership w)"
  shows "lookup (membership (PA_checkFailures now w)) k =
    (case lookup (membership w) k of None \<Rightarrow> None
     | Some m \<Rightarrow> if k \<noteq> local_key (membership w) \<and> mb_Status m = Suspected
         \<and> sint (to_SuspicionTimeout (pa_timeouts (pingack w)))
           < sint (time_Sub now (mb_SuspicionStart m))
       then None else Some m)"
  using lookup_removed [OF assms, of "membership w" "\<lambda>_ m. m" "\<lambda>k m. k \<noteq> local_key (membership w)
      \<and> mb_Status m = Suspected \<and> sint (to_SuspicionTimeout (pa_timeouts (pingack w)))
        < sint (time_Sub now (mb_SuspicionStart m))" k]
  by (simp add: PA_checkFailures_def Let_def local_key_def option.map_ident)

lemma wf_sample [simp]: "wf_ml (membership (sample_shared q))"
  by (simp add: wf_ml_def sample_shared_def keyed_def member_key_def)

theorem PA_checkFailures_witness:
  "let w = (sample_node 1)\<lparr>membership := store (NodeID_String (node_at 1))
      ((alive_at 1)\<lparr>mb_Status := Suspected, mb_SuspicionStart := 7\<rparr>) (membership (sample_node 1))\<rparr>
   in lookup (membership (PA_checkFailures 1600000000 w)) (NodeID_String (node_at 1)) = None"
proof -
  let ?w = "(sample_node 1)\<lparr>membership := store (NodeID_String (node_at 1))
      ((alive_at 1)\<lparr>mb_Status := Suspected, mb_SuspicionStart := 7\<rparr>) (membership (sample_node 1))\<rparr>"
  have "wf_ml (membership ?w)" by (simp add: wf_ml_store member_key_def)
  from PA_checkFailures_removes [OF this, of 1600000000 "NodeID_String (node_at 1)"] show ?thesis
    by (simp add: sint_time_Sub NewPingAckManager_def OptimalTimeoutConfig_def Millisecond_def
        local_key_def)
qed

lemma GM_check_lookup:
  assumes "wf_ml (membership w)"
  shows "lookup (membership (GM_checkFailures now w)) k =
    (let en = gm_enableSuspicion (gossip w); to = gm_timeouts (gossip w) in
     case lookup (membership w) k of None \<Rightarrow> None
     | Some m \<Rightarrow> if k = local_key (membership w) then Some m
         else if removable en to now m then None
         else if silent to now m \<and> en then Some (suspect_now now m) else Some m)"
proof -
  let ?en = "gm_enableSuspicion (gossip w)" and ?to = "gm_timeouts (gossip w)"
  let ?lk = "NodeID_String (ml_LocalNode (membership w))" and ?ms = "ml_Members (membership w)"
  let ?f = "\<lambda>k m. if k \<noteq> ?lk \<and> silent ?to now m \<and> ?en then suspect_now now m else m"
  let ?scan = "failure_scan ?en ?to now ?lk ?ms"
  let ?ml = "fold (\<lambda>m. discard (NodeID_String (mb_ID m))) (snd (snd ?scan))
    ((membership w)\<lparr>ml_Members := fst ?scan\<rparr>)"
  have removed: "lookup ?ml k = (case lookup (membership w) k of None \<Rightarrow> None
      | Some m \<Rightarrow> if k \<noteq> ?lk \<and> removable ?en ?to now m then None else Some (?f k m))" for k
    unfolding failure_scan_eq fst_conv snd_conv
    by (rule lookup_removed [OF assms]) simp
  have "lookup ?ml (member_key s) = Some s \<and> mb_Status s = Suspected \<and> mb_SuspicionStart s = now"
    if new: "s \<in> set (fst (snd ?scan))" for s
  proof -
    obtain key m where m: "s = suspect_now now m" "(key, m) \<in> set ?ms" "key \<noteq> ?lk"
      "silent ?to now m" ?en
      using new unfolding failure_scan_eq fst_conv snd_conv by auto
    have key: "key = member_key m"
      using m(2) assms unfolding wf_ml_def by (blast intro: keyed_key)
    have look: "lookup (membership w) key = Some m"
      using m(2) assms unfolding wf_ml_def by (simp add: keyed_update_iff_mem)
    have "\<not> removable ?en ?to now m"
      using m by (auto simp: silent_def removable_def)
    with look m removed [of key] show ?thesis
      by (simp add: suspect_now_def key [symmetric])
  qed
  then have "list_all (\<lambda>s. lookup ?ml (member_key s) = Some s \<and> mb_Status s = Suspected
      \<and> mb_SuspicionStart s = now) (fst (snd ?scan))"
    by (simp add: list_all_iff)
  then have "lookup (membership (fold (report_suspect now) (fst (snd ?scan)) (w\<lparr>membership := ?ml\<rparr>))) k
      = lookup ?ml k"
    by (subst report_suspects_lookup) simp_all
  then have "lookup (membership (GM_checkFailures now w)) k = lookup ?ml k"
    by (simp add: GM_checkFailures_def Let_def split_def)
  then show ?thesis
    unfolding removed by (auto simp: local_key_def Let_def split: option.split)
qed

text \<open>
  C22: A pass of the gossip failure check leaves the local entry alone and decides every
  other one by its state and age: silent live members become suspected from now on (with
  suspicion) or are removed (without), suspected and failed ones are removed after their
  times, and all others keep their value.
\<close>

theorem GM_checkFailures_fate:
  assumes "wf_ml (membership w)"
  shows "lookup (membership (GM_checkFailures now w)) k =
    (let en = gm_enableSuspicion (gossip w); to = gm_timeouts (gossip w) in
     case lookup (membership w) k of None \<Rightarrow> None
     | Some m \<Rightarrow> if k = local_key (membership w) then Some m
         else if removable en to now m then None
         else if silent to now m \<and> en then Some (suspect_now now m) else Some m)"
  using assms by (rule GM_check_lookup)

theorem GM_checkFailures_witness:
  "lookup (membership (GM_checkFailures 3000000000 (GM_SetSuspicion True (sample_node 1))))
      (NodeID_String (node_at 1)) = Some (suspect_now 3000000000 (alive_at 1))"
proof -
  have "wf_ml (membership (GM_SetSuspicion True (sample_node 1)))"
    by (simp add: GM_SetSuspicion_def)
  from GM_checkFailures_fate [OF this, of 3000000000 "NodeID_String (node_at 1)"] show ?thesis
    by (simp add: GM_SetSuspicion_def local_key_def removable_def silent_def sint_time_Sub
        suspect_threshold_def NewGossipManager_def OptimalTimeoutConfig_def Second_def alive_at_def
        zero_Member_def Let_def)
qed

text \<open>
  Whatever the timeouts are (zero or negative ones included), the gossip detector's
  suspicion threshold is positive, and a suspected member is removed only after a longer
  time than the one that makes it suspected, as long as the threshold leaves room for a
  second below the largest duration.
\<close>

theorem thresholds_ordered:
  assumes "sint (suspect_threshold to) < 2 ^ 63 - 1000000000"
  shows "0 < sint (suspect_threshold to) \<and> sint (suspect_threshold to) < sint (confirm_threshold to)"
proof -
  have "sint Second = 1000000000" by (simp add: Second_def)
  moreover from this have "sint (suspect_threshold to + Second) = sint (suspect_threshold to) + 1000000000"
    using assms suspect_threshold_pos [of to] by (subst sint_add_64) simp_all
  ultimately show ?thesis
    using suspect_threshold_pos [of to] by (simp add: confirm_threshold_def Let_def)
qed

theorem thresholds_ordered_witness:
  "sint (suspect_threshold (OptimalTimeoutConfig\<lparr>to_CleanupTimeout := 0\<rparr>))
    < sint (confirm_threshold (OptimalTimeoutConfig\<lparr>to_CleanupTimeout := 0\<rparr>))"
  by (rule conjunct2 [OF thresholds_ordered])
    (simp add: suspect_threshold_def OptimalTimeoutConfig_def Second_def)

section \<open>The gossip round\<close>

lemma send_each_sent:
  "nl_sent (fold (\<lambda>m n. snd (Send now msg (f m) n)) ms n)
    = nl_sent n @ map (\<lambda>m. (f m, stamped now msg)) (filter (\<lambda>m. nl_conn n (f m) = None) ms)"
  by (induction ms arbitrary: n) (auto simp: Send_sent)

definition heartbeat :: "MembershipList \<Rightarrow> MemberUpdate list \<Rightarrow> time \<Rightarrow> Message" where
  "heartbeat ml updates now = (message Heartbeat)\<lparr>msg_Sender := ml_LocalNode ml,
     msg_Incarnation := ml_Incarnation ml, msg_Members := updates, msg_Timestamp := time_Unix now\<rparr>"

lemma random_targets:
  assumes "wf_ml ml" "0 \<le> n"
  obtains ts where "GetRandomMembers rnd n [NodeID_String (ml_LocalNode ml)] ml = Some ts"
    "distinct ts" "length ts = min (nat n) (length (candidates [local_key ml] ml))"
    "list_all (\<lambda>m. lookup ml (member_key m) = Some m \<and> mb_Status m = Alive
      \<and> mb_ID m \<noteq> ml_LocalNode ml) ts"
proof -
  let ?cs = "candidates [NodeID_String (ml_LocalNode ml)] ml"
  let ?ts = "take (nat n) (shuffle rnd ?cs)"
  have "distinct (shuffle rnd ?cs)"
    using distinct_candidates [OF assms(1)] by (metis mset_eq_imp_distinct_iff mset_shuffle)
  then have "distinct ?ts" by (rule distinct_take)
  moreover have "list_all (\<lambda>m. lookup ml (member_key m) = Some m \<and> mb_Status m = Alive
      \<and> mb_ID m \<noteq> ml_LocalNode ml) ?ts"
    using candidates_iff [OF assms(1)] set_take_subset [of _ "shuffle rnd ?cs"]
    by (fastforce simp: list_all_iff)
  moreover have "length ?ts = min (nat n) (length (candidates [local_key ml] ml))"
    by (simp add: local_key_def min.commute)
  ultimately show ?thesis
    using GetRandomMembers_take [OF assms(2)] by (intro that [of ?ts])
qed

text \<open>
  C26: A gossip round never panics and sends one and the same heartbeat, with the local
  identity and incarnation and at most ten updates, to as many distinct live peers as the
  fanout asks for (or all there are), whatever the random choices are; it changes no member.
\<close>

theorem gossip_round_sends:
  assumes "wf_ml (membership w)" "0 \<le> sint (gm_fanout (gossip w))"
  shows "\<exists>w' targets updates. GM_performGossipRound rnd1 rnd2 now w = Some w'
    \<and> distinct targets
    \<and> length targets = min (nat (sint (gm_fanout (gossip w))))
        (length (candidates [local_key (membership w)] (membership w)))
    \<and> list_all (\<lambda>m. lookup (membership w) (member_key m) = Some m \<and> mb_Status m = Alive
        \<and> mb_ID m \<noteq> ml_LocalNode (membership w)) targets
    \<and> length updates \<le> 10
    \<and> nl_sent (network w') = nl_sent (network w) @
        map (\<lambda>m. (NodeID_Address (mb_ID m), stamped now (heartbeat (membership w) updates now)))
          (filter (\<lambda>m. nl_conn (network w) (NodeID_Address (mb_ID m)) = None) targets)
    \<and> ml_Members (membership w') = ml_Members (membership w)"
proof -
  let ?ml = "membership w" and ?lk = "NodeID_String (ml_LocalNode (membership w))"
  obtain ts where ts: "GetRandomMembers rnd1 (sint (gm_fanout (gossip w))) [?lk] ?ml = Some ts" "distinct ts"
      "length ts = min (nat (sint (gm_fanout (gossip w)))) (length (candidates [local_key ?ml] ?ml))"
      "list_all (\<lambda>m. lookup ?ml (member_key m) = Some m \<and> mb_Status m = Alive
        \<and> mb_ID m \<noteq> ml_LocalNode ?ml) ts"
    using random_targets [OF assms] .
  let ?ml1 = "case lookup ?ml ?lk of None \<Rightarrow> ?ml | Some s \<Rightarrow> AddRecentUpdateSafe now s ?ml"
  let ?ml2 = "fold (AddRecentUpdateSafe now) ts ?ml1"
  obtain es where es: "GetRandomMembers rnd2 2 [?lk] ?ml2 = Some es"
    using GetRandomMembers_take [of 2 rnd2 "[?lk]" ?ml2] by auto
  obtain us ml3 where us: "GetRecentUpdates now 10 (fold (AddRecentUpdateSafe now) es ?ml2) = Some (us, ml3)"
    and "length us \<le> 10" "ml_Members ml3 = ml_Members ?ml" "ml_LocalNode ml3 = ml_LocalNode ?ml"
      "ml_Incarnation ml3 = ml_Incarnation ?ml"
    by (auto simp: GetRecentUpdates_take split: option.split)
  then show ?thesis
  proof (cases "ts = []")
    case True
    with ts(1) have "GM_performGossipRound rnd1 rnd2 now w = Some w"
      by (simp add: GM_performGossipRound_def Let_def)
    with True ts(3) show ?thesis
      by (intro exI [of _ w] exI [of _ "[] :: Member list"] exI [of _ "[] :: MemberUpdate list"]) simp
  next
    case False
    let ?w' = "w\<lparr>membership := ml3, network := fold (\<lambda>m n. snd (Send now (heartbeat ml3 us now)
      (NodeID_Address (mb_ID m)) n)) ts (network w)\<rparr>"
    have run: "GM_performGossipRound rnd1 rnd2 now w = Some ?w'"
      using False ts(1) es us by (simp add: GM_performGossipRound_def heartbeat_def Let_def)
    have "heartbeat ml3 us now = heartbeat ?ml us now"
      using \<open>ml_LocalNode ml3 = _\<close> \<open>ml_Incarnation ml3 = _\<close> by (simp add: heartbeat_def)
    then show ?thesis
      using ts(2-4) \<open>length us \<le> 10\<close> \<open>ml_Members ml3 = _\<close> run
      by (intro exI [of _ ?w'] exI [of _ ts] exI [of _ us]) (simp add: send_each_sent)
  qed
qed

theorem gossip_round_witness:
  "\<exists>w'. GM_performGossipRound (\<lambda>_. 0) (\<lambda>i. i) 7 (sample_node 1) = Some w'
    \<and> ml_Members (membership w') = ml_Members (membership (sample_node 1))"
  using gossip_round_sends [of "sample_node 1" "\<lambda>_. 0" "\<lambda>i. i" 7] by (auto simp: NewGossipManager_def)

end
