(* ===== verification/Detector.thy ===== *)
theory Detector
  imports Controller Gossip_Keeps SuspicionSpec
begin

text \<open>
  The interface through which the controller and the control server use a detector, as the
  locale \<open>detector\<close>: the suspicion switch, joining, leaving and the handlers that \<^verbatim>\<open>Start\<close>
  registers. The two managers of \<^verbatim>\<open>src/detectors/\<close> both provide it; what the controller
  relies on is proved once.
\<close>

section \<open>What the join handlers do\<close>

definition join_effect :: "Message \<Rightarrow> time \<Rightarrow> node \<Rightarrow> node" where
  "join_effect msg now w =
     (let (ml, members) = join_members msg now (membership w);
          response = (message JoinResponse)\<lparr>msg_Sender := ml_LocalNode ml,
            msg_Incarnation := ml_Incarnation ml, msg_Members := members\<rparr>
      in w\<lparr>membership := ml,
           network := snd (Send now response (NodeID_Address (msg_Sender msg)) (network w))\<rparr>)"

definition join_response_effect :: "Message \<Rightarrow> time \<Rightarrow> node \<Rightarrow> node" where
  "join_response_effect msg now w =
     (let (ml, clears) = fold (join_response_step now) (msg_Members msg) (membership w, [])
      in fold (\<lambda>u. ClearSuspect (up_NodeID u) (up_Incarnation u)) clears
           (w\<lparr>membership := ml\<rparr>))"

definition joined_member :: "Message \<Rightarrow> time \<Rightarrow> Member" where
  "joined_member msg now = zero_Member\<lparr>mb_ID := msg_Sender msg,
     mb_Incarnation := msg_Incarnation msg, mb_Status := Alive, mb_LastHeartbeat := now\<rparr>"

lemma old_entries_iff:
  assumes "wf_ml ml"
  shows "NodeID_String n \<in> set (old_entries j ml) \<longleftrightarrow> lookup ml (NodeID_String n) \<noteq> None
    \<and> NodeID_Address n = NodeID_Address j \<and> nid_Timestamp n \<noteq> nid_Timestamp j"
proof -
  have mem: "lookup ml (NodeID_String n) = Some m \<longleftrightarrow> (NodeID_String n, m) \<in> set (ml_Members ml)" for m
    using assms by (intro keyed_update_iff_mem [of member_key]) (simp add: wf_ml_def)
  have "(NodeID_String n, m) \<in> set (ml_Members ml) \<Longrightarrow> mb_ID m = n" for m
    using assms unfolding mem [symmetric] by (rule wf_ml_lookup_id)
  then show ?thesis
    unfolding old_entries_def using mem by force
qed

lemma join_members_lookup:
  assumes "wf_ml ml"
  shows "lookup (fst (join_members msg now ml)) (NodeID_String n) =
    (if n = msg_Sender msg then Some (joined_member msg now)
     else if NodeID_Address n = NodeID_Address (msg_Sender msg) then None
     else lookup ml (NodeID_String n))"
proof -
  have "nid_Timestamp n \<noteq> nid_Timestamp (msg_Sender msg)"
    if "NodeID_Address n = NodeID_Address (msg_Sender msg)" "n \<noteq> msg_Sender msg"
    using that by (cases n; cases "msg_Sender msg") (simp add: address_inject)
  then show ?thesis
    using old_entries_iff [OF assms, of n "msg_Sender msg"]
    by (auto simp: join_members_def Let_def split_def remove_old_lookup joined_member_def)
qed

text \<open>The response carries the joiner's view: every member of the introducer, once.\<close>

lemma join_members_response:
  "snd (join_members msg now ml) = membership_updates now (fst (join_members msg now ml))"
  by (simp add: join_members_def membership_updates_def Let_def split_def)

lemma membership_updates_iff:
  assumes "wf_ml ml"
  shows "(\<exists>u \<in> set (membership_updates now ml). up_NodeID u = n \<and> up_Incarnation u = i
      \<and> up_Status u = s)
    \<longleftrightarrow> (\<exists>m. lookup ml (NodeID_String n) = Some m \<and> mb_Incarnation m = i \<and> mb_Status m = s)"
proof -
  have mem: "lookup ml k = Some m \<longleftrightarrow> (k, m) \<in> set (ml_Members ml)" for k m
    using assms by (intro keyed_update_iff_mem [of member_key]) (simp add: wf_ml_def)
  have key: "(k, m) \<in> set (ml_Members ml) \<Longrightarrow> k = NodeID_String (mb_ID m)" for k m
    using assms keyed_key [of member_key] by (simp add: wf_ml_def member_key_def)
  have "(\<exists>u \<in> set (membership_updates now ml). up_NodeID u = n \<and> up_Incarnation u = i
      \<and> up_Status u = s) \<longleftrightarrow> (\<exists>k m. (k, m) \<in> set (ml_Members ml) \<and> mb_ID m = n
        \<and> mb_Incarnation m = i \<and> mb_Status m = s)"
    by (force simp: membership_updates_def)
  also have "\<dots> \<longleftrightarrow> (\<exists>m. (NodeID_String n, m) \<in> set (ml_Members ml)
        \<and> mb_Incarnation m = i \<and> mb_Status m = s)"
    using key by (metis string_inject)
  finally show ?thesis unfolding mem .
qed

text \<open>After the response, the joiner knows every member it lists, at least as recently.\<close>

definition covers :: "MemberUpdate \<Rightarrow> MembershipList \<Rightarrow> bool" where
  "covers u ml \<longleftrightarrow> (\<exists>m. lookup ml (NodeID_String (up_NodeID u)) = Some m
     \<and> sint (up_Incarnation u) \<le> sint (mb_Incarnation m))"

lemma covers_grow: "covers u ml \<Longrightarrow> incs_grow ml ml' \<Longrightarrow> covers u ml'"
  unfolding covers_def incs_grow_def by (meson order_trans)

lemma join_response_step_covers:
  "up_NodeID u \<noteq> ml_LocalNode ml \<Longrightarrow> covers u (fst (join_response_step now u (ml, cs)))"
  by (auto simp: join_response_step_def covers_def Let_def split: option.split)

lemma join_response_covers:
  assumes "u \<in> set us" "up_NodeID u \<noteq> ml_LocalNode ml"
  shows "covers u (fst (fold (join_response_step now) us (ml, cs)))"
  using assms
proof (induction us arbitrary: ml cs)
  case Nil
  then show ?case by simp
next
  case (Cons v us)
  obtain ml1 cs1 where step: "join_response_step now v (ml, cs) = (ml1, cs1)" by fastforce
  have local: "ml_LocalNode ml1 = ml_LocalNode ml" using step by (rule join_response_step_keeps)
  show ?case
  proof (cases "u \<in> set us")
    case True
    with Cons step local show ?thesis by simp
  next
    case False
    with Cons.prems have "covers u ml1"
      using join_response_step_covers [of u ml now cs] step by simp
    moreover have "incs_grow ml1 (fst (fold (join_response_step now) us (ml1, cs1)))"
      using jr.loop_grows [of "(ml1, cs1)" now us] by (simp add: ml_rel_def)
    ultimately show ?thesis using step covers_grow by simp
  qed
qed

lemma join_response_effect_covers:
  assumes "u \<in> set (msg_Members msg)" "up_NodeID u \<noteq> ml_LocalNode (membership w)"
  shows "covers u (membership (join_response_effect msg now w))"
proof -
  let ?r = "fold (join_response_step now) (msg_Members msg) (membership w, [])"
  have "grows (w\<lparr>membership := fst ?r\<rparr>) (join_response_effect msg now w)"
    using sv.clearing.loop_grows by (simp add: join_response_effect_def Let_def split_def)
  then have "incs_grow (fst ?r) (membership (join_response_effect msg now w))"
    by (simp add: grows_def)
  with join_response_covers [OF assms] show ?thesis by (rule covers_grow)
qed

section \<open>The interface\<close>

text \<open>
  \<open>registry\<close> is what \<^verbatim>\<open>Start\<close> registers, \<open>active\<close> the manager's flag. A manager drops every
  message but \<^verbatim>\<open>Leave\<close> while it is not active, and its join handlers have the effects above.
\<close>

locale detector =
  fixes registry :: "MessageType \<Rightarrow> Handler option"
    and active :: "node \<Rightarrow> bool"
    and set_suspicion :: "bool \<Rightarrow> node \<Rightarrow> node"
    and suspicion_enabled :: "node \<Rightarrow> bool"
    and join_group :: "string \<Rightarrow> time \<Rightarrow> node \<Rightarrow> string option \<times> node"
    and leave_group :: "time \<Rightarrow> node \<Rightarrow> node"
  assumes registry_join: "registry Join \<noteq> None" "registry JoinResponse \<noteq> None"
    and handle_inactive: "registry t = Some h \<Longrightarrow> t \<noteq> Leave \<Longrightarrow> \<not> active w
      \<Longrightarrow> run_handler h msg now w = Some w"
    and handle_join: "registry Join = Some h \<Longrightarrow> active w
      \<Longrightarrow> run_handler h msg now w = Some (join_effect msg now w)"
    and handle_response: "registry JoinResponse = Some h \<Longrightarrow> active w
      \<Longrightarrow> run_handler h msg now w = Some (join_response_effect msg now w)"
    and handle_leave: "registry Leave = Some h
      \<Longrightarrow> run_handler h msg now w = Some (w\<lparr>membership := leave_members msg now (membership w)\<rparr>)"
    and handle_keeps: "registry t = Some h \<Longrightarrow> run_handler h msg now w = Some w' \<Longrightarrow> keeps w w'"
    and switch_reads: "suspicion_enabled (set_suspicion b w) = b"
    and switch_frame: "membership (set_suspicion b w) = membership w"
      "network (set_suspicion b w) = network w" "suspicion (set_suspicion b w) = suspicion w"
      "active (set_suspicion b w) = active w"
    and join_without_introducer: "join_group [] now w = (None, w)"
    and join_sends: "a \<noteq> [] \<Longrightarrow> join_group a now w = (err, w') \<Longrightarrow>
      active w' \<and> membership w' = RefreshLocalNode now (membership w)
      \<and> network w' = snd (Send now ((message Join)\<lparr>msg_Sender := ml_LocalNode (membership w'),
          msg_Incarnation := ml_Incarnation (membership w')\<rparr>) a (network w))
      \<and> err = nl_conn (network w) a"
    and leave_stops: "\<not> active (leave_group now w)"
      "membership (leave_group now w) = membership w"
      "network (leave_group now w) = send_all now ((message Leave)\<lparr>
        msg_Sender := ml_LocalNode (membership w), msg_Incarnation := ml_Incarnation (membership w)\<rparr>)
        (other_addresses (membership w)) (network w)"
begin

text \<open>The handlers as the network layer runs them: a message without a handler is dropped.\<close>

definition handle :: "Message \<Rightarrow> time \<Rightarrow> node \<Rightarrow> node option" where
  "handle msg now w = (case registry (msg_Type msg) of None \<Rightarrow> Some w
     | Some h \<Rightarrow> run_handler h msg now w)"

lemma inactive_ignores: "\<not> active w \<Longrightarrow> msg_Type msg \<noteq> Leave \<Longrightarrow> handle msg now w = Some w"
  by (auto simp: handle_def handle_inactive split: option.split)

lemma left_is_deaf:
  "list_all (\<lambda>(msg, now). msg_Type msg \<noteq> Leave) ms \<Longrightarrow>
    fold (\<lambda>(msg, now) r. Option.bind r (handle msg now)) ms (Some (leave_group t w))
      = Some (leave_group t w)"
  by (induction ms) (auto simp: inactive_ignores leave_stops)

lemma rejoin_active: "a \<noteq> [] \<Longrightarrow> active (snd (join_group a now w))"
  using join_sends [of a now w] by (metis prod.collapse)

lemma handle_wf: "handle msg now w = Some w' \<Longrightarrow> wf_shared w \<Longrightarrow> wf_shared w'"
  by (auto simp: handle_def dest: handle_keeps keeps_wf split: option.splits)

text \<open>
  The introducer's side of a join: the joiner is a live member afterwards, other
  identities of its address are gone, and the response, which lists exactly the members
  that the introducer then has, is on its way.
\<close>

lemma introducer_side:
  assumes "active a" "wf_ml (membership a)" "msg_Type j = Join"
    "nl_conn (network a) (NodeID_Address (msg_Sender j)) = None"
  obtains a' r where "handle j now a = Some a'"
    "lookup (membership a') (NodeID_String (msg_Sender j)) = Some (joined_member j now)"
    "nl_sent (network a') = nl_sent (network a) @ [(NodeID_Address (msg_Sender j), r)]"
    "msg_Type r = JoinResponse"
    "\<And>n m. lookup (membership a') (NodeID_String n) = Some m \<Longrightarrow>
       \<exists>u \<in> set (msg_Members r). up_NodeID u = n \<and> up_Incarnation u = mb_Incarnation m
         \<and> up_Status u = mb_Status m"
proof -
  let ?ml = "fst (join_members j now (membership a))"
  let ?r = "(message JoinResponse)\<lparr>msg_Sender := ml_LocalNode ?ml,
    msg_Incarnation := ml_Incarnation ?ml, msg_Members := membership_updates now ?ml\<rparr>"
  have run: "handle j now a = Some (join_effect j now a)"
    using assms registry_join handle_join by (auto simp: handle_def)
  have eff: "membership (join_effect j now a) = ?ml"
    "nl_sent (network (join_effect j now a))
      = nl_sent (network a) @ [(NodeID_Address (msg_Sender j), stamped now ?r)]"
    using assms by (simp_all add: join_effect_def split_def Let_def Send_sent join_members_response)
  have wf: "wf_ml ?ml" using assms(2) by (rule join_members_keeps)
  show thesis
  proof (rule that [OF run _ eff(2)])
    show "lookup (membership (join_effect j now a)) (NodeID_String (msg_Sender j))
        = Some (joined_member j now)"
      using assms(2) by (simp add: eff join_members_lookup)
    show "msg_Type (stamped now ?r) = JoinResponse" by (simp add: message_def)
    show "\<exists>u \<in> set (msg_Members (stamped now ?r)). up_NodeID u = n
        \<and> up_Incarnation u = mb_Incarnation m \<and> up_Status u = mb_Status m"
      if "lookup (membership (join_effect j now a)) (NodeID_String n) = Some m" for n m
      using that membership_updates_iff [OF wf, of now n "mb_Incarnation m" "mb_Status m"]
      by (auto simp: eff)
  qed
qed

lemma joiner_side:
  assumes "active b" "msg_Type r = JoinResponse" "u \<in> set (msg_Members r)"
    "up_NodeID u \<noteq> ml_LocalNode (membership b)"
  shows "\<exists>b'. handle r now b = Some b' \<and> covers u (membership b')"
  using assms registry_join handle_response join_response_effect_covers [OF assms(3,4)]
  by (fastforce simp: handle_def)

end

section \<open>The two detectors provide it\<close>

fun PA_registry :: "MessageType \<Rightarrow> Handler option" where
  "PA_registry Ping = Some P_handlePing"
| "PA_registry Ack = Some P_handleAck"
| "PA_registry IndirectPing = Some P_handleIndirectPing"
| "PA_registry IndirectAck = Some P_handleIndirectAck"
| "PA_registry Join = Some P_handleJoin"
| "PA_registry JoinResponse = Some P_handleJoinResponse"
| "PA_registry AliveMsg = Some P_handleAliveMessage"
| "PA_registry Suspect = Some P_handleSuspectMessage"
| "PA_registry Leave = Some P_handleLeave"
| "PA_registry _ = None"

fun GM_registry :: "MessageType \<Rightarrow> Handler option" where
  "GM_registry Heartbeat = Some G_handleHeartbeat"
| "GM_registry Suspect = Some G_handleSuspectMessage"
| "GM_registry AliveMsg = Some G_handleAliveMessage"
| "GM_registry Confirm = Some G_handleConfirmMessage"
| "GM_registry Join = Some G_handleJoin"
| "GM_registry JoinResponse = Some G_handleJoinResponse"
| "GM_registry Leave = Some G_handleLeave"
| "GM_registry _ = None"

text \<open>What \<^verbatim>\<open>Start\<close> leaves in the network layer's table.\<close>

lemma PA_Start_registers:
  "nl_handlers (network (PA_Start w)) = nl_handlers (network w) ++ PA_registry"
proof
  show "nl_handlers (network (PA_Start w)) t = (nl_handlers (network w) ++ PA_registry) t" for t
    by (cases t) (simp_all add: PA_Start_def RegisterHandler_def Let_def map_add_def)
qed

lemma GM_Start_registers:
  "\<not> gm_active (gossip w) \<Longrightarrow>
    nl_handlers (network (GM_Start w)) = nl_handlers (network w) ++ GM_registry"
proof
  show "nl_handlers (network (GM_Start w)) t = (nl_handlers (network w) ++ GM_registry) t"
    if "\<not> gm_active (gossip w)" for t
    using that by (cases t) (simp_all add: GM_Start_def RegisterHandler_def Let_def map_add_def)
qed

lemma run_handler_keeps: "run_handler h msg now w = Some w' \<Longrightarrow> keeps w w'"
  by (cases h) (auto intro: grows_keeps PA_handlePing_grows PA_handleAck_grows
      PA_handleIndirectPing_grows PA_handleIndirectAck_grows PA_handleJoin_keeps
      PA_handleJoinResponse_grows PA_handleAliveMessage_grows PA_handleSuspectMessage_grows
      PA_handleLeave_keeps GM_handleHeartbeat_grows GM_handleSuspectMessage_grows
      GM_handleAliveMessage_grows GM_handleConfirmMessage_grows GM_handleJoin_keeps
      GM_handleJoinResponse_grows GM_handleLeave_keeps)

lemmas inactive_defs = PA_handlePing_def PA_handleAck_def PA_handleIndirectPing_def
  PA_handleIndirectAck_def PA_handleJoin_def PA_handleJoinResponse_def PA_handleAliveMessage_def
  PA_handleSuspectMessage_def GM_handleHeartbeat_def GM_handleSuspectMessage_def
  GM_handleAliveMessage_def GM_handleConfirmMessage_def GM_handleJoin_def
  GM_handleJoinResponse_def

lemma PA_inactive:
  "PA_registry t = Some h \<Longrightarrow> t \<noteq> Leave \<Longrightarrow> \<not> pa_active (pingack w)
    \<Longrightarrow> run_handler h msg now w = Some w"
  by (cases t) (auto simp: inactive_defs)

lemma GM_inactive:
  "GM_registry t = Some h \<Longrightarrow> t \<noteq> Leave \<Longrightarrow> \<not> gm_active (gossip w)
    \<Longrightarrow> run_handler h msg now w = Some w"
  by (cases t) (auto simp: inactive_defs)

interpretation pa: detector PA_registry "\<lambda>w. pa_active (pingack w)" PA_SetSuspicion
    PA_SuspicionEnabled PA_JoinGroup PA_LeaveGroup
  by unfold_locales (auto simp: PA_inactive run_handler_keeps PA_handleJoin_def join_effect_def
      PA_handleJoinResponse_def join_response_effect_def PA_handleLeave_def PA_SetSuspicion_def
      PA_SuspicionEnabled_def PA_JoinGroup_def PA_LeaveGroup_def Let_def split_def Send_error)

interpretation gm: detector GM_registry "\<lambda>w. gm_active (gossip w)" GM_SetSuspicion
    GM_SuspicionEnabled GM_JoinGroup GM_LeaveGroup
  by unfold_locales (auto simp: GM_inactive run_handler_keeps GM_handleJoin_def join_effect_def
      GM_handleJoinResponse_def join_response_effect_def GM_handleLeave_def GM_SetSuspicion_def
      GM_SuspicionEnabled_def GM_JoinGroup_def GM_LeaveGroup_def Let_def split_def Send_error)

section \<open>The round trip of a join\<close>

text \<open>
  Over the interface: what the joiner sends, what the introducer keeps and answers, and
  what the joiner then knows.
\<close>

context detector begin

lemma join_round_trip:
  assumes "addr \<noteq> []" "nl_conn (network b) addr = None" "wf_ml (membership a)" "active a"
    "join_group addr t b = (err, b1)"
    "nl_conn (network a) (NodeID_Address (ml_LocalNode (membership b1))) = None"
  shows "\<exists>j r a1 b2. nl_sent (network b1) = nl_sent (network b) @ [(addr, j)]
    \<and> msg_Type j = Join \<and> handle j now a = Some a1
    \<and> lookup (membership a1) (local_key (membership b1)) = Some (joined_member j now)
    \<and> nl_sent (network a1) = nl_sent (network a)
        @ [(NodeID_Address (ml_LocalNode (membership b1)), r)]
    \<and> msg_Type r = JoinResponse \<and> handle r now' b1 = Some b2
    \<and> (\<forall>n m. n \<noteq> ml_LocalNode (membership b1) \<longrightarrow> lookup (membership a1) (NodeID_String n) = Some m
        \<longrightarrow> (\<exists>m'. lookup (membership b2) (NodeID_String n) = Some m'
              \<and> sint (mb_Incarnation m) \<le> sint (mb_Incarnation m')))"
proof -
  let ?j = "stamped t ((message Join)\<lparr>msg_Sender := ml_LocalNode (membership b1),
    msg_Incarnation := ml_Incarnation (membership b1)\<rparr>)"
  have b1: "active b1" "nl_sent (network b1) = nl_sent (network b) @ [(addr, ?j)]"
    using join_sends [OF assms(1,5)] assms(2) by (simp_all add: Send_sent)
  have "msg_Type ?j = Join" "msg_Sender ?j = ml_LocalNode (membership b1)"
    by (simp_all add: message_def)
  then obtain a1 r where a1: "handle ?j now a = Some a1"
    "lookup (membership a1) (NodeID_String (ml_LocalNode (membership b1))) = Some (joined_member ?j now)"
    "nl_sent (network a1) = nl_sent (network a) @ [(NodeID_Address (ml_LocalNode (membership b1)), r)]"
    "msg_Type r = JoinResponse"
    and listed: "\<And>n m. lookup (membership a1) (NodeID_String n) = Some m \<Longrightarrow>
       \<exists>u \<in> set (msg_Members r). up_NodeID u = n \<and> up_Incarnation u = mb_Incarnation m
         \<and> up_Status u = mb_Status m"
    using introducer_side [OF assms(4,3), of ?j now] assms(6) by auto
  obtain h where h: "registry JoinResponse = Some h" using registry_join by blast
  have "handle r now' b1 = Some (join_response_effect r now' b1)"
    using h handle_response [OF h b1(1)] a1(4) by (simp add: handle_def)
  moreover have "\<exists>m'. lookup (membership (join_response_effect r now' b1)) (NodeID_String n) = Some m'
      \<and> sint (mb_Incarnation m) \<le> sint (mb_Incarnation m')"
    if "n \<noteq> ml_LocalNode (membership b1)" "lookup (membership a1) (NodeID_String n) = Some m" for n m
    using listed [OF that(2)] join_response_effect_covers [of _ r b1 now'] that(1)
    by (fastforce simp: covers_def)
  ultimately show ?thesis
    using a1 b1(2) \<open>msg_Type ?j = Join\<close> unfolding local_key_def by blast
qed

end

section \<open>Properties\<close>

text \<open>
  C10: Whatever message is dispatched, the handlers that only learn (all but those of Join
  and Leave) lose no member and never take a member back to an older incarnation, and the
  local node stays who it is.
\<close>

theorem learning_is_monotone:
  assumes "run_handler h msg now w = Some w'"
    "h \<notin> {P_handleJoin, P_handleLeave, G_handleJoin, G_handleLeave}"
    "lookup (membership w) k = Some m"
  shows "\<exists>m'. lookup (membership w') k = Some m' \<and> sint (mb_Incarnation m) \<le> sint (mb_Incarnation m')
    \<and> ml_LocalNode (membership w') = ml_LocalNode (membership w)"
proof -
  have "grows w w'"
    using assms(1,2) by (cases h) (auto intro: PA_handlePing_grows PA_handleAck_grows
        PA_handleIndirectPing_grows PA_handleIndirectAck_grows PA_handleJoinResponse_grows
        PA_handleAliveMessage_grows PA_handleSuspectMessage_grows GM_handleHeartbeat_grows
        GM_handleSuspectMessage_grows GM_handleAliveMessage_grows GM_handleConfirmMessage_grows
        GM_handleJoinResponse_grows)
  then show ?thesis
    using incs_growD [OF _ assms(3)] by (auto simp: grows_def)
qed

theorem learning_is_monotone_witness:
  "\<exists>m'. lookup (membership (PA_handlePing ((message Ping)\<lparr>msg_Sender := node_at 1,
      msg_Members := [update_of 1 Failed (- 1)]\<rparr>) 7 (sample_node 1))) (NodeID_String (node_at 1)) = Some m'
    \<and> 0 \<le> sint (mb_Incarnation m')"
  using learning_is_monotone [of P_handlePing "(message Ping)\<lparr>msg_Sender := node_at 1,
      msg_Members := [update_of 1 Failed (- 1)]\<rparr>" 7 "sample_node 1" _ "NodeID_String (node_at 1)" "alive_at 1"]
  by fastforce


text \<open>A second node, at port 3, and its identity after it joins at 200 seconds Unix time.\<close>

definition joiner :: node where
  "joiner = NewController \<lparr>cfg_NodeID = node_at 3, cfg_IntroducerAddr = [], cfg_IsIntroducer = False,
     cfg_Mode = PingAckMode, cfg_Timeouts = DefaultTimeoutConfig\<rparr> (\<lambda>_. None) 5"

definition introducer :: node where
  "introducer = (sample_node 1)\<lparr>gossip := NewGossipManager\<lparr>gm_active := True\<rparr>\<rparr>"


text \<open>
  Joining through an introducer works in the same way with the gossip detector.
\<close>

theorem GM_join_round_trip:
  assumes "addr \<noteq> []" "nl_conn (network b) addr = None" "wf_ml (membership a)" "gm_active (gossip a)"
    "GM_JoinGroup addr t b = (err, b1)"
    "nl_conn (network a) (NodeID_Address (ml_LocalNode (membership b1))) = None"
  shows "\<exists>j r. nl_sent (network b1) = nl_sent (network b) @ [(addr, j)]
    \<and> lookup (membership (GM_handleJoin j now a)) (local_key (membership b1)) = Some (joined_member j now)
    \<and> nl_sent (network (GM_handleJoin j now a))
      = nl_sent (network a) @ [(NodeID_Address (ml_LocalNode (membership b1)), r)]
    \<and> (\<forall>n m. n \<noteq> ml_LocalNode (membership b1) \<longrightarrow>
        lookup (membership (GM_handleJoin j now a)) (NodeID_String n) = Some m \<longrightarrow>
        (\<exists>m'. lookup (membership (GM_handleJoinResponse r now' b1)) (NodeID_String n) = Some m'
          \<and> sint (mb_Incarnation m) \<le> sint (mb_Incarnation m')))"
proof -
  have run: "gm.handle j now w = Some (GM_handleJoin j now w)" if "msg_Type j = Join" for j now w
    using that by (simp add: gm.handle_def)
  have answer: "gm.handle r now w = Some (GM_handleJoinResponse r now w)"
    if "msg_Type r = JoinResponse" for r now w
    using that by (simp add: gm.handle_def)
  show ?thesis
    using gm.join_round_trip [OF assms, of now now'] run answer by fastforce
qed

theorem GM_join_round_trip_witness:
  "\<exists>j. lookup (membership (GM_handleJoin j 7 introducer))
      (local_key (membership (snd (GM_JoinGroup ''a:1'' 200 joiner)))) = Some (joined_member j 7)"
proof -
  have "\<exists>err. GM_JoinGroup ''a:1'' 200 joiner = (err, snd (GM_JoinGroup ''a:1'' 200 joiner))"
    by (metis prod.collapse)
  then obtain err where "GM_JoinGroup ''a:1'' 200 joiner = (err, snd (GM_JoinGroup ''a:1'' 200 joiner))" ..
  from GM_join_round_trip [OF _ _ _ _ this, of introducer 7 8] show ?thesis
    by (auto simp: joiner_def introducer_def NewController_def NewNetworkLayer_def
        sample_shared_def wf_sample [unfolded sample_shared_def, simplified])
qed

section \<open>Leaving and switching\<close>

definition mode_registry :: "DetectionMode \<Rightarrow> MessageType \<Rightarrow> Handler option" where
  "mode_registry m = (case m of PingAckMode \<Rightarrow> PA_registry | GossipMode \<Rightarrow> GM_registry)"

text \<open>
  C25: Leaving sends one Leave to every other member that can be reached and makes the
  detector deaf: of the handlers that the mode's manager registers, all but that of Leave
  then leave the whole state as it is.
\<close>

theorem leaving:
  assumes "mode_registry (mode w) t = Some h" "t \<noteq> Leave"
  shows "nl_sent (network (C_LeaveGroup now w)) = nl_sent (network w)
      @ map (\<lambda>a. (a, stamped now ((message Leave)\<lparr>msg_Sender := ml_LocalNode (membership w),
            msg_Incarnation := ml_Incarnation (membership w)\<rparr>)))
          (filter (\<lambda>a. nl_conn (network w) a = None) (other_addresses (membership w)))
    \<and> run_handler h msg now' (C_LeaveGroup now w) = Some (C_LeaveGroup now w)"
  using assms pa.leave_stops [of now w] gm.leave_stops [of now w]
  by (cases "mode w") (simp_all add: C_LeaveGroup_def mode_registry_def send_all_sent PA_inactive
      GM_inactive)

theorem leaving_witness:
  "run_handler P_handlePing (message Ping) 9 (C_LeaveGroup 7 (sample_node 1))
    = Some (C_LeaveGroup 7 (sample_node 1))
   \<and> map fst (nl_sent (network (C_LeaveGroup 7 (sample_node 1)))) = [''10.0.0.1:1'']"
proof -
  have "other_addresses (membership (sample_shared 1)) = [''10.0.0.1:1'']" by code_simp
  moreover have "nl_sent (network (sample_shared 1)) = []" "nl_conn (network (sample_shared 1)) = (\<lambda>_. None)"
    by (simp_all add: sample_shared_def NewNetworkLayer_def)
  ultimately show ?thesis
    using leaving [of "sample_node 1" Ping P_handlePing 7 "message Ping" 9]
    by (simp add: mode_registry_def)
qed

text \<open>
  Leaving stops no loop of either detector, and a peer that has removed the leaver
  enters it again, as a live member, with the next ping that the leaver's loop sends.
\<close>

theorem left_member_returns:
  assumes "pa_active (pingack a)" "msg_Sender ping = msg_Sender leave" "msg_Members ping = []"
  shows "pa_pingLoops (pingack (C_LeaveGroup t w)) = pa_pingLoops (pingack w)
    \<and> gm_gossipLoops (gossip (C_LeaveGroup t w)) = gm_gossipLoops (gossip w)
    \<and> lookup (membership (PA_handleLeave leave now a)) (NodeID_String (msg_Sender leave)) = None
    \<and> map_option mb_Status (lookup (membership (PA_handlePing ping now' (PA_handleLeave leave now a)))
        (NodeID_String (msg_Sender leave))) = Some Alive"
proof -
  have gone: "lookup (membership (PA_handleLeave leave now a)) (NodeID_String (msg_Sender leave)) = None"
    by (simp add: PA_handleLeave_def leave_members_def Let_def split: option.split)
  have active: "pa_active (pingack (PA_handleLeave leave now a))"
    using assms(1) by (simp add: PA_handleLeave_def)
  show ?thesis
    using assms gone active
    by (simp add: PA_handlePing_def PA_processUpdates_def PA_note_sender_def Let_def C_LeaveGroup_def
        PA_LeaveGroup_def GM_LeaveGroup_def split: DetectionMode.split)
qed

theorem left_member_returns_witness:
  "map_option mb_Status (lookup (membership (PA_handlePing ((message Ping)\<lparr>msg_Sender := node_at 1\<rparr>) 9
      (PA_handleLeave ((message Leave)\<lparr>msg_Sender := node_at 1\<rparr>) 7 (sample_node 1))))
      (NodeID_String (node_at 1))) = Some Alive"
  using left_member_returns [of "sample_node 1" "(message Ping)\<lparr>msg_Sender := node_at 1\<rparr>"
      "(message Leave)\<lparr>msg_Sender := node_at 1\<rparr>" 7 "sample_node 1" 7 9]
  by (simp add: NewPingAckManager_def message_def)

text \<open>
  C33: A switch request with bad arguments is answered with status 400 and changes nothing;
  one with good arguments that returns is answered with ok, and the display request then
  shows exactly the mechanism and suspicion that were asked for.
\<close>

theorem switch_then_display:
  "let mech = ToLower m; susp = ToLower s; (resp, w') = CS_handleSwitch m s w in
   if mech \<in> {''gossip'', ''ping''} \<and> susp \<in> {''suspect'', ''nosuspect''}
   then resp = None \<or> (resp = Some (200, ''ok'' @ newline)
     \<and> CS_handleDisplayProtocol w' = (200, ''('' @ mech @ '', '' @ susp @ '')''))
   else w' = w \<and> map_option fst resp = Some 400"
proof -
  have shown: "C_GetProtocol (C_SetSuspicion b w') =
      (if mode w' = PingAckMode then ''ping'' else ''gossip'', if b then ''suspect'' else ''nosuspect'')"
    for b w'
    by (cases "mode w'") (simp_all add: C_GetProtocol_def C_SetSuspicion_def PA_SetSuspicion_def
        GM_SetSuspicion_def PA_SuspicionEnabled_def GM_SuspicionEnabled_def)
  have mode: "C_SwitchMode m w = (out, w') \<Longrightarrow> mode w' = m" for m out w'
    by (cases m) (auto simp: C_SwitchMode_def PA_Stop_def GM_Stop_def PA_Start_def GM_Start_def Let_def
        split: if_splits option.splits bool.splits)
  show ?thesis
  proof (cases "ToLower m \<in> {''gossip'', ''ping''} \<and> ToLower s \<in> {''suspect'', ''nosuspect''}")
    case False
    then show ?thesis by (auto simp: CS_handleSwitch_def Let_def)
  next
    case True
    obtain out w1 where sw: "C_SwitchMode (if ToLower m = ''ping'' then PingAckMode else GossipMode) w
        = (out, w1)"
      by fastforce
    show ?thesis
      using True sw mode [OF sw] shown [of "ToLower s = ''suspect''" w1]
      by (cases out) (auto simp: CS_handleSwitch_def CS_handleDisplayProtocol_def Let_def)
  qed
qed

text \<open>
  C34: A round of switches from ping/ack to gossip and back leaves the stop channel of the
  ping/ack detector closed for the loops it has just started: each of them returns as soon as
  its \<^verbatim>\<open>select\<close> looks at that channel, although the node displays ping/ack as its mechanism;
  the gossip loops are gone, and one more switch to gossip panics on closing the channel again.
\<close>

theorem switching_twice:
  assumes "\<not> pa_stopped (pingack w)" "\<not> gm_active (gossip w)"
    "C_SwitchMode GossipMode w = (out1, w1)" "C_SwitchMode PingAckMode w1 = (out2, w2)"
  shows "out1 = Returned \<and> out2 = Returned \<and> mode w2 = PingAckMode
    \<and> PA_pingLoop StopSignal rnd now w2 \<noteq> None \<and> PA_failureDetectionLoop StopSignal now w2 \<noteq> None
    \<and> PA_cleanupLoop StopSignal now w2 \<noteq> None
    \<and> gm_gossipLoops (gossip w2) = 0 \<and> gm_failureLoops (gossip w2) = 0
    \<and> fst (C_SwitchMode GossipMode w2) = Panicked"
  using assms
  by (auto simp: C_SwitchMode_def PA_Stop_def GM_Stop_def PA_Start_def GM_Start_def Let_def
      PA_pingLoop_def PA_failureDetectionLoop_def PA_cleanupLoop_def)

theorem switching_twice_witness:
  "fst (C_SwitchMode GossipMode (snd (C_SwitchMode PingAckMode
      (snd (C_SwitchMode GossipMode (sample_node 1)))))) = Panicked"
  using switching_twice [of "sample_node 1", OF _ _ surjective_pairing surjective_pairing]
  by (simp add: NewPingAckManager_def NewGossipManager_def)

end
