(* ===== verification/System.thy ===== *)
theory System
  imports Detector
begin

text \<open>
  One process as a state machine. A step is one event of the program: a datagram arrives,
  a message is dispatched, a callback runs, a ticker fires, a wait of a protocol period or
  of a ping request ends, or an HTTP request is served. The goroutines interleave in any
  order and at any time, so what is proved of every reachable state holds for every
  schedule of these events.
\<close>

section \<open>Steps\<close>

text \<open>What a process does by itself, and what it does when a datagram arrives.\<close>

inductive local_step :: "node \<Rightarrow> time \<Rightarrow> node \<Rightarrow> bool" where
  dispatch: "process_message now w = Some w' \<Longrightarrow> local_step w now w'"
| callback: "spawned w = before @ t # after
    \<Longrightarrow> local_step w now (run_task t now (w\<lparr>spawned := before @ after\<rparr>))"
| suspicion_check: "sm_running (suspicion w) \<Longrightarrow> local_step w now (check now w)"
| ping_loop: "length (pa_periods (pingack w)) < pa_pingLoops (pingack w)
    \<Longrightarrow> PA_pingLoop wakeup rnd now w = Some w' \<Longrightarrow> local_step w now w'"
| period_ack: "d \<in> set (pa_periods (pingack w)) \<Longrightarrow> PA_period_ack d w = Some w'
    \<Longrightarrow> local_step w now w'"
| period_direct: "d \<in> set (pa_periods (pingack w)) \<Longrightarrow> PA_period_direct_timeout rnd d now w = Some w'
    \<Longrightarrow> local_step w now w'"
| period_indirect: "d \<in> set (pa_periods (pingack w)) \<Longrightarrow> PA_period_indirect_timeout d now w = Some w'
    \<Longrightarrow> local_step w now w'"
| relay_ack: "r \<in> set (pa_relays (pingack w)) \<Longrightarrow> PA_relay_ack r now w = Some w'
    \<Longrightarrow> local_step w now w'"
| relay_timeout: "r \<in> set (pa_relays (pingack w)) \<Longrightarrow> PA_relay_timeout r now w = Some w'
    \<Longrightarrow> local_step w now w'"
| relay_cancelled: "r \<in> set (pa_relays (pingack w)) \<Longrightarrow> PA_relay_cancelled r w = Some w'
    \<Longrightarrow> local_step w now w'"
| pingack_failures: "0 < pa_failureLoops (pingack w)
    \<Longrightarrow> PA_failureDetectionLoop wakeup now w = Some w' \<Longrightarrow> local_step w now w'"
| pingack_cleanup: "0 < pa_cleanupLoops (pingack w)
    \<Longrightarrow> PA_cleanupLoop wakeup now w = Some w' \<Longrightarrow> local_step w now w'"
| gossip_loop: "0 < gm_gossipLoops (gossip w)
    \<Longrightarrow> GM_gossipLoop wakeup rnd1 rnd2 now w = Some w' \<Longrightarrow> local_step w now w'"
| gossip_failures: "0 < gm_failureLoops (gossip w)
    \<Longrightarrow> GM_failureDetectionLoop wakeup now w = Some w' \<Longrightarrow> local_step w now w'"
| join: "local_step w now (snd (CS_handleJoin intro now w))"
| leave: "local_step w now (snd (CS_handleLeave now w))"
| switch: "CS_handleSwitch mech susp w = (Some response, w') \<Longrightarrow> local_step w now w'"
| drop_rate: "local_step w now (C_SetDropRate rate w)"
| status_log: "CLI_tick now w = Some (counts, us, w') \<Longrightarrow> local_step w now w'"
| stop: "C_Stop w = (Returned, w') \<Longrightarrow> local_step w now w'"

inductive node_step :: "node \<Rightarrow> time \<Rightarrow> node \<Rightarrow> bool" where
  receive: "node_step w now (w\<lparr>network := receive_datagram r (network w)\<rparr>)"
| internal: "local_step w now w' \<Longrightarrow> node_step w now w'"

inductive reachable :: "Config \<Rightarrow> (string \<Rightarrow> string option) \<Rightarrow> node \<Rightarrow> bool"
  for config conn where
  start: "C_Start None (NewController config conn now) = (None, w) \<Longrightarrow> reachable config conn w"
| step: "reachable config conn w \<Longrightarrow> node_step w now w' \<Longrightarrow> reachable config conn w'"

inductive_cases reachable_cases: "reachable config conn w"

section \<open>The invariant\<close>

text \<open>
  Besides the well-formedness of the shared components: a pending acknowledgement belongs
  to a protocol period that still waits for it, every period to a ping loop that is alive,
  and a filed ping request to a goroutine that still serves it, so neither map outgrows the
  work in progress.
\<close>

definition periods_ok :: "PingAckManager \<Rightarrow> bool" where
  "periods_ok p \<longleftrightarrow> dom (pa_pendingAcks p) \<subseteq> pd_seqNum ` set (pa_periods p)
     \<and> length (pa_periods p) \<le> pa_pingLoops p"

definition relays_ok :: "PingAckManager \<Rightarrow> bool" where
  "relays_ok p \<longleftrightarrow> dom (map_of (pa_pendingIndirect p)) \<subseteq> rl_key ` set (pa_relays p)"

definition pingack_ok :: "PingAckManager \<Rightarrow> bool" where
  "pingack_ok p \<longleftrightarrow> periods_ok p \<and> relays_ok p"

lemma pingack_ok_fields [simp]:
  "pingack_ok (p\<lparr>pa_cancelled := b\<rparr>) = pingack_ok p"
  "pingack_ok (p\<lparr>pa_stopped := b\<rparr>) = pingack_ok p"
  "pingack_ok (p\<lparr>pa_active := b\<rparr>) = pingack_ok p"
  "pingack_ok (p\<lparr>pa_enableSuspicion := b\<rparr>) = pingack_ok p"
  "pingack_ok (p\<lparr>pa_failureLoops := n\<rparr>) = pingack_ok p"
  "pingack_ok (p\<lparr>pa_cleanupLoops := n\<rparr>) = pingack_ok p"
  "pingack_ok (p\<lparr>pa_heap := h\<rparr>) = pingack_ok p"
  by (simp_all add: pingack_ok_def periods_ok_def relays_ok_def)

definition node_ok :: "(string \<Rightarrow> string option) \<Rightarrow> node \<Rightarrow> bool" where
  "node_ok conn w \<longleftrightarrow> wf_shared w \<and> sm_opts (suspicion w) = controller_options
     \<and> nl_conn (network w) = conn \<and> pingack_ok (pingack w)"

lemma node_ok_keeps:
  "keeps w w' \<Longrightarrow> pingack_ok (pingack w') \<Longrightarrow> node_ok conn w \<Longrightarrow> node_ok conn w'"
  by (auto simp: node_ok_def keeps_def)

section \<open>What the operations do to the ping/ack manager\<close>

lemma apply_update_pingack [frame_simps]: "pingack (apply_update en u r now w) = pingack w"
  by (simp add: apply_update_def Let_def split: option.split)

interpretation puf: framing pingack "\<lambda>u. PA_processUpdate u reporter now" for reporter now
  by unfold_locales (simp add: PA_processUpdate_eq frame_simps)

interpretation guf: framing pingack "\<lambda>u. GM_processUpdate u reporter now" for reporter now
  by unfold_locales (simp add: GM_processUpdate_eq frame_simps)

interpretation clf: framing "pingack :: node \<Rightarrow> PingAckManager"
    "\<lambda>u. ClearSuspect (up_NodeID u) (up_Incarnation u)"
  by unfold_locales simp

interpretation rsf: framing pingack "report_suspect now" for now
  by unfold_locales (simp add: report_suspect_def Let_def)

lemma updates_pingack [frame_simps]:
  "pingack (PA_processUpdates us r now w) = pingack w"
  "pingack (GM_processUpdates us r now w) = pingack w"
  unfolding PA_processUpdates_def GM_processUpdates_def
  by (rule puf.loop_frames guf.loop_frames)+

lemma declare_pingack [frame_simps]: "pingack (PA_declareSuspicion n now w) = pingack w"
  by (simp add: PA_declareSuspicion_def Let_def split: option.split)

lemma handlers_pingack [frame_simps]:
  "pingack (PA_handlePing msg now w) = pingack w"
  "pingack (PA_handleJoin msg now w) = pingack w"
  "pingack (PA_handleJoinResponse msg now w) = pingack w"
  "pingack (PA_handleAliveMessage msg now w) = pingack w"
  "pingack (PA_handleSuspectMessage msg now w) = pingack w"
  "pingack (PA_handleLeave msg now w) = pingack w"
  "pingack (PA_checkFailures now w) = pingack w"
  "pingack (GM_handleHeartbeat msg now w) = pingack w"
  "pingack (GM_handleSuspectMessage msg now w) = pingack w"
  "pingack (GM_handleAliveMessage msg now w) = pingack w"
  "pingack (GM_handleConfirmMessage msg now w) = pingack w"
  "pingack (GM_handleJoin msg now w) = pingack w"
  "pingack (GM_handleJoinResponse msg now w) = pingack w"
  "pingack (GM_handleLeave msg now w) = pingack w"
  "pingack (GM_checkFailures now w) = pingack w"
  by (simp_all add: PA_handlePing_def PA_handleJoin_def PA_handleJoinResponse_def
      PA_handleAliveMessage_def PA_handleSuspectMessage_def PA_handleLeave_def
      PA_checkFailures_def GM_handleHeartbeat_def GM_handleSuspectMessage_def
      GM_handleAliveMessage_def GM_handleConfirmMessage_def GM_handleJoin_def
      GM_handleJoinResponse_def GM_handleLeave_def GM_checkFailures_def Let_def split_def
      frame_simps clf.loop_frames rsf.loop_frames split: option.split)

lemma signals_ok:
  "pingack_ok p \<Longrightarrow> pingack_ok (PA_signal_pending msg p)"
  "pingack_ok p \<Longrightarrow> pingack_ok (PA_signal_waiter msg p)"
  "pingack_ok p \<Longrightarrow> pingack_ok (PA_signal_indirect msg p)"
  by (auto simp: pingack_ok_def periods_ok_def relays_ok_def PA_signal_pending_def
      PA_signal_waiter_def PA_signal_indirect_def split: option.split)

lemma PA_handleAck_ok: "pingack_ok (pingack w) \<Longrightarrow> pingack_ok (pingack (PA_handleAck msg now w))"
  by (simp add: PA_handleAck_def Let_def signals_ok)

lemma PA_handleIndirectAck_ok:
  "pingack_ok (pingack w) \<Longrightarrow> pingack_ok (pingack (PA_handleIndirectAck msg now w))"
  by (simp add: PA_handleIndirectAck_def Let_def signals_ok)

lemma relay_start_ok:
  "pingack_ok p \<Longrightarrow> rl_key r = k \<Longrightarrow> pingack_ok (p\<lparr>pa_heap := h, pa_next := n,
    pa_pendingIndirect := AList.update k a (pa_pendingIndirect p), pa_relays := pa_relays p @ [r]\<rparr>)"
  by (simp add: pingack_ok_def periods_ok_def relays_ok_def) blast

lemma PA_handleIndirectPing_ok:
  "PA_handleIndirectPing msg now w = Some w' \<Longrightarrow> pingack_ok (pingack w) \<Longrightarrow> pingack_ok (pingack w')"
  by (auto simp: PA_handleIndirectPing_def Let_def frame_simps relay_start_ok
      split: if_splits option.splits)

lemma run_handler_pingack:
  "run_handler h msg now w = Some w' \<Longrightarrow> pingack_ok (pingack w) \<Longrightarrow> pingack_ok (pingack w')"
  by (cases h) (auto simp: frame_simps PA_handleAck_ok PA_handleIndirectAck_ok
      dest: PA_handleIndirectPing_ok)

lemma cancel_waiter_frame [simp]:
  "pa_pendingAcks (cancel_waiter a p) = pa_pendingAcks p"
  "pa_pendingIndirect (cancel_waiter a p) = pa_pendingIndirect p"
  "pa_periods (cancel_waiter a p) = pa_periods p"
  "pa_relays (cancel_waiter a p) = pa_relays p"
  "pa_pingLoops (cancel_waiter a p) = pa_pingLoops p"
  by (simp_all add: cancel_waiter_def split: option.split)

lemma image_remove1: "f ` set xs - {f x} \<subseteq> f ` set (remove1 x xs)"
  by (induction xs) auto

lemma relay_finish_ok: "pingack_ok p \<Longrightarrow> pingack_ok (relay_finish r p)"
  using image_remove1 [of rl_key "pa_relays p" r]
  by (simp add: pingack_ok_def periods_ok_def relays_ok_def relay_finish_def Let_def) blast

lemma relay_steps_ok:
  "PA_relay_ack r now w = Some w' \<Longrightarrow> pingack_ok (pingack w) \<Longrightarrow> pingack_ok (pingack w')"
  "PA_relay_timeout r now w = Some w' \<Longrightarrow> pingack_ok (pingack w) \<Longrightarrow> pingack_ok (pingack w')"
  "PA_relay_cancelled r w = Some w' \<Longrightarrow> pingack_ok (pingack w) \<Longrightarrow> pingack_ok (pingack w')"
proof -
  show "PA_relay_ack r now w = Some w' \<Longrightarrow> pingack_ok (pingack w) \<Longrightarrow> pingack_ok (pingack w')"
    by (auto simp: PA_relay_ack_def Let_def relay_finish_ok split: option.splits)
  show "PA_relay_timeout r now w = Some w' \<Longrightarrow> pingack_ok (pingack w) \<Longrightarrow> pingack_ok (pingack w')"
    "PA_relay_cancelled r w = Some w' \<Longrightarrow> pingack_ok (pingack w) \<Longrightarrow> pingack_ok (pingack w')"
    by (auto simp: PA_relay_timeout_def PA_relay_cancelled_def relay_finish_ok split: if_splits)
qed

interpretation cu: keeping pingack_ok cleanup_step
  by unfold_locales (auto simp: pingack_ok_def periods_ok_def relays_ok_def cleanup_step_def
      split: option.split)

lemma cleanup_ok: "pingack_ok (pingack w) \<Longrightarrow> pingack_ok (pingack (PA_cleanupOrphanedEntries now w))"
  by (simp add: PA_cleanupOrphanedEntries_def Let_def cu.loop_keeps)

lemma remove1_shorter: "length xs \<le> n \<Longrightarrow> length (remove1 x xs) \<le> n"
  by (auto simp: length_remove1)

lemma period_finish_ok: "pingack_ok p \<Longrightarrow> pingack_ok (period_finish d p)"
  using image_remove1 [of pd_seqNum "pa_periods p" d] remove1_shorter [of "pa_periods p" "pa_pingLoops p" d]
  by (simp add: pingack_ok_def periods_ok_def relays_ok_def period_finish_def drop_pending_def) blast

lemma period_start_ok:
  "pingack_ok p \<Longrightarrow> pd_seqNum d = s \<Longrightarrow> length (pa_periods p) < pa_pingLoops p \<Longrightarrow> pingack_ok (p\<lparr>pa_seqNum := q,
    pa_pendingAcks := (pa_pendingAcks p)(s \<mapsto> x), pa_periods := pa_periods p @ [d]\<rparr>)"
  by (simp add: pingack_ok_def periods_ok_def relays_ok_def) blast

lemma period_begin_ok:
  "PA_period_begin rnd now w = Some w' \<Longrightarrow> length (pa_periods (pingack w)) < pa_pingLoops (pingack w)
    \<Longrightarrow> pingack_ok (pingack w) \<Longrightarrow> pingack_ok (pingack w')"
  by (auto simp: PA_period_begin_def Let_def period_start_ok
      split: option.splits list.splits prod.splits)

lemma period_ack_ok:
  "PA_period_ack d w = Some w' \<Longrightarrow> pingack_ok (pingack w) \<Longrightarrow> pingack_ok (pingack w')"
  by (auto simp: PA_period_ack_def period_finish_ok split: option.splits if_splits)

lemma period_move_ok:
  "pingack_ok p \<Longrightarrow> pd_seqNum d' = pd_seqNum d \<Longrightarrow> d \<in> set (pa_periods p) \<Longrightarrow>
    pingack_ok (p\<lparr>pa_periods := remove1 d (pa_periods p) @ [d']\<rparr>)"
proof -
  assume p: "pingack_ok p" "pd_seqNum d' = pd_seqNum d" "d \<in> set (pa_periods p)"
  then have "length (remove1 d (pa_periods p) @ [d']) = length (pa_periods p)"
    using length_pos_if_in_set [of d "pa_periods p"] by (simp add: length_remove1)
  with p image_remove1 [of pd_seqNum "pa_periods p" d] show ?thesis
    by (simp add: pingack_ok_def periods_ok_def relays_ok_def) blast
qed

lemma period_timeouts_ok:
  "PA_period_direct_timeout rnd d now w = Some w' \<Longrightarrow> d \<in> set (pa_periods (pingack w))
    \<Longrightarrow> pingack_ok (pingack w) \<Longrightarrow> pingack_ok (pingack w')"
  "PA_period_indirect_timeout d now w = Some w' \<Longrightarrow> pingack_ok (pingack w)
    \<Longrightarrow> pingack_ok (pingack w')"
  by (auto simp: PA_period_direct_timeout_def PA_period_indirect_timeout_def Let_def frame_simps
      period_finish_ok period_move_ok split: option.splits if_splits)

section \<open>Every step keeps the invariant\<close>

lemma callback_keeps:
  "keeps w (w\<lparr>membership := ml, network := send_all now msg as (network w)\<rparr>)"
  if "wf_ml (membership w) \<Longrightarrow> wf_ml ml"
  using keeps_trans [OF keeps_ml [OF that] grows_keeps [OF grows_send_all]] by simp

lemma run_task_keeps: "keeps w (run_task t now w)"
  by (cases t) (auto simp: C_OnSuspect_def C_OnConfirm_def C_OnClear_def Let_def
      grows_keeps [OF grows_send_all] intro!: callback_keeps wf_ml_store dest: wf_ml_lookup split: option.splits)

lemma run_task_pingack [simp]: "pingack (run_task t now w) = pingack w"
  by (cases t) (simp_all add: C_OnSuspect_def C_OnConfirm_def C_OnClear_def Let_def)

lemma node_ok_spawned [simp]: "node_ok conn (w\<lparr>spawned := ts\<rparr>) = node_ok conn w"
  by (simp add: node_ok_def wf_shared_def)

lemma network_change_ok:
  assumes "node_ok conn w" "queue_ok (network w) \<Longrightarrow> queue_ok n" "nl_conn n = nl_conn (network w)"
  shows "node_ok conn (w\<lparr>network := n\<rparr>)"
  using assms by (simp add: node_ok_def wf_shared_def)

lemma receive_conn [simp]: "nl_conn (receive_datagram r n) = nl_conn n"
  by (cases r) (simp_all split: option.split)

lemma process_message_ok:
  assumes "node_ok conn w" "process_message now w = Some w'"
  shows "node_ok conn w'"
proof -
  obtain mh n where step: "processQueue_step (network w) = Some (mh, n)"
    and rest: "(case snd mh of None \<Rightarrow> Some (w\<lparr>network := n\<rparr>)
      | Some h \<Rightarrow> run_handler h (fst mh) now (w\<lparr>network := n\<rparr>)) = Some w'"
    using assms(2) by (auto simp: process_message_def Let_def split: option.splits prod.splits)
  have "nl_conn n = nl_conn (network w)"
    using step by (auto simp: processQueue_step_def split: list.splits)
  then have ok: "node_ok conn (w\<lparr>network := n\<rparr>)"
    using assms(1) queue_ok_process [OF _ step] by (rule network_change_ok [rotated 2])
  show ?thesis
  proof (cases "snd mh")
    case None
    with rest ok show ?thesis by simp
  next
    case (Some h)
    with rest have run: "run_handler h (fst mh) now (w\<lparr>network := n\<rparr>) = Some w'" by simp
    have "pingack_ok (pingack w')"
      using run by (rule run_handler_pingack) (use ok in \<open>simp add: node_ok_def\<close>)
    then show ?thesis using ok by (rule node_ok_keeps [OF run_handler_keeps [OF run]])
  qed
qed

lemma one_more_loop: "pingack_ok p \<Longrightarrow> pingack_ok (p\<lparr>pa_pingLoops := Suc (pa_pingLoops p)\<rparr>)"
  by (simp add: pingack_ok_def periods_ok_def relays_ok_def)

lemma life_cycle_ok:
  "node_ok conn w \<Longrightarrow> node_ok conn (PA_Start w)"
  "node_ok conn w \<Longrightarrow> PA_Stop w = (res, w') \<Longrightarrow> node_ok conn w'"
  "node_ok conn w \<Longrightarrow> node_ok conn (GM_Start w)"
  "node_ok conn w \<Longrightarrow> GM_Stop w = (res, w') \<Longrightarrow> node_ok conn w'"
  by (auto simp: node_ok_def wf_shared_def queue_ok_def PA_Start_def PA_Stop_def GM_Start_def
      GM_Stop_def RegisterHandler_def Let_def one_more_loop
      split: if_splits option.splits bool.splits)

lemma node_ok_mode [simp]: "node_ok conn (w\<lparr>mode := m\<rparr>) = node_ok conn w"
  by (simp add: node_ok_def)

lemma node_ok_suspicion_flag [simp]: "node_ok conn (C_SetSuspicion b w) = node_ok conn w"
  by (simp add: C_SetSuspicion_def PA_SetSuspicion_def GM_SetSuspicion_def node_ok_def
      split: DetectionMode.split)

lemma C_SwitchMode_ok:
  assumes "node_ok conn w"
  shows "node_ok conn (snd (C_SwitchMode m w))"
proof -
  have w1: "node_ok conn (w\<lparr>mode := m\<rparr>)" using assms by simp
  obtain out w2 where stop: "(case m of GossipMode \<Rightarrow> PA_Stop (w\<lparr>mode := m\<rparr>)
      | PingAckMode \<Rightarrow> GM_Stop (w\<lparr>mode := m\<rparr>)) = (out, w2)"
    by fastforce
  then have w2: "node_ok conn w2"
    using life_cycle_ok(2,4) [OF w1] by (cases m) simp_all
  show ?thesis
    using stop life_cycle_ok(1,3) [OF w2] w2
    by (cases m; cases out) (simp_all add: C_SwitchMode_def Let_def)
qed

lemma switch_ok:
  assumes "node_ok conn w"
  shows "node_ok conn (snd (CS_handleSwitch mech susp w))"
proof -
  have "node_ok conn (snd (case C_SwitchMode m w of (Panicked, w') \<Rightarrow> (None :: Response option, w')
      | (Returned, w') \<Rightarrow> (Some (200, r), C_SetSuspicion b w')))" for m b and r :: string
    using C_SwitchMode_ok [OF assms, of m]
    by (cases "C_SwitchMode m w"; cases "fst (C_SwitchMode m w)") simp_all
  then show ?thesis
    using assms by (simp add: CS_handleSwitch_def Let_def)
qed

lemma stop_ok:
  assumes "node_ok conn w"
  shows "node_ok conn (snd (C_Stop w))"
proof -
  obtain out w1 where stop: "(case mode w of GossipMode \<Rightarrow> GM_Stop w | PingAckMode \<Rightarrow> PA_Stop w)
      = (out, w1)"
    by fastforce
  then have "node_ok conn w1"
    using life_cycle_ok(2,4) [OF assms] by (cases "mode w") simp_all
  then have w1: "node_ok conn w1" "node_ok conn (w1\<lparr>suspicion := Suspicion_Stop (suspicion w1)\<rparr>)"
    by (auto simp: node_ok_def wf_shared_def wf_sm_def Suspicion_Stop_def)
  moreover have "node_ok conn (v\<lparr>network := n\<rparr>)"
    if "node_ok conn v" "Network_Stop (network v) = Some n" for v n
    using that by (auto simp: Network_Stop_def queue_ok_def intro!: network_change_ok split: if_splits)
  ultimately show ?thesis
    using stop w1(2) by (cases out) (simp_all add: C_Stop_def Let_def split: option.split)
qed

lemma join_leave_ok:
  assumes "node_ok conn w"
  shows "node_ok conn (snd (CS_handleJoin intro now w))" "node_ok conn (snd (CS_handleLeave now w))"
proof -
  have p: "pingack_ok (pingack w)" using assms by (simp add: node_ok_def)
  have pings: "pingack_ok (pingack (snd (PA_JoinGroup a now w)))"
    "pingack_ok (pingack (snd (GM_JoinGroup a now w)))"
    "pingack_ok (pingack (PA_LeaveGroup now w))" "pingack_ok (pingack (GM_LeaveGroup now w))" for a
    using p by (simp_all add: PA_JoinGroup_def GM_JoinGroup_def PA_LeaveGroup_def GM_LeaveGroup_def
        Let_def split_def)
  note ok = node_ok_keeps [OF PA_JoinGroup_keeps pings(1) assms]
    node_ok_keeps [OF GM_JoinGroup_keeps pings(2) assms]
    node_ok_keeps [OF grows_keeps [OF PA_LeaveGroup_grows] pings(3) assms]
    node_ok_keeps [OF grows_keeps [OF GM_LeaveGroup_grows] pings(4) assms]
  show "node_ok conn (snd (CS_handleJoin intro now w))" "node_ok conn (snd (CS_handleLeave now w))"
    using ok assms by (simp_all add: CS_handleJoin_def CS_handleLeave_def C_JoinGroup_def
        C_LeaveGroup_def split_def split: DetectionMode.split option.split)
qed

lemma status_log_ok:
  assumes "node_ok conn w" "CLI_tick now w = Some (c, us, w')"
  shows "node_ok conn w'"
proof -
  obtain us' ml where "GetRecentUpdates now 10 (membership w) = Some (us', ml)"
    and w': "w' = w\<lparr>membership := ml\<rparr>"
    using assms(2) by (auto simp: CLI_tick_def Let_def split: option.splits)
  then have "keeps w w'" using grows_keeps [OF grows_recent_updates] by blast
  then show ?thesis
    by (rule node_ok_keeps) (use assms(1) w' in \<open>simp_all add: node_ok_def\<close>)
qed

lemma node_ok_grows:
  "node_ok conn w \<Longrightarrow> grows w w' \<Longrightarrow> pingack_ok (pingack w') \<Longrightarrow> node_ok conn w'"
  using node_ok_keeps grows_keeps by blast

lemma GM_round_pingack:
  "GM_performGossipRound rnd1 rnd2 now w = Some w' \<Longrightarrow> pingack w' = pingack w"
  by (auto simp: GM_performGossipRound_def Let_def split: option.splits if_splits)

text \<open>A loop that returns was not in the middle of a period.\<close>

lemma ping_loop_ok:
  assumes "PA_pingLoop wakeup rnd now w = Some w'" "length (pa_periods (pingack w)) < pa_pingLoops (pingack w)"
    "node_ok conn w"
  shows "node_ok conn w'"
proof (cases wakeup)
  case StopSignal
  then have "w' = w\<lparr>pingack := (pingack w)\<lparr>pa_pingLoops := pa_pingLoops (pingack w) - 1\<rparr>\<rparr>"
    using assms(1) by (auto simp: PA_pingLoop_def split: if_splits)
  with assms(2,3) show ?thesis
    by (auto simp: node_ok_def wf_shared_def pingack_ok_def periods_ok_def relays_ok_def)
next
  case Tick
  then have "PA_period_begin rnd now w = Some w'" using assms(1) by (simp add: PA_pingLoop_def)
  then show ?thesis
    using assms(2,3) node_ok_grows period_begin_grows period_begin_ok by (metis node_ok_def)
qed

lemma other_loops_ok:
  assumes "node_ok conn w"
  shows "PA_failureDetectionLoop wakeup now w = Some w' \<Longrightarrow> node_ok conn w'"
    "PA_cleanupLoop wakeup now w = Some w' \<Longrightarrow> node_ok conn w'"
    "GM_gossipLoop wakeup rnd1 rnd2 now w = Some w' \<Longrightarrow> node_ok conn w'"
    "GM_failureDetectionLoop wakeup now w = Some w' \<Longrightarrow> node_ok conn w'"
proof -
  have p: "pingack_ok (pingack w)" using assms by (simp add: node_ok_def)
  have fewer: "node_ok conn (w\<lparr>pingack := (pingack w)\<lparr>pa_failureLoops := n\<rparr>\<rparr>)"
    "node_ok conn (w\<lparr>pingack := (pingack w)\<lparr>pa_cleanupLoops := n\<rparr>\<rparr>)" "node_ok conn (w\<lparr>gossip := g\<rparr>)" for n g
    using assms by (simp_all add: node_ok_def wf_shared_def)
  have checks: "node_ok conn (PA_checkFailures now w)" "node_ok conn (GM_checkFailures now w)"
    using node_ok_keeps [OF PA_checkFailures_keeps _ assms] node_ok_keeps [OF GM_checkFailures_keeps _ assms] p
    by (simp_all add: frame_simps)
  have cleanup: "node_ok conn (PA_cleanupOrphanedEntries now w)"
    by (rule node_ok_grows [OF assms PA_cleanupOrphanedEntries_grows cleanup_ok [OF p]])
  have gossip_round: "node_ok conn w'" if "GM_performGossipRound rnd1 rnd2 now w = Some w'"
    using that assms GM_performGossipRound_grows GM_round_pingack by (metis node_ok_def node_ok_grows)
  show "PA_failureDetectionLoop wakeup now w = Some w' \<Longrightarrow> node_ok conn w'"
    "PA_cleanupLoop wakeup now w = Some w' \<Longrightarrow> node_ok conn w'"
    "GM_gossipLoop wakeup rnd1 rnd2 now w = Some w' \<Longrightarrow> node_ok conn w'"
    "GM_failureDetectionLoop wakeup now w = Some w' \<Longrightarrow> node_ok conn w'"
    using fewer checks cleanup gossip_round
    by (auto simp: PA_failureDetectionLoop_def PA_cleanupLoop_def GM_gossipLoop_def
        GM_failureDetectionLoop_def split: Wakeup.splits if_splits)
qed

lemma local_step_ok: "local_step w now w' \<Longrightarrow> node_ok conn w \<Longrightarrow> node_ok conn w'"
proof (induction rule: local_step.induct)
  case (dispatch w now w')
  then show ?case by (blast intro: process_message_ok)
next
  case (callback w before t after now)
  then have "node_ok conn (w\<lparr>spawned := before @ after\<rparr>)" by simp
  then show ?case by (rule node_ok_keeps [OF run_task_keeps, rotated]) (use callback in \<open>simp add: node_ok_def\<close>)
next
  case (suspicion_check w now)
  then show ?case by (rule_tac node_ok_grows [OF _ check_grows]) (simp_all add: node_ok_def)
next
  case (ping_loop w wakeup rnd now w')
  then show ?case by (blast intro: ping_loop_ok)
next
  case (period_ack d w w')
  then show ?case by (meson node_ok_def node_ok_grows period_ack_grows period_ack_ok)
next
  case (period_direct d w rnd now w')
  then show ?case by (meson node_ok_def node_ok_keeps period_timeout_keeps period_timeouts_ok)
next
  case (period_indirect d w now w')
  then show ?case by (meson node_ok_def node_ok_keeps period_timeout_keeps period_timeouts_ok)
next
  case (relay_ack r w now w')
  then show ?case by (meson node_ok_def node_ok_grows relay_steps_grow relay_steps_ok)
next
  case (relay_timeout r w now w')
  then show ?case by (meson node_ok_def node_ok_grows relay_steps_grow relay_steps_ok)
next
  case (relay_cancelled r w w')
  then show ?case by (meson node_ok_def node_ok_grows relay_steps_grow relay_steps_ok)
next
  case (pingack_failures w wakeup now w')
  then show ?case by (blast intro: other_loops_ok)
next
  case (pingack_cleanup w wakeup now w')
  then show ?case by (blast intro: other_loops_ok)
next
  case (gossip_loop w wakeup rnd1 rnd2 now w')
  then show ?case by (blast intro: other_loops_ok)
next
  case (gossip_failures w wakeup now w')
  then show ?case by (blast intro: other_loops_ok)
next
  case (switch mech susp w response w')
  then show ?case using switch_ok [of conn w mech susp] by simp
next
  case (drop_rate w rate)
  then show ?case by (simp add: C_SetDropRate_def SetDropRate_def node_ok_def wf_shared_def queue_ok_def)
next
  case (stop w w')
  then show ?case using stop_ok [of conn w] by simp
qed (simp_all add: join_leave_ok status_log_ok)

lemma node_step_ok: "node_step w now w' \<Longrightarrow> node_ok conn w \<Longrightarrow> node_ok conn w'"
proof (induction rule: node_step.induct)
  case (receive w r)
  then show ?case by (intro network_change_ok) (simp_all add: queue_ok_receive)
qed (rule local_step_ok)

lemma controller_options_kept: "sm_opts (NewSuspicionManager controller_options) = controller_options"
  by (simp add: NewSuspicionManager_def controller_options_def Second_def Millisecond_def Let_def)

lemma NewController_ok: "node_ok conn (NewController config conn now)"
proof -
  have "pingack_ok NewPingAckManager"
    by (simp add: NewPingAckManager_def pingack_ok_def periods_ok_def relays_ok_def)
  then show ?thesis
    by (simp add: node_ok_def wf_shared_def NewController_def wf_ml_New wf_sm_New
        controller_options_kept NewNetworkLayer_def queue_ok_def)
qed

lemma started_ok: "node_ok conn w \<Longrightarrow> node_ok conn (w\<lparr>suspicion := Suspicion_Start (suspicion w)\<rparr>)"
  by (auto simp: node_ok_def wf_shared_def wf_sm_def Suspicion_Start_def)

lemma start_ok:
  assumes "C_Start None (NewController config conn now) = (None, w)"
  shows "node_ok conn w"
  using assms started_ok [OF NewController_ok [of conn config now]] life_cycle_ok(1,3)
  by (simp add: C_Start_def Let_def split: DetectionMode.splits)
    blast+

lemma reachable_ok: "reachable config conn w \<Longrightarrow> node_ok conn w"
  by (induction rule: reachable.induct) (auto intro: start_ok node_step_ok)

lemma node_ok_suspicion: "node_ok conn w \<Longrightarrow> suspicion_ok w"
  by (simp add: node_ok_def suspicion_ok_def wf_shared_def controller_options_def Second_def)

end
