(* ===== verification/Probing.thy ===== *)
theory Probing
  imports System
begin

text \<open>
  The probes of the ping/ack detector across nodes: a ping and its acknowledgement, a ping
  request through a helper, and what a probe that nobody answers leads to.
\<close>

section \<open>Messages are only added to the history\<close>

definition sends_more :: "node \<Rightarrow> node \<Rightarrow> bool" where
  "sends_more w w' \<longleftrightarrow> (\<exists>ms. nl_sent (network w') = nl_sent (network w) @ ms)
     \<and> nl_conn (network w') = nl_conn (network w)"

lemma sends_more_refl [simp]: "sends_more w w"
  by (simp add: sends_more_def)

lemma sends_more_trans: "sends_more a b \<Longrightarrow> sends_more b c \<Longrightarrow> sends_more a c"
  by (auto simp: sends_more_def)

lemma ProcessSuspicion_sends: "sends_more w (ProcessSuspicion r t i now w)"
  by (auto simp: sends_more_def ProcessSuspicion_def handleSelfRefutation_def send_all_sent Let_def
      split: option.split)

lemma ClearSuspect_sends: "sends_more w (ClearSuspect t i w)"
  by (auto simp: sends_more_def ClearSuspect_def Let_def split: option.split)

lemma notify_sends:
  "sends_more w (notify (\<lambda>r t i. ProcessSuspicion r t i now) ClearSuspect en u r w)"
  by (auto simp: notify_def Let_def ProcessSuspicion_sends ClearSuspect_sends
      intro: sends_more_trans)

lemma sends_more_membership [simp]: "sends_more (w\<lparr>membership := ml\<rparr>) w' = sends_more w w'"
  "sends_more w (w'\<lparr>membership := ml\<rparr>) = sends_more w w'"
  by (simp_all add: sends_more_def)

interpretation ns: suspicion_service sends_more
    "\<lambda>reporter target inc. ProcessSuspicion reporter target inc now" ClearSuspect for now
  by unfold_locales (auto intro: sends_more_trans ProcessSuspicion_sends ClearSuspect_sends)

lemma apply_update_sends: "sends_more w (apply_update en u r now w)"
proof -
  have "sends_more w (w\<lparr>membership := ml\<rparr>)" for ml by simp
  then show ?thesis
    by (simp add: apply_update_def Let_def ProcessSuspicion_sends ClearSuspect_sends
        ns.merge_notify_le split: option.split)
qed

interpretation us: growing sends_more "\<lambda>u. PA_processUpdate u reporter now" for reporter now
  by unfold_locales (auto simp: PA_processUpdate_eq intro: sends_more_trans apply_update_sends)

lemma PA_processUpdates_sends: "sends_more w (PA_processUpdates us r now w)"
  unfolding PA_processUpdates_def by (rule us.loop_grows)

section \<open>Keys of ping requests\<close>

lemma bar_notin_dec_nat: "CHR ''|'' \<notin> set (dec_nat n)"
  using digit_in_dec_nat [of "CHR ''|''" n] by auto

lemma split_at_first:
  assumes "xs @ c # s = ys @ c # t" "c \<notin> set xs" "c \<notin> set ys"
  shows "xs = ys \<and> s = t"
  using assms
proof (induction xs arbitrary: ys)
  case Nil
  then show ?case by (cases ys) auto
next
  case (Cons x xs)
  then show ?case by (cases ys) auto
qed

lemma indirect_key_inject: "indirect_key s n = indirect_key t m \<longleftrightarrow> s = t \<and> n = m"
proof
  assume "indirect_key s n = indirect_key t m"
  then have "dec_nat (unat s) = dec_nat (unat t) \<and> NodeID_String n = NodeID_String m"
    unfolding indirect_key_def by (rule split_at_first) (rule bar_notin_dec_nat)+
  then show "s = t \<and> n = m" by (simp add: dec_nat_inject word_unat_eq_iff)
qed simp

section \<open>Direct probes\<close>

definition ack_for :: "Message \<Rightarrow> node \<Rightarrow> time \<Rightarrow> Message" where
  "ack_for ping w now = stamped now ((message Ack)\<lparr>msg_Sender := ml_LocalNode (membership w),
     msg_Target := msg_Sender ping, msg_SeqNum := msg_SeqNum ping,
     msg_Incarnation := ml_Incarnation (membership w)\<rparr>)"

lemma ack_for_simps [simp]:
  "msg_Type (ack_for ping w now) = Ack" "msg_Sender (ack_for ping w now) = ml_LocalNode (membership w)"
  "msg_SeqNum (ack_for ping w now) = msg_SeqNum ping" "msg_Target (ack_for ping w now) = msg_Sender ping"
  "msg_Incarnation (ack_for ping w now) = ml_Incarnation (membership w)"
  by (simp_all add: ack_for_def message_def)

lemma ping_answered:
  assumes "pa_active (pingack w)" "nl_conn (network w) (NodeID_Address (msg_Sender ping)) = None"
  shows "\<exists>rest. nl_sent (network (PA_handlePing ping now w))
    = nl_sent (network w) @ (NodeID_Address (msg_Sender ping), ack_for ping w now) # rest"
proof -
  let ?ack = "(message Ack)\<lparr>msg_Sender := ml_LocalNode (membership w),
     msg_Target := msg_Sender ping, msg_SeqNum := msg_SeqNum ping,
     msg_Incarnation := ml_Incarnation (membership w)\<rparr>"
  let ?w1 = "w\<lparr>network := snd (Send now ?ack (NodeID_Address (msg_Sender ping)) (network w))\<rparr>"
  have "sends_more ?w1 (PA_handlePing ping now w)"
    using assms(1) PA_processUpdates_sends [of "?w1\<lparr>membership :=
        PA_note_sender ping now (membership ?w1)\<rparr>" "msg_Members ping" "msg_Sender ping" now]
    by (simp add: PA_handlePing_def Let_def)
  then show ?thesis
    using assms(2) by (auto simp: sends_more_def Send_sent ack_for_def)
qed

lemma ack_resolves:
  assumes "pa_active (pingack w)" "pa_pendingAcks (pingack w) (msg_SeqNum ack) = Some pending"
    "pp_target pending = msg_Sender ack" "pd_seqNum d = msg_SeqNum ack"
  shows "\<exists>w'. PA_period_ack d (PA_handleAck ack now w) = Some w'
    \<and> pa_pendingAcks (pingack w') (pd_seqNum d) = None
    \<and> pa_periods (pingack w') = remove1 d (pa_periods (pingack w))"
proof -
  have frame: "pa_pendingAcks (PA_signal_waiter m p) = pa_pendingAcks p"
    "pa_periods (PA_signal_waiter m p) = pa_periods p" for m p
    by (simp_all add: PA_signal_waiter_def split: option.split)
  have "pa_pendingAcks (pingack (PA_handleAck ack now w)) (pd_seqNum d)
      = Some (pending\<lparr>pp_directAck := True, pp_ackReceived := True\<rparr>)"
    "pa_periods (pingack (PA_handleAck ack now w)) = pa_periods (pingack w)"
    using assms by (simp_all add: PA_handleAck_def Let_def frame PA_signal_pending_def Equals_iff)
  then show ?thesis
    by (simp add: PA_period_ack_def period_finish_def drop_pending_def)
qed

section \<open>Indirect probes\<close>

lemma PA_handleIndirectPing_effect:
  assumes "pa_active (pingack h)" "PA_handleIndirectPing req now h = Some h1"
  obtains r ping where "r \<in> set (pa_relays (pingack h1))" "rl_msg r = req"
    "rl_key r = indirect_key (msg_SeqNum req) (msg_Target req)"
    "rl_deadline r = time_Add now (to_AckTimeout (pa_timeouts (pingack h)))"
    "map_of (pa_pendingIndirect (pingack h1)) (rl_key r) = Some (rl_waiter r)"
    "pa_heap (pingack h1) (rl_waiter r) = Some \<lparr>iw_requester = msg_Sender req, iw_ch = None,
      iw_cancelled = False, iw_createdTime = now\<rparr>"
    "pa_active (pingack h1)" "nl_conn (network h1) = nl_conn (network h)"
    "msg_Type ping = Ping" "msg_Target ping = msg_Target req" "msg_SeqNum ping = msg_SeqNum req"
    "msg_Sender ping = ml_LocalNode (membership h1)"
    "nl_conn (network h) (NodeID_Address (msg_Target req)) = None
      \<Longrightarrow> \<exists>ms. nl_sent (network h1) = nl_sent (network h) @ ms @ [(NodeID_Address (msg_Target req), ping)]"
proof -
  let ?key = "indirect_key (msg_SeqNum req) (msg_Target req)" and ?a = "pa_next (pingack h)"
  let ?waiter = "\<lparr>iw_requester = msg_Sender req, iw_ch = None, iw_cancelled = False,
    iw_createdTime = now\<rparr>"
  let ?p1 = "(pingack h)\<lparr>pa_heap := (pa_heap (pingack h))(?a \<mapsto> ?waiter), pa_next := Suc ?a,
    pa_pendingIndirect := AList.update ?key ?a (pa_pendingIndirect (pingack h))\<rparr>"
  let ?g = "\<lparr>rl_key = ?key, rl_waiter = ?a, rl_msg = req,
    rl_deadline = time_Add now (to_AckTimeout (pa_timeouts (pingack h)))\<rparr>"
  let ?ml = "case lookup (membership h) (NodeID_String (msg_Sender req)) of None \<Rightarrow> membership h
    | Some m \<Rightarrow> if sint (msg_Incarnation req) \<ge> sint (mb_Incarnation m)
        then store (NodeID_String (msg_Sender req)) (m\<lparr>mb_LastHeartbeat := now\<rparr>) (membership h)
        else membership h"
  obtain ml w1 where ml: "ml = ?ml" and w1: "w1 = PA_processUpdates (msg_Members req) (msg_Sender req) now
      (h\<lparr>membership := ml, pingack := ?p1\<rparr>)"
    by blast
  have p: "pingack w1 = ?p1" unfolding w1 by (simp add: frame_simps)
  obtain us ml2 where us: "GetRecentUpdates now 5 (membership w1) = Some (us, ml2)"
    using assms by (auto simp: PA_handleIndirectPing_def Let_def ml [symmetric] w1 [symmetric]
        split: option.splits)
  then have h1: "h1 = w1\<lparr>membership := ml2, network := snd (Send now ((message Ping)\<lparr>
        msg_Sender := ml_LocalNode ml2, msg_Target := msg_Target req,
        msg_Incarnation := ml_Incarnation ml2, msg_SeqNum := msg_SeqNum req,
        msg_Members := us\<rparr>) (NodeID_Address (msg_Target req)) (network w1)),
        pingack := (pingack w1)\<lparr>pa_relays := pa_relays (pingack w1) @ [?g]\<rparr>\<rparr>"
    using assms p by (simp add: PA_handleIndirectPing_def Let_def ml [symmetric] w1 [symmetric])
  have sent: "sends_more h w1"
    using PA_processUpdates_sends [of "h\<lparr>membership := ml, pingack := ?p1\<rparr>" "msg_Members req"
        "msg_Sender req" now]
    unfolding w1 by (simp add: sends_more_def)
  let ?ping = "stamped now ((message Ping)\<lparr>msg_Sender := ml_LocalNode ml2,
    msg_Target := msg_Target req, msg_Incarnation := ml_Incarnation ml2,
    msg_SeqNum := msg_SeqNum req, msg_Members := us\<rparr>)"
  show thesis
    by (rule that [of ?g ?ping])
      (use assms(1) p sent in \<open>auto simp: h1 sends_more_def Send_sent message_def\<close>)
qed

lemma helper_forwards:
  assumes "r \<in> set (pa_relays (pingack h))" "rl_msg r = req"
    "rl_key r = indirect_key (msg_SeqNum req) (msg_Target req)"
    "map_of (pa_pendingIndirect (pingack h)) (rl_key r) = Some (rl_waiter r)"
    "pa_heap (pingack h) (rl_waiter r) = Some \<lparr>iw_requester = requester, iw_ch = None,
      iw_cancelled = c, iw_createdTime = t\<rparr>"
    "pa_active (pingack h)" "msg_Sender ack = msg_Target req" "msg_SeqNum ack = msg_SeqNum req"
  shows "\<exists>h2. PA_relay_ack r now' (PA_handleAck ack now h) = Some h2
    \<and> pa_pendingIndirect (pingack h2) = AList.delete (rl_key r) (pa_pendingIndirect (pingack h))
    \<and> nl_sent (network h2) = nl_sent (network (PA_handleAck ack now h))
      @ (if nl_conn (network h) (NodeID_Address requester) = None
         then [(NodeID_Address requester, stamped now' ((message IndirectAck)\<lparr>
           msg_Sender := ml_LocalNode (membership h), msg_Target := msg_Target req,
           msg_Incarnation := msg_Incarnation ack, msg_SeqNum := msg_SeqNum req\<rparr>))] else [])"
proof -
  let ?h1 = "PA_handleAck ack now h"
  have frame: "pa_pendingIndirect (PA_signal_pending m p) = pa_pendingIndirect p"
    "pa_heap (PA_signal_pending m p) = pa_heap p" for m p
    by (simp_all add: PA_signal_pending_def split: option.split)
  have local: "ml_LocalNode (membership ?h1) = ml_LocalNode (membership h)"
    using PA_handleAck_grows [of h ack now] by (simp add: grows_def)
  have conn: "nl_conn (network ?h1) = nl_conn (network h)"
    using PA_handleAck_grows [of h ack now] by (simp add: grows_def keeps_def)
  have "pa_heap (pingack ?h1) (rl_waiter r) = Some \<lparr>iw_requester = requester,
      iw_ch = Some (msg_Incarnation ack), iw_cancelled = c, iw_createdTime = t\<rparr>"
    "pa_pendingIndirect (pingack ?h1) = pa_pendingIndirect (pingack h)"
    using assms by (simp_all add: PA_handleAck_def PA_signal_waiter_def frame Let_def)
  then show ?thesis
    using assms(2) by (simp add: PA_relay_ack_def relay_finish_def Let_def Send_sent local conn)
qed

lemma indirect_ack_resolves:
  assumes "pa_active (pingack w)" "pa_pendingAcks (pingack w) (msg_SeqNum ack) = Some pending"
    "pp_target pending = msg_Target ack" "pd_seqNum d = msg_SeqNum ack"
  shows "\<exists>w'. PA_period_ack d (PA_handleIndirectAck ack now w) = Some w'
    \<and> pa_pendingAcks (pingack w') (pd_seqNum d) = None
    \<and> pa_periods (pingack w') = remove1 d (pa_periods (pingack w))"
  using assms
  by (simp add: PA_handleIndirectAck_def PA_signal_indirect_def PA_period_ack_def period_finish_def
      drop_pending_def Equals_iff Let_def)

section \<open>The start of a period and its end\<close>

lemma period_begin_effect:
  assumes "PA_period_begin rnd now w = Some w1"
    "candidates [local_key (membership w)] (membership w) \<noteq> []"
    "nl_conn (network w) = (\<lambda>_. None)"
  obtains d ping pending where "d \<in> set (pa_periods (pingack w1))"
    "pa_pendingAcks (pingack w1) (pd_seqNum d) = Some pending" "pp_target pending = pd_target d"
    "nl_sent (network w1) = nl_sent (network w) @ [(NodeID_Address (pd_target d), ping)]"
    "msg_Type ping = Ping" "msg_Target ping = pd_target d" "msg_SeqNum ping = pd_seqNum d"
    "msg_Sender ping = ml_LocalNode (membership w)" "length (msg_Members ping) \<le> 5"
    "pa_active (pingack w1) = pa_active (pingack w)"
    "pd_seqNum d = pa_seqNum (pingack w) + 1" "pd_phase d = WaitDirect"
    "pd_deadline d = time_Add now (to_AckTimeout (pa_timeouts (pingack w)))"
proof -
  let ?cs = "shuffle rnd (candidates [local_key (membership w)] (membership w))"
  have "GetRandomMembers rnd 1 [local_key (membership w)] (membership w) = Some (take 1 ?cs)"
    using GetRandomMembers_take [of 1] by simp
  moreover have "?cs \<noteq> []" using assms(2) by (metis length_shuffle length_0_conv)
  ultimately obtain target where target: "GetRandomMembers rnd 1 [NodeID_String (ml_LocalNode (membership w))]
      (membership w) = Some [target]"
    by (cases ?cs) (auto simp: local_key_def)
  obtain us ml where us: "GetRecentUpdates now 5 (membership w) = Some (us, ml)"
    and short: "length us \<le> 5" and ml: "ml_LocalNode ml = ml_LocalNode (membership w)"
    by (simp add: GetRecentUpdates_take)
  let ?seq = "pa_seqNum (pingack w) + 1"
  let ?ping = "(message Ping)\<lparr>msg_Sender := ml_LocalNode ml, msg_Target := mb_ID target,
    msg_Incarnation := ml_Incarnation ml, msg_SeqNum := ?seq, msg_Members := us\<rparr>"
  let ?d = "\<lparr>pd_seqNum = ?seq, pd_target = mb_ID target, pd_updates = us, pd_phase = WaitDirect,
    pd_deadline = time_Add now (to_AckTimeout (pa_timeouts (pingack w)))\<rparr>"
  show thesis
    by (rule that [of ?d "\<lparr>pp_target = mb_ID target, pp_seqNum = ?seq, pp_startTime = now,
        pp_directAck = False, pp_indirectAcks = [], pp_ackReceived = False\<rparr>" "stamped now ?ping"])
      (use assms(1,3) target us short ml in
        \<open>auto simp: PA_period_begin_def Send_sent message_def Let_def\<close>)
qed

lemma declared_suspicion:
  assumes "pa_enableSuspicion (pingack w)" "suspicion_ok w" "now \<noteq> 0" "wf_ml (membership w)"
    "n \<noteq> ml_LocalNode (membership w)" "target_phase w n = Unsuspected" "manager_quorum w \<le> 1"
    "lookup (membership w) (NodeID_String n) = Some m"
  obtains v m0 where "PA_declareSuspicion n now w
      = ProcessSuspicion (ml_LocalNode (membership w)) n (mb_Incarnation m) now v"
    "suspicion v = suspicion w" "ml_LocalNode (membership v) = ml_LocalNode (membership w)"
    "lookup (membership v) (NodeID_String n) = Some m0" "mb_Incarnation m0 = mb_Incarnation m"
    "m0\<lparr>mb_SuspicionStart := now\<rparr> = m\<lparr>mb_Status := Suspected, mb_SuspicionStart := now\<rparr>"
proof (cases "mb_Status m = Suspected")
  case True
  then show thesis
    by (intro that [of w m]) (use assms in \<open>simp_all add: PA_declareSuspicion_def Let_def\<close>)
next
  case False
  let ?m = "m\<lparr>mb_Status := Suspected, mb_SuspicionStart := now\<rparr>"
  show thesis
    by (rule that [of "w\<lparr>membership := AddRecentUpdate now ?m (store (NodeID_String n) ?m
        (membership w))\<rparr>" ?m])
      (use assms False in \<open>simp_all add: PA_declareSuspicion_def Let_def\<close>)
qed

section \<open>Properties\<close>

text \<open>
  The key under which a helper files a ping request determines the sequence number and
  the target: requests about different probes never share an entry.
\<close>

theorem request_keys_distinct: "(indirect_key s n = indirect_key t m) = (s = t \<and> n = m)"
  by (rule indirect_key_inject)

text \<open>
  A ping that reaches an active node is answered first of all with one acknowledgement,
  to the sender, with the ping's sequence number and the node's own identity and incarnation.
\<close>

theorem ping_is_answered:
  assumes "pa_active (pingack w)" "nl_conn (network w) (NodeID_Address (msg_Sender ping)) = None"
  shows "\<exists>rest. nl_sent (network (PA_handlePing ping now w))
    = nl_sent (network w) @ (NodeID_Address (msg_Sender ping), ack_for ping w now) # rest"
  using assms by (rule ping_answered)

theorem ping_is_answered_witness:
  "\<exists>rest. nl_sent (network (PA_handlePing ((message Ping)\<lparr>msg_Sender := node_at 1, msg_SeqNum := 4\<rparr>) 7
      (sample_node 1)))
    = (NodeID_Address (node_at 1), ack_for ((message Ping)\<lparr>msg_Sender := node_at 1, msg_SeqNum := 4\<rparr>)
        (sample_node 1) 7) # rest"
  using ping_is_answered [of "sample_node 1" "(message Ping)\<lparr>msg_Sender := node_at 1, msg_SeqNum := 4\<rparr>" 7]
  by (simp add: NewPingAckManager_def sample_shared_def NewNetworkLayer_def)


lemma sample_node_candidates: "candidates [local_key (membership (sample_node q))]
    (membership (sample_node q)) = [alive_at 1]"
  by (simp add: candidates_def local_key_def sample_shared_def)

lemma sample_node_conn [simp]: "nl_conn (network (sample_shared q)) = (\<lambda>_. None)"
  "nl_sent (network (sample_shared q)) = []"
  by (simp_all add: sample_shared_def NewNetworkLayer_def)

lemma sample_node_period:
  "\<exists>a1. PA_period_begin (\<lambda>_. 0) 7 (sample_node q) = Some a1"
  using GetRandomMembers_take [of 1 "\<lambda>_. 0" "[local_key (membership (sample_node q))]"
      "membership (sample_node q)"]
  unfolding sample_node_candidates
  by (simp add: PA_period_begin_def local_key_def shuffle_def GetRecentUpdates_take Let_def)



definition waiting_node :: node where
  "waiting_node = (sample_node 1)\<lparr>pingack := NewPingAckManager\<lparr>
     pa_enableSuspicion := True,
     pa_pendingAcks := [4 \<mapsto> \<lparr>pp_target = node_at 1, pp_seqNum = 4, pp_startTime = 0,
       pp_directAck = False, pp_indirectAcks = [], pp_ackReceived = False\<rparr>],
     pa_periods := [\<lparr>pd_seqNum = 4, pd_target = node_at 1, pd_updates = [],
       pd_phase = WaitIndirect, pd_deadline = 5\<rparr>]\<rparr>\<rparr>"

lemma waiting_node_simps [simp]:
  "membership waiting_node = membership (sample_shared 1)"
  "suspicion waiting_node = suspicion (sample_shared 1)"
  "network waiting_node = network (sample_shared 1)"
  "pa_active (pingack waiting_node)" "pa_enableSuspicion (pingack waiting_node)"
  "pa_pendingAcks (pingack waiting_node) 4 = Some \<lparr>pp_target = node_at 1, pp_seqNum = 4,
     pp_startTime = 0, pp_directAck = False, pp_indirectAcks = [], pp_ackReceived = False\<rparr>"
  "pa_periods (pingack waiting_node) = [\<lparr>pd_seqNum = 4, pd_target = node_at 1, pd_updates = [],
     pd_phase = WaitIndirect, pd_deadline = 5\<rparr>]"
  by (simp_all add: waiting_node_def NewPingAckManager_def)

lemma sample_forwards: "\<exists>h1. PA_handleIndirectPing ((message IndirectPing)\<lparr>msg_Sender := node_at 0,
    msg_Target := node_at 1, msg_SeqNum := 4\<rparr>) 7 (sample_node 1) = Some h1"
  by (simp add: PA_handleIndirectPing_def GetRecentUpdates_take Let_def split: option.split)






text \<open>
  With suspicion disabled, an unanswered probe removes the target from the membership
  list at once, touches no other entry and announces the failure with the target's stored
  incarnation; a target that is no longer there changes nothing.
\<close>

theorem unanswered_probe_removes:
  assumes "\<not> pa_enableSuspicion (pingack w)"
  shows "lookup (membership (PA_declareSuspicion n now w)) k
      = (if k = NodeID_String n then None else lookup (membership w) k)
    \<and> ml_recentUpdates (membership (PA_declareSuspicion n now w)) = ml_recentUpdates (membership w) @
      (case lookup (membership w) (NodeID_String n) of None \<Rightarrow> []
       | Some m \<Rightarrow> [\<lparr>up_NodeID = mb_ID m, up_Incarnation = mb_Incarnation m, up_Status = Failed,
           up_Timestamp = now\<rparr>])"
  using assms by (auto simp: PA_declareSuspicion_def AddRecentUpdate_def failed_member_def
      zero_Member_def Let_def split: option.split)

theorem unanswered_probe_removes_witness:
  "lookup (membership (PA_declareSuspicion (node_at 1) 7 (sample_node 1))) (NodeID_String (node_at 1)) = None"
  using unanswered_probe_removes [of "sample_node 1" "node_at 1" 7 "NodeID_String (node_at 1)"]
  by (simp add: NewPingAckManager_def)

end
