(* ===== verification/GoText.thy ===== *)
theory GoText
  imports Prelude
begin

text \<open>
  What the log query tool uses of Go's \<^verbatim>\<open>strings\<close>, \<^verbatim>\<open>bufio\<close>, \<^verbatim>\<open>path/filepath\<close> and
  \<^verbatim>\<open>encoding/json\<close> packages, on strings of bytes: splitting a command into fields, trimming,
  searching, reading a stream line by line with the scanner's limit on the length of a line,
  joining Unix paths, and the JSON form of a string.

  White space is ASCII white space. A byte above 127 is taken for part of a valid UTF-8
  sequence other than U+2028 and U+2029, which the JSON encoder copies.
\<close>

section \<open>Fields and trimming\<close>

definition is_space :: "char \<Rightarrow> bool" where
  "is_space c \<longleftrightarrow> (of_char c :: nat) \<in> {9, 10, 11, 12, 13, 32}"

lemma dropWhile_Cons_head: "dropWhile P s = c # cs \<Longrightarrow> \<not> P c"
  by (metis hd_dropWhile list.distinct(1) list.sel(1))

function Fields :: "string \<Rightarrow> string list" where
  "Fields s = (case dropWhile is_space s of
       [] \<Rightarrow> []
     | c # cs \<Rightarrow> takeWhile (\<lambda>x. \<not> is_space x) (c # cs)
         # Fields (dropWhile (\<lambda>x. \<not> is_space x) (c # cs)))"
  by pat_completeness auto

termination
proof (relation "measure length", simp)
  fix s :: string and c cs
  assume eq: "dropWhile is_space s = c # cs"
  have "length (dropWhile (\<lambda>x. \<not> is_space x) (c # cs)) \<le> length cs"
    using dropWhile_Cons_head [OF eq] length_dropWhile_le by simp
  also have "\<dots> < length s"
    using length_dropWhile_le [of is_space s] eq by simp
  finally show "(dropWhile (\<lambda>x. \<not> is_space x) (c # cs), s) \<in> measure length" by simp
qed

declare Fields.simps [simp del]

definition TrimSpace :: "string \<Rightarrow> string" where
  "TrimSpace s = rev (dropWhile is_space (rev (dropWhile is_space s)))"

text \<open>A field: not empty and free of white space.\<close>

definition is_word :: "string \<Rightarrow> bool" where
  "is_word w \<longleftrightarrow> w \<noteq> [] \<and> list_all (\<lambda>c. \<not> is_space c) w"

lemma Fields_Nil: "dropWhile is_space s = [] \<Longrightarrow> Fields s = []"
  by (subst Fields.simps) (simp only: list.case)

lemma Fields_Cons: "dropWhile is_space s = c # cs \<Longrightarrow>
    Fields s = takeWhile (\<lambda>x. \<not> is_space x) (c # cs)
      # Fields (dropWhile (\<lambda>x. \<not> is_space x) (c # cs))"
  by (subst Fields.simps) (simp only: list.case)

lemma Fields_empty [simp]: "Fields [] = []"
  by (simp add: Fields_Nil)

lemma Fields_skip: "list_all is_space u \<Longrightarrow> Fields (u @ s) = Fields s"
  by (simp add: Fields.simps [of "u @ s"] Fields.simps [of s] dropWhile_append2 list_all_iff)

lemma Fields_space: "list_all is_space u \<Longrightarrow> Fields u = []"
  using Fields_skip [of u "[]"] by simp

lemma word_dropWhile: "is_word w \<Longrightarrow> dropWhile is_space (w @ s) = w @ s"
  by (cases w) (auto simp: is_word_def)

lemma Fields_word:
  assumes "is_word w" "s = [] \<or> is_space (hd s)"
  shows "Fields (w @ s) = w # Fields s"
proof -
  have "takeWhile (\<lambda>x. \<not> is_space x) s = []" "dropWhile (\<lambda>x. \<not> is_space x) s = s"
    using assms(2) by (cases s; simp)+
  moreover obtain c cs where "w = c # cs" using assms(1) by (cases w) (auto simp: is_word_def)
  moreover have "takeWhile (\<lambda>x. \<not> is_space x) (w @ s) = w @ takeWhile (\<lambda>x. \<not> is_space x) s"
    "dropWhile (\<lambda>x. \<not> is_space x) (w @ s) = dropWhile (\<lambda>x. \<not> is_space x) s"
    using assms(1) by (simp_all add: is_word_def list_all_iff)
  ultimately show ?thesis
    using word_dropWhile [OF assms(1), of s] Fields_Cons [of "w @ s" c "cs @ s"] by (metis append_Cons append_Nil2)
qed

lemma Fields_words: "w \<in> set (Fields s) \<Longrightarrow> is_word w"
proof (induction s rule: Fields.induct)
  case (1 s)
  show ?case
  proof (cases "dropWhile is_space s")
    case Nil
    then show ?thesis using "1.prems" Fields_Nil [OF Nil] by simp
  next
    case (Cons c cs)
    have "is_word (takeWhile (\<lambda>x. \<not> is_space x) (c # cs))"
      using dropWhile_Cons_head [OF Cons] by (auto simp: is_word_def list_all_iff dest: set_takeWhileD)
    with "1.prems" "1.IH" [OF Cons] show ?thesis
      unfolding Fields_Cons [OF Cons] by (metis set_ConsD)
  qed
qed

text \<open>Words that are written with white space between them are read back.\<close>

fun join_words :: "string list \<Rightarrow> string" where
  "join_words [] = []"
| "join_words [w] = w"
| "join_words (w # ws) = w @ CHR '' '' # join_words ws"

lemma is_space_blank [simp]: "is_space CHR '' ''"
  by (simp add: is_space_def)

lemma Fields_join: "list_all is_word ws \<Longrightarrow> Fields (join_words ws) = ws"
proof (induction ws rule: join_words.induct)
  case (2 w)
  then show ?case using Fields_word [of w "[]"] by simp
next
  case (3 w v vs)
  then show ?case
    using Fields_word [of w "CHR '' '' # join_words (v # vs)"]
      Fields_skip [of "'' ''" "join_words (v # vs)"] by simp
qed simp

lemma Fields_append_space: "list_all is_space u \<Longrightarrow> Fields (s @ u) = Fields s"
proof (induction s rule: Fields.induct)
  case (1 s)
  show ?case
  proof (cases "dropWhile is_space s")
    case Nil
    then have "list_all is_space s" by (simp add: list_all_iff)
    then show ?thesis using "1.prems" by (simp add: Fields_space)
  next
    case (Cons c cs)
    let ?Q = "\<lambda>x. \<not> is_space x"
    have drop: "dropWhile is_space (s @ u) = (c # cs) @ u"
      using Cons by (metis dropWhile_append3 dropWhile_eq_Nil_conv dropWhile_append1 list.distinct(1))
    have u: "takeWhile ?Q u = []" "dropWhile ?Q u = u"
      using "1.prems" by (cases u; simp)+
    have "takeWhile ?Q ((c # cs) @ u) = takeWhile ?Q (c # cs)
        \<and> dropWhile ?Q ((c # cs) @ u) = dropWhile ?Q (c # cs) @ u"
    proof (cases "list_all ?Q (c # cs)")
      case True
      moreover have "dropWhile ?Q (c # cs) = []" "takeWhile ?Q (c # cs) = c # cs"
        using True by (simp_all add: list_all_iff)
      ultimately show ?thesis using u
        by (auto simp: list_all_iff intro: takeWhile_eq_all_conv [THEN iffD2, symmetric])
    next
      case False
      then obtain x where "x \<in> set (c # cs)" "\<not> ?Q x" by (auto simp: list_all_iff)
      then show ?thesis by (metis takeWhile_append1 dropWhile_append1)
    qed
    with "1.IH" [OF Cons "1.prems"] show ?thesis
      using Fields_Cons [OF Cons] Fields_Cons [of "s @ u" c "cs @ u"] drop by (metis append_Cons)
  qed
qed

lemma Fields_TrimSpace: "Fields (TrimSpace s) = Fields s"
proof -
  let ?t = "dropWhile is_space s"
  have "?t = TrimSpace s @ rev (takeWhile is_space (rev ?t))"
    unfolding TrimSpace_def by (metis rev_append rev_rev_ident takeWhile_dropWhile_id)
  moreover have "list_all is_space (rev (takeWhile is_space (rev ?t)))"
    by (auto simp: list_all_iff dest: set_takeWhileD)
  ultimately have "Fields ?t = Fields (TrimSpace s)"
    by (metis Fields_append_space)
  moreover have "Fields s = Fields ?t"
    using Fields_skip [of "takeWhile is_space s" ?t] by (auto simp: list_all_iff dest: set_takeWhileD)
  ultimately show ?thesis by simp
qed

section \<open>Searching\<close>

definition HasPrefix :: "string \<Rightarrow> string \<Rightarrow> bool" where
  "HasPrefix s t \<longleftrightarrow> take (length t) s = t"

fun Contains :: "string \<Rightarrow> string \<Rightarrow> bool" where
  "Contains [] t = (t = [])"
| "Contains (c # cs) t = (HasPrefix (c # cs) t \<or> Contains cs t)"

lemma Contains_append: "Contains (u @ t @ v) t"
proof (induction u)
  case Nil
  have "take (length t) (t @ v) = t" by simp
  then show ?case by (cases "t @ v") (auto simp: HasPrefix_def)
qed simp

lemma Contains_iff: "Contains s t \<longleftrightarrow> (\<exists>u v. s = u @ t @ v)"
proof
  show "Contains s t \<Longrightarrow> \<exists>u v. s = u @ t @ v"
  proof (induction s)
    case (Cons c cs)
    show ?case
    proof (cases "HasPrefix (c # cs) t")
      case True
      then have "c # cs = [] @ t @ drop (length t) (c # cs)"
        unfolding HasPrefix_def by (metis append_Nil append_take_drop_id)
      then show ?thesis by blast
    next
      case False
      with Cons obtain u v where "cs = u @ t @ v" by auto
      then have "c # cs = (c # u) @ t @ v" by simp
      then show ?thesis by blast
    qed
  qed simp
qed (auto simp: Contains_append)

lemma Contains_char: "Contains s [c] \<longleftrightarrow> c \<in> set s"
  by (induction s) (auto simp: HasPrefix_def)

section \<open>Reading line by line\<close>

text \<open>
  \<^verbatim>\<open>bufio.Scanner\<close> with its default split function and buffer: lines end at a newline or
  at the end of the stream, a carriage return before the newline is dropped, and a line
  that does not fit into the largest buffer (64 KiB, its newline included) ends the scan
  with an error. The result is the lines and whether that error occurred.
\<close>

definition newline_char :: char where
  "newline_char = CHR 0x0A"

definition MaxScanTokenSize :: nat where
  "MaxScanTokenSize = 65536"

definition drop_cr :: "string \<Rightarrow> string" where
  "drop_cr s = (if s \<noteq> [] \<and> last s = CHR 0x0D then butlast s else s)"

lemma length_tl_dropWhile: "s \<noteq> [] \<Longrightarrow> length (tl (dropWhile P s)) < length s"
  using length_dropWhile_le [of P s] by (cases s; cases "dropWhile P s") auto

function scan_lines :: "string \<Rightarrow> string list \<times> bool" where
  "scan_lines s =
     (if s = [] then ([], False)
      else
        let line = takeWhile (\<lambda>c. c \<noteq> newline_char) s;
            rest = tl (dropWhile (\<lambda>c. c \<noteq> newline_char) s)
        in if length line \<ge> MaxScanTokenSize then ([], True)
           else let (lines, tooLong) = scan_lines rest in (drop_cr line # lines, tooLong))"
  by pat_completeness auto

termination
  by (relation "measure length") (simp_all add: length_tl_dropWhile del: length_tl)

declare scan_lines.simps [simp del]

text \<open>A line as it is written to a stream, and one that a scanner returns as it is.\<close>

definition terminated :: "string \<Rightarrow> string" where
  "terminated l = l @ [newline_char]"

definition plain_line :: "string \<Rightarrow> bool" where
  "plain_line l \<longleftrightarrow> newline_char \<notin> set l \<and> (l = [] \<or> last l \<noteq> CHR 0x0D)"

lemma scan_lines_empty [simp]: "scan_lines [] = ([], False)"
  by (simp add: scan_lines.simps)

lemma split_terminated:
  assumes "newline_char \<notin> set l"
  shows "takeWhile (\<lambda>c. c \<noteq> newline_char) (terminated l @ s) = l"
    "tl (dropWhile (\<lambda>c. c \<noteq> newline_char) (terminated l @ s)) = s"
  using assms by (induction l) (auto simp: terminated_def)

lemma scan_lines_terminated:
  assumes "plain_line l"
  shows "scan_lines (terminated l @ s) =
    (if length l < MaxScanTokenSize
     then (l # fst (scan_lines s), snd (scan_lines s)) else ([], True))"
proof -
  have "terminated l @ s \<noteq> []" by (simp add: terminated_def)
  moreover have "drop_cr l = l" "newline_char \<notin> set l"
    using assms by (auto simp: plain_line_def drop_cr_def)
  ultimately show ?thesis
    by (simp add: scan_lines.simps [of "terminated l @ s"] split_terminated Let_def
        split: prod.split)
qed

text \<open>The scanner reads back what was written line by line, up to the first overlong line.\<close>

lemma scan_lines_concat:
  "list_all plain_line ls \<Longrightarrow> scan_lines (concat (map terminated ls))
    = (takeWhile (\<lambda>l. length l < MaxScanTokenSize) ls,
       \<not> list_all (\<lambda>l. length l < MaxScanTokenSize) ls)"
  by (induction ls) (auto simp: scan_lines_terminated)

lemma set_drop_cr: "set (drop_cr l) \<subseteq> set l"
  by (auto simp: drop_cr_def dest: in_set_butlastD)

lemma scan_lines_sound:
  "l \<in> set (fst (scan_lines s)) \<Longrightarrow> newline_char \<notin> set l \<and> length l < MaxScanTokenSize"
proof (induction s rule: scan_lines.induct)
  case (1 s)
  let ?line = "takeWhile (\<lambda>c. c \<noteq> newline_char) s"
  have ne: "s \<noteq> []" "\<not> MaxScanTokenSize \<le> length ?line"
    using "1.prems" by (auto simp: scan_lines.simps [of s] Let_def split: if_splits)
  have "newline_char \<notin> set (drop_cr ?line)" "length (drop_cr ?line) \<le> length ?line"
    using set_drop_cr [of ?line] by (auto simp: drop_cr_def dest: set_takeWhileD)
  with "1.IH" [OF ne(1) refl refl ne(2)] "1.prems" ne show ?case
    by (auto simp: scan_lines.simps [of s] Let_def split: prod.splits)
qed

section \<open>Unix paths\<close>

definition slash :: char where
  "slash = CHR ''/''"

fun split_slash :: "string \<Rightarrow> string list" where
  "split_slash [] = [[]]"
| "split_slash (c # cs) =
     (if c = slash then [] # split_slash cs
      else case split_slash cs of [] \<Rightarrow> [[c]] | w # ws \<Rightarrow> (c # w) # ws)"

fun join_slash :: "string list \<Rightarrow> string" where
  "join_slash [] = []"
| "join_slash [w] = w"
| "join_slash (w # ws) = w @ slash # join_slash ws"

definition IsAbs :: "string \<Rightarrow> bool" where
  "IsAbs p \<longleftrightarrow> HasPrefix p ''/''"

text \<open>One element of a path against the elements kept so far, the last one first.\<close>

definition clean_step :: "bool \<Rightarrow> string \<Rightarrow> string list \<Rightarrow> string list" where
  "clean_step rooted elem kept =
     (if elem = [] \<or> elem = ''.'' then kept
      else if elem = ''..'' then
        (if kept \<noteq> [] \<and> hd kept \<noteq> ''..'' then tl kept
         else if rooted then kept else elem # kept)
      else elem # kept)"

definition Clean :: "string \<Rightarrow> string" where
  "Clean p =
     (let body = join_slash (rev (fold (clean_step (IsAbs p)) (split_slash p) []))
      in if IsAbs p then slash # body else if body = [] then ''.'' else body)"

definition Join_path :: "string \<Rightarrow> string \<Rightarrow> string" where
  "Join_path dir p =
     (if dir \<noteq> [] then Clean (dir @ slash # p) else if p \<noteq> [] then Clean p else [])"

text \<open>\<^verbatim>\<open>filepath.Dir\<close>: the path up to its last slash.\<close>

definition Dir :: "string \<Rightarrow> string" where
  "Dir p = Clean (rev (dropWhile (\<lambda>c. c \<noteq> slash) (rev p)))"

text \<open>\<open>getwd\<close> is the working directory of the process, if it can be determined.\<close>

definition Abs_path :: "string option \<Rightarrow> string \<Rightarrow> string option" where
  "Abs_path getwd p =
     (if IsAbs p then Some (Clean p) else map_option (\<lambda>wd. Join_path wd p) getwd)"

lemma Clean_not_empty [simp]: "Clean p \<noteq> []"
  by (simp add: Clean_def Let_def)

lemma IsAbs_Clean [simp]: "IsAbs p \<Longrightarrow> IsAbs (Clean p)"
  by (simp add: Clean_def Let_def IsAbs_def HasPrefix_def slash_def)

lemma IsAbs_append: "IsAbs p \<Longrightarrow> IsAbs (p @ q)"
  by (cases p) (auto simp: IsAbs_def HasPrefix_def)

lemma split_slash_not_empty [simp]: "split_slash s \<noteq> []"
  by (cases s) (auto split: list.splits)

lemma split_slash_append: "split_slash (u @ slash # v) = split_slash u @ split_slash v"
  by (induction u) (auto split: list.splits)

lemma split_slash_name: "slash \<notin> set v \<Longrightarrow> split_slash v = [v]"
  by (induction v) auto

lemma join_slash_snoc: "ws \<noteq> [] \<Longrightarrow> join_slash (ws @ [w]) = join_slash ws @ slash # w"
  by (induction ws rule: join_slash.induct) auto

text \<open>A name filed in a clean directory other than the root has the expected path.\<close>

lemma Clean_in_directory:
  assumes "IsAbs dir" "Clean dir = dir" "dir \<noteq> ''/''"
    "name \<noteq> []" "name \<noteq> ''.''" "name \<noteq> ''..''" "slash \<notin> set name"
  shows "Clean (dir @ slash # name) = dir @ slash # name"
proof -
  let ?kept = "fold (clean_step True) (split_slash dir) []"
  have dir: "dir = slash # join_slash (rev ?kept)"
    using assms(1,2) by (simp add: Clean_def Let_def)
  then have "?kept \<noteq> []" using assms(3) by (auto simp: slash_def)
  moreover have "fold (clean_step True) (split_slash (dir @ slash # name)) [] = name # ?kept"
    using assms(4-7) by (simp add: split_slash_append split_slash_name clean_step_def)
  moreover have "IsAbs (dir @ slash # name)" using assms(1) by (rule IsAbs_append)
  ultimately have "Clean (dir @ slash # name) = slash # join_slash (rev ?kept) @ slash # name"
    by (simp add: Clean_def join_slash_snoc)
  with dir show ?thesis by (metis append_Cons)
qed

section \<open>The JSON form of a string\<close>

text \<open>
  \<^verbatim>\<open>encoding/json\<close> with its default escaping of HTML characters, as in Go 1.22 and later
  (which writes backspace and form feed as \<^verbatim>\<open>\b\<close> and \<^verbatim>\<open>\f\<close>).
\<close>

definition hex_digit :: "nat \<Rightarrow> char" where
  "hex_digit n = (if n < 10 then char_of (48 + n) else char_of (87 + n))"

definition backslash :: char where
  "backslash = CHR 0x5C"

definition dquote :: char where
  "dquote = CHR 0x22"

definition json_char :: "char \<Rightarrow> string" where
  "json_char c =
     (if c = dquote \<or> c = backslash then [backslash, c]
      else if c = CHR 0x08 then [backslash, CHR ''b'']
      else if c = CHR 0x0C then [backslash, CHR ''f'']
      else if c = CHR 0x0A then [backslash, CHR ''n'']
      else if c = CHR 0x0D then [backslash, CHR ''r'']
      else if c = CHR 0x09 then [backslash, CHR ''t'']
      else let n = of_char c :: nat in
        if n < 32 \<or> c \<in> {CHR ''<'', CHR ''>'', CHR ''&''} then
          [backslash, CHR ''u'', CHR ''0'', CHR ''0'', hex_digit (n div 16), hex_digit (n mod 16)]
        else [c])"

definition json_string :: "string \<Rightarrow> string" where
  "json_string s = dquote # concat (map json_char s) @ [dquote]"

definition unhex :: "char \<Rightarrow> nat" where
  "unhex c = (let n = of_char c :: nat in if n < 58 then n - 48 else n - 87)"

text \<open>Reads what \<^const>\<open>json_string\<close> writes, from after the opening quote.\<close>

fun unjson :: "string \<Rightarrow> (string \<times> string) option" where
  "unjson [] = None"
| "unjson (c # cs) =
     (if c = dquote then Some ([], cs)
      else if c \<noteq> backslash then map_option (\<lambda>(s, rest). (c # s, rest)) (unjson cs)
      else case cs of
        [] \<Rightarrow> None
      | e # es \<Rightarrow>
          if e = CHR ''u'' then
            (case es of
               _ # _ # h # l # rest \<Rightarrow>
                 map_option (\<lambda>(s, r). (char_of (16 * unhex h + unhex l) # s, r)) (unjson rest)
             | _ \<Rightarrow> None)
          else map_option (\<lambda>(s, r). ((if e = CHR ''b'' then CHR 0x08
              else if e = CHR ''f'' then CHR 0x0C
              else if e = CHR ''n'' then CHR 0x0A
              else if e = CHR ''r'' then CHR 0x0D
              else if e = CHR ''t'' then CHR 0x09 else e) # s, r)) (unjson es))"

lemma unhex_hex [simp]: "n < 16 \<Longrightarrow> unhex (hex_digit n) = n"
  by (simp add: unhex_def hex_digit_def)

lemma json_char_cases:
  obtains (quoted) "c = dquote \<or> c = backslash" "json_char c = [backslash, c]"
  | (named) e where "json_char c = [backslash, e]"
      "(c, e) \<in> {(CHR 0x08, CHR ''b''), (CHR 0x0C, CHR ''f''), (CHR 0x0A, CHR ''n''),
        (CHR 0x0D, CHR ''r''), (CHR 0x09, CHR ''t'')}"
  | (numbered) "json_char c = [backslash, CHR ''u'', CHR ''0'', CHR ''0'',
      hex_digit (of_char c div 16), hex_digit (of_char c mod 16)]"
  | (copied) "json_char c = [c]" "c \<noteq> dquote" "c \<noteq> backslash" "32 \<le> (of_char c :: nat)"
proof (cases "c \<in> {dquote, backslash, CHR 0x08, CHR 0x0C, CHR 0x0A, CHR 0x0D, CHR 0x09}")
  case True
  then consider "c = dquote \<or> c = backslash"
    | "c \<in> {CHR 0x08, CHR 0x0C, CHR 0x0A, CHR 0x0D, CHR 0x09}" by blast
  then show ?thesis
  proof cases
    case 1
    then show ?thesis by (intro quoted) (auto simp: json_char_def)
  next
    case 2
    then show ?thesis by (auto simp: json_char_def dquote_def backslash_def intro: named)
  qed
next
  case False
  show ?thesis
  proof (cases "(of_char c :: nat) < 32 \<or> c \<in> {CHR ''<'', CHR ''>'', CHR ''&''}")
    case True
    with False show ?thesis by (intro numbered) (simp add: json_char_def Let_def)
  next
    case f: False
    with False show ?thesis by (intro copied) (simp_all add: json_char_def Let_def)
  qed
qed

lemma unjson_char:
  "unjson (json_char c @ t) = map_option (\<lambda>(s, r). (c # s, r)) (unjson t)"
proof (cases c rule: json_char_cases)
  case quoted
  then show ?thesis by (auto simp: dquote_def backslash_def)
next
  case (named e)
  then show ?thesis by (auto simp: dquote_def backslash_def)
next
  case numbered
  have "(of_char c :: nat) div 16 < 16" by (simp add: less_mult_imp_div_less)
  then have "char_of (16 * unhex (hex_digit (of_char c div 16)) + unhex (hex_digit (of_char c mod 16))) = c"
    by simp
  with numbered show ?thesis by (simp add: backslash_def dquote_def del: unhex_hex)
next
  case copied
  then show ?thesis by simp
qed

lemma unjson_string: "unjson (tl (json_string s) @ t) = Some (s, t)"
proof -
  have "unjson (concat (map json_char s) @ dquote # t) = Some (s, t)"
    by (induction s) (simp_all add: unjson_char)
  then show ?thesis by (simp add: json_string_def)
qed

lemma hex_digit_plain: "n < 16 \<Longrightarrow> 32 \<le> (of_char (hex_digit n) :: nat)"
  by (simp add: hex_digit_def)

lemma json_char_plain: "x \<in> set (json_char c) \<Longrightarrow> 32 \<le> (of_char x :: nat)"
  by (cases c rule: json_char_cases)
    (auto simp: backslash_def dquote_def less_mult_imp_div_less intro: hex_digit_plain)

lemma json_string_plain: "x \<in> set (json_string s) \<Longrightarrow> 32 \<le> (of_char x :: nat)"
  by (auto simp: json_string_def dquote_def dest: json_char_plain)

lemma json_char_length: "1 \<le> length (json_char c) \<and> length (json_char c) \<le> 6"
  by (simp add: json_char_def Let_def)

lemma json_string_length:
  "length s + 2 \<le> length (json_string s) \<and> length (json_string s) \<le> 6 * length s + 2"
proof -
  have "length s \<le> length (concat (map json_char s))
      \<and> length (concat (map json_char s)) \<le> 6 * length s"
  proof (induction s)
    case (Cons c s)
    then show ?case using json_char_length [of c] by simp
  qed simp
  then show ?thesis by (simp add: json_string_def)
qed

end
