(* ===== verification/LogServer.thy ===== *)
theory LogServer
  imports GoText
begin

text \<open>
  The log query server of \<^verbatim>\<open>src/logquerier/server/server.go\<close> with the wire types of
  \<^verbatim>\<open>src/logquerier/common/types.go\<close>: a client sends one request, the server runs \<^verbatim>\<open>grep\<close>
  on a configured log file and streams one JSON response per line of its output.

  The operating system is an argument, the record \<open>os\<close>: the working directory of the
  process, which files exist, and what a command prints. The JSON decoder of the request
  is the decoded value, \<^term>\<open>None\<close> when it fails.
\<close>

section \<open>Wire types and configuration\<close>

definition DefaultPort :: int where
  "DefaultPort = 10081"

definition DefaultFileType :: string where
  "DefaultFileType = ''node''"

record ServerRequest =
  rq_Input :: string
  rq_FileType :: string

record ServerResponse =
  rs_Output :: string
  rs_LogFile :: string

record LogConfig =
  lc_Addr :: string
  lc_LogPaths :: "string gomap option"
  lc_DefaultFileType :: string
  lc_WorkingDirectory :: string

record LogServer =
  ls_cfg :: LogConfig
  ls_listener :: bool

datatype LogError = PathNotConfigured string

text \<open>A \<^verbatim>\<open>nil\<close> map (\<^term>\<open>None\<close>) has no entries.\<close>

definition log_path :: "LogConfig \<Rightarrow> string \<Rightarrow> string option" where
  "log_path cfg fileType = (case lc_LogPaths cfg of None \<Rightarrow> None | Some m \<Rightarrow> map_of m fileType)"

definition NewLogServer :: "LogConfig \<Rightarrow> LogError + LogServer" where
  "NewLogServer cfg =
     (let cfg1 = (if lc_Addr cfg = [] then cfg\<lparr>lc_Addr := CHR '':'' # dec_int DefaultPort\<rparr> else cfg);
          cfg2 = (if lc_DefaultFileType cfg1 = []
            then cfg1\<lparr>lc_DefaultFileType := DefaultFileType\<rparr> else cfg1);
          cfg3 = (if lc_LogPaths cfg2 = None then cfg2\<lparr>lc_LogPaths := Some []\<rparr> else cfg2)
      in if log_path cfg3 (lc_DefaultFileType cfg3) = None
         then Inl (PathNotConfigured (lc_DefaultFileType cfg3))
         else Inr \<lparr>ls_cfg = cfg3, ls_listener = False\<rparr>)"

section \<open>The operating system\<close>

datatype Run = NotStarted string | Stdout string int

record os =
  os_Getwd :: "string option"
  os_Stat :: "string \<Rightarrow> bool"
  os_exec :: "string \<Rightarrow> string list \<Rightarrow> string \<Rightarrow> Run"

section \<open>Requests\<close>

text \<open>The treatment of a configured path, the same in both halves of \<^verbatim>\<open>resolveLogPath\<close>.\<close>

definition absolute_path :: "os \<Rightarrow> LogServer \<Rightarrow> string \<Rightarrow> string" where
  "absolute_path sys s p =
     (if \<not> IsAbs p then
        if lc_WorkingDirectory (ls_cfg s) \<noteq> [] then Join_path (lc_WorkingDirectory (ls_cfg s)) p
        else case Abs_path (os_Getwd sys) p of Some p' \<Rightarrow> p' | None \<Rightarrow> p
      else p)"

definition resolveLogPath :: "os \<Rightarrow> LogServer \<Rightarrow> string \<Rightarrow> string" where
  "resolveLogPath sys s fileType =
     (case (if fileType \<noteq> [] then log_path (ls_cfg s) fileType else None) of
        Some p \<Rightarrow> absolute_path sys s p
      | None \<Rightarrow>
          (case log_path (ls_cfg s) (lc_DefaultFileType (ls_cfg s)) of
             Some p \<Rightarrow> absolute_path sys s p
           | None \<Rightarrow> []))"

definition parseCommand :: "string \<Rightarrow> string \<times> string list" where
  "parseCommand input = (case Fields input of [] \<Rightarrow> ([], []) | f # fs \<Rightarrow> (f, fs))"

text \<open>Why a connection is closed without an answer.\<close>

datatype Refusal =
    DecodeFailed | UnknownFileType string | FileUnavailable string
  | EmptyCommand | NotGrep string | StartFailed string

text \<open>
  \<open>failing\<close> is the number of responses after which a write to the connection fails, if it
  does; the exit code of the command only appears in the server's log.
\<close>

definition streamGrep ::
  "os \<Rightarrow> LogServer \<Rightarrow> nat option \<Rightarrow> string \<Rightarrow> string \<Rightarrow> Refusal + ServerResponse list" where
  "streamGrep sys s failing query logPath =
     (let (name, args) = parseCommand query in
      if name = [] then Inl EmptyCommand
      else if name \<noteq> ''grep'' then Inl (NotGrep query)
      else case os_exec sys name (args @ [logPath]) (lc_WorkingDirectory (ls_cfg s)) of
        NotStarted err \<Rightarrow> Inl (StartFailed err)
      | Stdout out code \<Rightarrow>
          let resps = map (\<lambda>line. \<lparr>rs_Output = line, rs_LogFile = logPath\<rparr>) (fst (scan_lines out))
          in Inr (case failing of None \<Rightarrow> resps | Some k \<Rightarrow> take k resps))"

definition handleConnection ::
  "os \<Rightarrow> LogServer \<Rightarrow> nat option \<Rightarrow> ServerRequest option \<Rightarrow> Refusal + ServerResponse list" where
  "handleConnection sys s failing decoded =
     (case decoded of
        None \<Rightarrow> Inl DecodeFailed
      | Some req \<Rightarrow>
          let logPath = resolveLogPath sys s (rq_FileType req) in
          if logPath = [] then Inl (UnknownFileType (rq_FileType req))
          else if \<not> os_Stat sys logPath then Inl (FileUnavailable logPath)
          else streamGrep sys s failing (TrimSpace (rq_Input req)) logPath)"

section \<open>The accept loop\<close>

text \<open>
  What \<^verbatim>\<open>Accept\<close> returns: a connection, or an error with what \<^verbatim>\<open>Serve\<close> asks of it (is the
  context done, is the listener closed, is the error temporary).
\<close>

datatype 'c Accept = Accepted 'c | AcceptError bool bool bool string

text \<open>
  The connections handed to handlers of their own and, if the loop has returned, the error
  it returned (\<^term>\<open>Some None\<close> for \<^verbatim>\<open>nil\<close>).
\<close>

fun accept_loop :: "'c Accept list \<Rightarrow> 'c list \<times> string option option" where
  "accept_loop [] = ([], None)"
| "accept_loop (Accepted conn # rest) =
     (let (conns, result) = accept_loop rest in (conn # conns, result))"
| "accept_loop (AcceptError ctxDone closed temporary err # rest) =
     (if ctxDone then ([], Some None)
      else if closed then ([], Some None)
      else if temporary then accept_loop rest
      else ([], Some (Some err)))"

definition Serve ::
  "string option \<Rightarrow> 'c Accept list \<Rightarrow> LogServer \<Rightarrow> LogServer \<times> 'c list \<times> string option option" where
  "Serve listenErr accepts s =
     (case listenErr of
        Some err \<Rightarrow> (s, [], Some (Some err))
      | None \<Rightarrow> (s\<lparr>ls_listener := True\<rparr>, accept_loop accepts))"

text \<open>\<^verbatim>\<open>Close\<close>, with the error with which the listener's own \<^verbatim>\<open>Close\<close> would return.\<close>

definition Close_server :: "string option \<Rightarrow> LogServer \<Rightarrow> string option" where
  "Close_server closeErr s = (if ls_listener s then closeErr else None)"

section \<open>The bytes of a response\<close>

definition encode_response :: "ServerResponse \<Rightarrow> string" where
  "encode_response r =
     CHR 0x7B # json_string ''output'' @ CHR '':'' # json_string (rs_Output r)
     @ CHR '','' # json_string ''log_file'' @ CHR '':'' # json_string (rs_LogFile r) @ [CHR 0x7D]"

text \<open>All that a connection carries back: \<^verbatim>\<open>Encode\<close> ends each response with a newline.\<close>

definition connection_bytes :: "Refusal + ServerResponse list \<Rightarrow> string" where
  "connection_bytes r = (case r of Inl _ \<Rightarrow> []
     | Inr resps \<Rightarrow> concat (map (\<lambda>x. terminated (encode_response x)) resps))"

section \<open>What a server is built from\<close>

lemma New_default_path:
  assumes "NewLogServer cfg = Inr s"
  obtains p where "log_path (ls_cfg s) (lc_DefaultFileType (ls_cfg s)) = Some p"
  using assms by (auto simp: NewLogServer_def Let_def split: if_splits)

text \<open>The file that answers a request, as the key of a configured path.\<close>

definition answering_key :: "LogServer \<Rightarrow> string \<Rightarrow> string" where
  "answering_key s fileType =
     (if fileType \<noteq> [] \<and> log_path (ls_cfg s) fileType \<noteq> None then fileType
      else lc_DefaultFileType (ls_cfg s))"

lemma resolve_answering:
  assumes "NewLogServer cfg = Inr s"
  shows "map_option (absolute_path sys s) (log_path (ls_cfg s) (answering_key s fileType))
    = Some (resolveLogPath sys s fileType)"
proof -
  obtain p where "log_path (ls_cfg s) (lc_DefaultFileType (ls_cfg s)) = Some p"
    using New_default_path [OF assms] .
  then show ?thesis
    by (cases "fileType = []"; cases "log_path (ls_cfg s) fileType")
      (simp_all add: resolveLogPath_def answering_key_def)
qed

text \<open>The configuration that \<^verbatim>\<open>main\<close> gives the server.\<close>

definition main_log_config :: "string \<Rightarrow> LogConfig" where
  "main_log_config workDir =
     \<lparr>lc_Addr = CHR '':'' # dec_int DefaultPort,
      lc_LogPaths = Some [(DefaultFileType, ''node.log'')],
      lc_DefaultFileType = DefaultFileType, lc_WorkingDirectory = workDir\<rparr>"

definition clean_directory :: "string \<Rightarrow> bool" where
  "clean_directory dir \<longleftrightarrow> IsAbs dir \<and> Clean dir = dir \<and> dir \<noteq> ''/''"

text \<open>
  The server that the main program starts exists, and it answers every request, whatever
  file type the request names, from \<^verbatim>\<open>node.log\<close> in the working directory: a request can
  never choose the file by its file type.
\<close>

theorem main_log_server:
  assumes "clean_directory workDir"
  shows "\<exists>s. NewLogServer (main_log_config workDir) = Inr s
    \<and> (\<forall>sys fileType. resolveLogPath sys s fileType = workDir @ ''/node.log'')"
proof -
  let ?s = "\<lparr>ls_cfg = main_log_config workDir, ls_listener = False\<rparr>"
  have new: "NewLogServer (main_log_config workDir) = Inr ?s"
    by (simp add: NewLogServer_def main_log_config_def log_path_def DefaultFileType_def)
  have "\<not> IsAbs []" by (simp add: IsAbs_def HasPrefix_def)
  then have "workDir \<noteq> []" using assms by (auto simp: clean_directory_def)
  moreover have "Clean (workDir @ slash # ''node.log'') = workDir @ slash # ''node.log''"
    by (rule Clean_in_directory) (use assms in \<open>simp_all add: clean_directory_def slash_def\<close>)
  moreover have "\<not> IsAbs ''node.log''" by (simp add: IsAbs_def HasPrefix_def)
  ultimately have path: "absolute_path sys ?s ''node.log'' = workDir @ ''/node.log''" for sys
    by (simp add: absolute_path_def main_log_config_def Join_path_def slash_def)
  have "resolveLogPath sys ?s fileType = workDir @ ''/node.log''" for sys fileType
    using resolve_answering [OF new, of sys fileType] path
    by (auto simp: main_log_config_def log_path_def split: if_splits)
  with new show ?thesis by blast
qed

theorem main_log_server_witness:
  "\<exists>s. NewLogServer (main_log_config ''/home/mp2'') = Inr s"
proof -
  have "clean_directory ''/home/mp2''"
    by (simp add: clean_directory_def IsAbs_def HasPrefix_def Clean_def clean_step_def slash_def)
  from main_log_server [OF this] show ?thesis by blast
qed

lemma grep_answers:
  assumes "list_all is_word ws" "resolveLogPath sys s fileType = path" "path \<noteq> []"
    "os_Stat sys path"
    "os_exec sys ''grep'' (ws @ [path]) (lc_WorkingDirectory (ls_cfg s))
      = Stdout (concat (map terminated ls)) code"
    "list_all plain_line ls"
  shows "handleConnection sys s None
      (Some \<lparr>rq_Input = join_words (''grep'' # ws), rq_FileType = fileType\<rparr>)
    = Inr (map (\<lambda>l. \<lparr>rs_Output = l, rs_LogFile = path\<rparr>)
        (takeWhile (\<lambda>l. length l < MaxScanTokenSize) ls))"
proof -
  have "is_word ''grep''" by (simp add: is_word_def is_space_def)
  with assms(1) have "Fields (TrimSpace (join_words (''grep'' # ws))) = ''grep'' # ws"
    by (simp add: Fields_TrimSpace Fields_join)
  with assms(2-) show ?thesis
    by (simp add: handleConnection_def streamGrep_def parseCommand_def scan_lines_concat Let_def)
qed

text \<open>
  C28: The words of a command reach \<^verbatim>\<open>grep\<close> as the client wrote them, before the log file:
  quotes are not removed, and further file names among them are searched like the log file.
  What the client gets is every line of the output up to the first that is too long.
\<close>

theorem grep_gets_all_words:
  assumes "list_all is_word ws" "resolveLogPath sys s fileType = path" "path \<noteq> []"
    "os_Stat sys path"
    "os_exec sys ''grep'' (ws @ [path]) (lc_WorkingDirectory (ls_cfg s))
      = Stdout (concat (map terminated ls)) code"
    "list_all plain_line ls"
  shows "handleConnection sys s None
      (Some \<lparr>rq_Input = join_words (''grep'' # ws), rq_FileType = fileType\<rparr>)
    = Inr (map (\<lambda>l. \<lparr>rs_Output = l, rs_LogFile = path\<rparr>)
        (takeWhile (\<lambda>l. length l < MaxScanTokenSize) ls))"
  using assms by (rule grep_answers)

text \<open>A host with one log file on which \<^verbatim>\<open>grep\<close> prints, first, its own arguments.\<close>

definition echo_host :: os where
  "echo_host = \<lparr>os_Getwd = None, os_Stat = (\<lambda>p. p = ''/d/node.log''),
     os_exec = (\<lambda>name args wd. Stdout (concat (map terminated args)) 0)\<rparr>"

definition sample_server :: LogServer where
  "sample_server = \<lparr>ls_cfg = main_log_config ''/d'', ls_listener = True\<rparr>"

lemma sample_path: "resolveLogPath sys sample_server t = ''/d/node.log''"
  by (simp add: resolveLogPath_def sample_server_def main_log_config_def log_path_def
      DefaultFileType_def absolute_path_def Join_path_def IsAbs_def HasPrefix_def Clean_def
      clean_step_def slash_def split: option.split)

theorem grep_gets_all_words_witness:
  "handleConnection echo_host sample_server None
     (Some \<lparr>rq_Input = ''grep root /etc/passwd'', rq_FileType = ''node''\<rparr>)
   = Inr (map (\<lambda>l. \<lparr>rs_Output = l, rs_LogFile = ''/d/node.log''\<rparr>)
       [''root'', ''/etc/passwd'', ''/d/node.log''])"
  using grep_gets_all_words [of "[''root'', ''/etc/passwd'']" echo_host sample_server "''node''"
      "''/d/node.log''" "[''root'', ''/etc/passwd'', ''/d/node.log'']" 0]
  by (simp add: sample_path echo_host_def is_word_def is_space_def plain_line_def
      newline_char_def MaxScanTokenSize_def)

text \<open>
  The accept loop serves every connection that comes before its first fatal error, and it
  returns an error only for one that is neither expected nor temporary.
\<close>

lemma accept_loop_serves:
  assumes "list_all (\<lambda>a. case a of Accepted _ \<Rightarrow> True
      | AcceptError done closed temporary _ \<Rightarrow> \<not> done \<and> \<not> closed \<and> temporary) before"
  shows "accept_loop (before @ rest)
    = ([c. Accepted c \<leftarrow> before] @ fst (accept_loop rest), snd (accept_loop rest))"
  using assms
proof (induction before)
  case (Cons a before)
  then show ?case by (cases a) (simp_all add: case_prod_beta)
qed simp

lemma accept_loop_error:
  "snd (accept_loop as) = Some (Some err) \<Longrightarrow> AcceptError False False False err \<in> set as"
proof (induction as rule: accept_loop.induct)
  case (3 ctxDone closed temporary e rest)
  then show ?case by (cases ctxDone; cases closed; cases temporary) auto
qed (auto simp: case_prod_beta)

section \<open>A response is one line\<close>

lemma newline_notin_json: "newline_char \<notin> set (json_string s)"
  using json_string_plain [of newline_char s] by (auto simp: newline_char_def)

lemma encode_response_plain: "plain_line (encode_response r)"
  using newline_notin_json
  by (auto simp: plain_line_def encode_response_def newline_char_def)

text \<open>The inverse of the encoder on its own responses.\<close>

definition expect :: "string \<Rightarrow> string \<Rightarrow> string option" where
  "expect t s = (if HasPrefix s t then Some (drop (length t) s) else None)"

definition decode_response :: "string \<Rightarrow> ServerResponse option" where
  "decode_response s =
     Option.bind (expect (CHR 0x7B # json_string ''output'' @ '':'') s) (\<lambda>s1.
     Option.bind (unjson (tl s1)) (\<lambda>(out, s2).
     Option.bind (expect (CHR '','' # json_string ''log_file'' @ '':'') s2) (\<lambda>s3.
     Option.bind (unjson (tl s3)) (\<lambda>(file, s4).
       if s4 = [CHR 0x7D] then Some \<lparr>rs_Output = out, rs_LogFile = file\<rparr> else None))))"

lemma expect_append [simp]: "expect t (t @ s) = Some s"
  by (simp add: expect_def HasPrefix_def)

lemma tl_json_string: "tl (json_string s @ t) = tl (json_string s) @ t"
  by (simp add: json_string_def)

lemma decode_encode: "decode_response (encode_response r) = Some r"
proof -
  have "encode_response r = (CHR 0x7B # json_string ''output'' @ '':'') @ json_string (rs_Output r)
      @ (CHR '','' # json_string ''log_file'' @ '':'') @ json_string (rs_LogFile r) @ [CHR 0x7D]"
    by (simp add: encode_response_def)
  then show ?thesis
    by (simp only: decode_response_def expect_append bind.bind_lunit tl_json_string unjson_string
        prod.case) simp
qed

lemma encode_response_length:
  "length (rs_Output r) + length (rs_LogFile r) + 27 \<le> length (encode_response r)"
  using json_string_length [of "rs_Output r"] json_string_length [of "rs_LogFile r"]
  by (simp add: encode_response_def json_string_def json_char_def dquote_def backslash_def Let_def)

end
