(* ===== verification/LogClient.thy ===== *)
theory LogClient
  imports LogServer "HOL-Library.List_Lexorder" "HOL-Library.Char_ord" "HOL-Library.Sublist"
begin

text \<open>
  The log query client of \<^verbatim>\<open>src/logquerier/client/client.go\<close>: it collects the hosts, asks
  each of them in a goroutine of its own, merges the answers as they arrive and prints
  them with their total. What the network does with a connection, and what a hosts file
  contains, is an argument; the order in which the merged channels deliver is any order
  that the relation \<open>fanIn\<close> allows.
\<close>

section \<open>Types\<close>

record LogOptions =
  lo_Hosts :: "string list"
  lo_HostsFile :: string
  lo_Port :: int
  lo_Request :: ServerRequest
  lo_Timeout :: duration

record Result =
  re_Addr :: string
  re_LogFile :: string
  re_Line :: string
  re_Err :: "string option"

datatype ClientError = OpenHostsFile string | ReadHostsFile string | NoHosts

definition tooLongErr :: string where
  "tooLongErr = ''bufio.Scanner: token too long''"

section \<open>Hosts\<close>

text \<open>\<open>file\<close>: the error of opening the hosts file, or its bytes and the error of reading it, if any.\<close>

definition resolveHosts ::
  "string list \<Rightarrow> string \<Rightarrow> string + string \<times> string option \<Rightarrow> ClientError + string list" where
  "resolveHosts explicit hostsFile file =
     (let dedup = (\<lambda>hosts. Inr (sort (remdups hosts))) in
      if hostsFile = [] then dedup explicit
      else case file of
        Inl err \<Rightarrow> Inl (OpenHostsFile err)
      | Inr (bytes, readErr) \<Rightarrow>
          let (lines, tooLong) = scan_lines bytes;
              raw = filter (\<lambda>r. r \<noteq> [] \<and> \<not> HasPrefix r ''#'') (map TrimSpace lines)
          in (case (if tooLong then Some tooLongErr else readErr) of
                Some err \<Rightarrow> Inl (ReadHostsFile err)
              | None \<Rightarrow> dedup (explicit @ raw)))"

definition host_address :: "int \<Rightarrow> string \<Rightarrow> string" where
  "host_address port host =
     (if \<not> Contains host '':'' then host @ CHR '':'' # dec_int port else host)"

text \<open>
  Where the hosts file is looked for: beside the executable, in the working directory,
  else the bare name. \<open>exe\<close> and \<open>getwd\<close> are \<^term>\<open>None\<close> when they cannot be determined.
\<close>

definition DefaultHostsFile :: "string option \<Rightarrow> string option \<Rightarrow> (string \<Rightarrow> bool) \<Rightarrow> string" where
  "DefaultHostsFile exe getwd stat =
     (let beside = map_option (\<lambda>e. Join_path (Dir e) ''hosts.txt'') exe;
          local = map_option (\<lambda>wd. Join_path wd ''hosts.txt'') getwd
      in case beside of
        Some candidate \<Rightarrow> if stat candidate then candidate
          else (case local of Some c \<Rightarrow> if stat c then c else ''hosts.txt'' | None \<Rightarrow> ''hosts.txt'')
      | None \<Rightarrow> (case local of Some c \<Rightarrow> if stat c then c else ''hosts.txt'' | None \<Rightarrow> ''hosts.txt''))"

section \<open>One connection\<close>

text \<open>
  How a connection goes: dialling fails, sending the request fails, or the server's bytes
  arrive until it closes the connection or reading fails.
\<close>

datatype Dial = DialFailed string | EncodeFailed string | Stream string "string option"

definition error_result :: "string \<Rightarrow> string \<Rightarrow> Result" where
  "error_result address err = \<lparr>re_Addr = address, re_LogFile = [], re_Line = [], re_Err = Some err\<rparr>"

definition line_result :: "string \<Rightarrow> ServerResponse \<Rightarrow> Result" where
  "line_result address resp =
     \<lparr>re_Addr = address, re_LogFile = rs_LogFile resp, re_Line = rs_Output resp, re_Err = None\<rparr>"

fun connection :: "(string \<Rightarrow> string + ServerResponse) \<Rightarrow> string \<Rightarrow> Dial \<Rightarrow> Result list" where
  "connection decode address (DialFailed err) = [error_result address err]"
| "connection decode address (EncodeFailed err) = [error_result address err]"
| "connection decode address (Stream bytes readErr) =
     (let (lines, tooLong) = scan_lines bytes in
      map (\<lambda>line. case decode line of
          Inl err \<Rightarrow> error_result address err
        | Inr resp \<Rightarrow> line_result address resp) lines
      @ (case (if tooLong then Some tooLongErr else readErr) of
           None \<Rightarrow> [] | Some err \<Rightarrow> [error_result address err]))"

section \<open>Merging\<close>

text \<open>
  The goroutines of \<^verbatim>\<open>fanIn\<close> forward one channel each: every step delivers the head of
  some channel, and the merged channel is closed when all channels are.
\<close>

inductive fanIn :: "'a list list \<Rightarrow> 'a list \<Rightarrow> bool" where
  closed: "list_all (\<lambda>c. c = []) cs \<Longrightarrow> fanIn cs []"
| deliver: "i < length cs \<Longrightarrow> cs ! i = x # xs \<Longrightarrow> fanIn (cs[i := xs]) out \<Longrightarrow> fanIn cs (x # out)"

definition fanInConnections ::
  "(string \<Rightarrow> string + ServerResponse) \<Rightarrow> (string \<Rightarrow> Dial) \<Rightarrow> string list \<Rightarrow> int \<Rightarrow> Result list list" where
  "fanInConnections decode dial hosts port =
     map (\<lambda>host. connection decode (host_address port host) (dial (host_address port host))) hosts"

section \<open>The report\<close>

definition shouldCount :: "string \<Rightarrow> bool" where
  "shouldCount input \<longleftrightarrow> \<not> Contains input ''-c'' \<and> \<not> Contains input ''--counting''"

definition output_line :: "Result \<Rightarrow> string" where
  "output_line r = ''['' @ re_Addr r @ '' '' @ re_LogFile r @ ''] '' @ re_Line r"

definition error_line :: "Result \<Rightarrow> string \<Rightarrow> string" where
  "error_line r err = ''log querier: '' @ re_Addr r @ '' error: '' @ err"

text \<open>The loop over the merged results: lines printed, errors printed, matches counted.\<close>

fun report :: "bool \<Rightarrow> Result list \<Rightarrow> string list \<times> string list \<times> int64" where
  "report counting [] = ([], [], 0)"
| "report counting (res # rest) =
     (let (outs, errs, total) = report counting rest in
      case re_Err res of
        Some err \<Rightarrow> (outs, error_line res err # errs, total)
      | None \<Rightarrow> (output_line res # outs, errs, if counting then total + 1 else total))"

text \<open>
  \<open>merge\<close> is the order of delivery. The result is the error, or the lines written to the
  output and to the error output.
\<close>

definition Run ::
  "(string \<Rightarrow> string + ServerResponse) \<Rightarrow> string + string \<times> string option \<Rightarrow> (string \<Rightarrow> Dial)
   \<Rightarrow> (Result list list \<Rightarrow> Result list) \<Rightarrow> LogOptions \<Rightarrow> ClientError + string list \<times> string list" where
  "Run decode file dial merge opts =
     (let opts1 = (if lo_Port opts = 0 then opts\<lparr>lo_Port := DefaultPort\<rparr> else opts);
          opts2 = (if lo_Timeout opts1 = 0 then opts1\<lparr>lo_Timeout := 5 * Second\<rparr> else opts1)
      in case resolveHosts (lo_Hosts opts2) (lo_HostsFile opts2) file of
        Inl err \<Rightarrow> Inl err
      | Inr addresses \<Rightarrow>
          if addresses = [] then Inl NoHosts
          else
            let combined = merge (fanInConnections decode dial addresses (lo_Port opts2));
                counting = shouldCount (rq_Input (lo_Request opts2));
                (outs, errs, total) = report counting combined
            in Inr (if counting then outs @ [''Total matches: '' @ dec_int (sint total)] else outs, errs))"

section \<open>Facts on merging\<close>

lemma mset_concat_update:
  "i < length cs \<Longrightarrow> mset (concat (cs[i := ys])) + mset (cs ! i) = mset (concat cs) + mset ys"
proof (induction cs arbitrary: i)
  case (Cons c cs)
  then show ?case by (cases i) (auto simp: ac_simps)
qed simp

lemma fanIn_mset: "fanIn cs out \<Longrightarrow> mset out = mset (concat cs)"
proof (induction rule: fanIn.induct)
  case (deliver i cs x xs out)
  then show ?case using mset_concat_update [of i cs xs] by simp
qed (auto simp: list_all_iff)

lemma fanIn_subseq: "fanIn cs out \<Longrightarrow> j < length cs \<Longrightarrow> subseq (cs ! j) out"
proof (induction rule: fanIn.induct)
  case (closed cs)
  then show ?case by (simp add: list_all_length)
next
  case (deliver i cs x xs out)
  then show ?case by (cases "j = i") auto
qed

lemma fanIn_concat: "fanIn cs (concat cs)"
proof (induction "length (concat cs)" arbitrary: cs)
  case 0
  then have "concat cs = []" by simp
  then have "fanIn cs []" by (intro fanIn.closed) (simp add: list_all_iff)
  with \<open>concat cs = []\<close> show ?case by metis
next
  case (Suc n)
  have "\<exists>c \<in> set cs. c \<noteq> []"
  proof (rule ccontr)
    assume "\<not> (\<exists>c \<in> set cs. c \<noteq> [])"
    then have "concat cs = []" by simp
    with Suc.hyps(2) show False by (metis list.size(3) nat.distinct(1))
  qed
  then obtain ys c zs where cs: "cs = ys @ c # zs" "c \<noteq> []" "\<forall>y \<in> set ys. \<not> y \<noteq> []"
    using split_list_first_prop [of cs "\<lambda>c. c \<noteq> []"] by blast
  then obtain x xs where c: "c = x # xs" by (cases c) auto
  have ys: "concat ys = []" using cs(3) by simp
  have eq: "concat cs = x # concat (cs[length ys := xs])"
    unfolding cs(1) c list_update_length concat_append ys by simp
  then have "fanIn (cs[length ys := xs]) (concat (cs[length ys := xs]))"
    using Suc.hyps(2) by (intro Suc.hyps(1)) (metis diff_Suc_1 length_Cons)
  moreover have "length ys < length cs" "cs ! length ys = x # xs" using cs(1) c by simp_all
  ultimately show ?case unfolding eq by (rule fanIn.deliver [rotated 2])
qed

section \<open>Facts on the report\<close>

definition answers :: "Result list \<Rightarrow> Result list" where
  "answers rs = filter (\<lambda>r. re_Err r = None) rs"

lemma report_answers:
  "fst (report b rs) = map output_line (answers rs)
    \<and> snd (snd (report b rs)) = of_nat (if b then length (answers rs) else 0)"
proof (induction rs)
  case (Cons r rs)
  then show ?case by (cases "re_Err r") (simp_all add: answers_def case_prod_beta)
qed (simp add: answers_def)

lemma report_mset:
  assumes "mset rs = mset rs'"
  shows "mset (fst (report b rs)) = mset (fst (report b rs'))"
    "snd (snd (report b rs)) = snd (snd (report b rs'))"
proof -
  have "mset (answers rs) = mset (answers rs')" using assms by (simp add: answers_def)
  then show "mset (fst (report b rs)) = mset (fst (report b rs'))"
    "snd (snd (report b rs)) = snd (snd (report b rs'))"
    using report_answers [of b rs] report_answers [of b rs']
    by (simp_all add: mset_map) (metis size_mset)
qed

lemma report_lines:
  "list_all (\<lambda>r. re_Err r = None) rs \<Longrightarrow>
    report b rs = (map output_line rs, [], of_nat (if b then length rs else 0))"
  by (induction rs) auto

section \<open>What a decoder of the responses gives\<close>

text \<open>
  \<^verbatim>\<open>json.Unmarshal\<close> is an argument of the client: all that the client needs of it is that
  it reads what the server's encoder writes.
\<close>

locale response_codec =
  fixes decode :: "string \<Rightarrow> string + ServerResponse"
  assumes decodes: "decode (encode_response r) = Inr r"
begin

lemma responses_read:
  "connection decode a (Stream (concat (map (\<lambda>r. terminated (encode_response r)) rs)) None)
    = map (line_result a) (takeWhile (\<lambda>r. length (encode_response r) < MaxScanTokenSize) rs)
      @ (if list_all (\<lambda>r. length (encode_response r) < MaxScanTokenSize) rs then []
         else [error_result a tooLongErr])"
proof -
  have "scan_lines (concat (map (\<lambda>r. terminated (encode_response r)) rs))
      = (map encode_response (takeWhile (\<lambda>r. length (encode_response r) < MaxScanTokenSize) rs),
         \<not> list_all (\<lambda>r. length (encode_response r) < MaxScanTokenSize) rs)"
    using scan_lines_concat [of "map encode_response rs"]
    by (simp add: comp_def list.pred_map takeWhile_map encode_response_plain list.pred_True)
  then show ?thesis by (simp add: decodes)
qed

lemma short_responses_read:
  assumes "list_all (\<lambda>r. length (encode_response r) < MaxScanTokenSize) rs"
  shows "connection decode a (Stream (connection_bytes (Inr rs)) None) = map (line_result a) rs"
proof -
  have "takeWhile (\<lambda>r. length (encode_response r) < MaxScanTokenSize) rs = rs"
    using assms by (simp add: takeWhile_eq_all_conv list_all_iff)
  then show ?thesis
    unfolding connection_bytes_def using assms responses_read [of a rs]
    by (simp only: sum.case if_True append_Nil2 simp_thms)
qed

end

text \<open>The decoder that reads exactly the encoder's responses.\<close>

definition line_decoder :: "string \<Rightarrow> string + ServerResponse" where
  "line_decoder s = (case decode_response s of None \<Rightarrow> Inl ''invalid response'' | Some r \<Rightarrow> Inr r)"

interpretation rc: response_codec line_decoder
  by unfold_locales (simp add: line_decoder_def decode_encode)

section \<open>Properties\<close>

text \<open>
  Merging loses, duplicates and reorders nothing within a connection: whatever the
  order of delivery, the merged channel carries exactly the results of all connections, those
  of one connection in their order; and some order of delivery always exists, so it is closed.
\<close>

theorem fanIn_complete:
  "(\<exists>out. fanIn cs out)
    \<and> (\<forall>out. fanIn cs out \<longrightarrow> mset out = mset (concat cs) \<and> (\<forall>j < length cs. subseq (cs ! j) out))"
  using fanIn_concat fanIn_mset fanIn_subseq by blast

theorem fanIn_complete_witness:
  "mset [2 :: nat, 1, 3] = mset (concat [[1, 3], [2 :: nat]])"
proof -
  have "fanIn [[], []] ([] :: nat list)" by (rule fanIn.closed) simp
  then have "fanIn [[3], []] [3 :: nat]" using fanIn.deliver [of 0 "[[3 :: nat], []]"] by simp
  then have "fanIn [[1, 3], []] [1, 3 :: nat]" using fanIn.deliver [of 0 "[[1 :: nat, 3], []]"] by simp
  then have "fanIn [[1, 3], [2]] [2 :: nat, 1, 3]" using fanIn.deliver [of 1 "[[1 :: nat, 3], [2]]"] by simp
  with fanIn_complete [of "[[1, 3], [2 :: nat]]"] show ?thesis by blast
qed

text \<open>
  The hosts asked are those given and those of the hosts file (trimmed, without blank
  lines and comments), each once and in sorted order; without a readable hosts file the
  query ends with an error.
\<close>

theorem resolveHosts_spec:
  "resolveHosts explicit hostsFile file = Inr hosts \<Longrightarrow>
    sorted hosts \<and> distinct hosts
    \<and> set hosts = set explicit \<union> (if hostsFile = [] then {} else
        {r. \<exists>bytes. file = Inr (bytes, None) \<and> \<not> snd (scan_lines bytes)
          \<and> (\<exists>l \<in> set (fst (scan_lines bytes)). r = TrimSpace l \<and> r \<noteq> [] \<and> \<not> HasPrefix r ''#'')})"
  by (auto simp: resolveHosts_def Let_def split: if_splits sum.splits prod.splits option.splits)

theorem resolveHosts_witness:
  "sorted [''a'', ''b''] \<and> distinct [''a'', ''b'']"
proof -
  have "resolveHosts [''b'', ''a'', ''b''] [] (Inl []) = Inr [''a'', ''b'']"
    by (simp add: resolveHosts_def less_eq_char_def less_char_def)
  from resolveHosts_spec [OF this] show ?thesis by blast
qed

text \<open>
  A query over several hosts, each with its server: \<open>host_server\<close> gives the system and the
  server behind an address.
\<close>

definition server_answer :: "(string \<Rightarrow> os \<times> LogServer) \<Rightarrow> ServerRequest \<Rightarrow> string
    \<Rightarrow> Refusal + ServerResponse list" where
  "server_answer host_server req address =
     (let (sys, s) = host_server address in handleConnection sys s None (Some req))"

definition answered_lines :: "string \<Rightarrow> Refusal + ServerResponse list \<Rightarrow> string list" where
  "answered_lines address r = (case r of Inl _ \<Rightarrow> []
     | Inr resps \<Rightarrow> map (\<lambda>x. output_line (line_result address x)) resps)"

definition short_answer :: "Refusal + ServerResponse list \<Rightarrow> bool" where
  "short_answer r = (case r of Inl _ \<Rightarrow> True
     | Inr resps \<Rightarrow> list_all (\<lambda>x. length (encode_response x) < MaxScanTokenSize) resps)"

lemma sint_of_nat_64: "n < 2 ^ 63 \<Longrightarrow> sint (of_nat n :: int64) = int n"
  using sint_word_of_int_64 [of "int n"] by simp

lemma size_sum_list: "size (\<Sum>x \<leftarrow> xs. M x) = (\<Sum>x \<leftarrow> xs. size (M x))"
  for M :: "'a \<Rightarrow> 'b multiset"
  by (induction xs) simp_all

context response_codec
begin

lemma server_connection:
  assumes "short_answer r"
  shows "map output_line (connection decode a (Stream (connection_bytes r) None)) = answered_lines a r
    \<and> list_all (\<lambda>x. re_Err x = None) (connection decode a (Stream (connection_bytes r) None))"
proof (cases r)
  case (Inl e)
  then show ?thesis by (simp add: connection_bytes_def answered_lines_def)
next
  case (Inr resps)
  then have "connection decode a (Stream (connection_bytes r) None) = map (line_result a) resps"
    using assms short_responses_read [of resps a] by (simp add: short_answer_def del: connection.simps)
  with Inr show ?thesis
    by (simp add: answered_lines_def line_result_def list_all_iff del: connection.simps)
qed

lemma merged_report:
  assumes "mset rs = mset (concat (fanInConnections decode
      (\<lambda>a. Stream (connection_bytes (answer a)) None) hosts port))"
    "\<forall>h \<in> set hosts. short_answer (answer (host_address port h))"
  shows "\<exists>outs. report b rs = (outs, [], of_nat (if b then length outs else 0))
    \<and> mset outs = (\<Sum>h \<leftarrow> hosts. mset (answered_lines (host_address port h) (answer (host_address port h))))"
proof -
  let ?conn = "\<lambda>h. connection decode (host_address port h)
    (Stream (connection_bytes (answer (host_address port h))) None)"
  have all: "mset rs = mset (concat (map ?conn hosts))"
    using assms(1) by (simp add: fanInConnections_def)
  have ok: "map output_line (?conn h) = answered_lines (host_address port h) (answer (host_address port h))
      \<and> list_all (\<lambda>x. re_Err x = None) (?conn h)" if "h \<in> set hosts" for h
    using server_connection assms(2) that by blast
  have "set rs = set (concat (map ?conn hosts))" using all by (metis set_mset_mset)
  then have "list_all (\<lambda>r. re_Err r = None) rs"
    using ok by (auto simp: list_all_iff simp del: connection.simps)
  moreover have "mset (map output_line rs) = mset (map output_line (concat (map ?conn hosts)))"
    unfolding mset_map all ..
  moreover have "map output_line (concat (map ?conn hosts)) = concat (map
      (\<lambda>h. answered_lines (host_address port h) (answer (host_address port h))) hosts)"
    unfolding map_concat map_map comp_def using ok
    by (intro arg_cong [where f = concat] map_cong) (simp_all del: connection.simps)
  ultimately have "report b rs = (map output_line rs, [], of_nat (if b then length (map output_line rs) else 0))
      \<and> mset (map output_line rs) = (\<Sum>h \<leftarrow> hosts. mset (answered_lines (host_address port h)
        (answer (host_address port h))))"
    by (simp only: report_lines length_map mset_concat map_map comp_def simp_thms)
  then show ?thesis by blast
qed

end



text \<open>
  A request that is not a \<^verbatim>\<open>grep\<close> command is refused in silence: the client gets no
  result and no error, exactly as for a search without matches, and reports nothing.
\<close>

theorem refusals_are_silent:
  assumes "Fields (rq_Input req) = [] \<or> hd (Fields (rq_Input req)) \<noteq> ''grep''"
  shows "connection decode a (Stream (connection_bytes (handleConnection sys s failing (Some req))) None)
      = connection decode a (Stream (connection_bytes (Inr [])) None)
    \<and> connection decode a (Stream (connection_bytes (Inr [])) None) = []"
proof -
  have "\<exists>e. handleConnection sys s failing (Some req) = Inl e"
    using assms by (cases "Fields (rq_Input req)")
      (auto simp: handleConnection_def streamGrep_def parseCommand_def Fields_TrimSpace Let_def)
  then show ?thesis by (auto simp: connection_bytes_def)
qed

theorem refusals_are_silent_witness:
  "connection line_decoder ''h:1'' (Stream (connection_bytes (handleConnection echo_host sample_server
     None (Some \<lparr>rq_Input = ''rm -rf x'', rq_FileType = []\<rparr>))) None) = []"
proof -
  have "Fields (join_words [''rm'', ''-rf'', ''x'']) = [''rm'', ''-rf'', ''x'']"
    by (rule Fields_join) (simp add: is_word_def is_space_def)
  then show ?thesis
    using refusals_are_silent [of "\<lparr>rq_Input = ''rm -rf x'', rq_FileType = []\<rparr>" line_decoder "''h:1''"
        echo_host sample_server None] by simp
qed


text \<open>A host on which \<^verbatim>\<open>grep\<close> prints one line that fits the server's scanner only.\<close>

definition long_line :: string where
  "long_line = replicate 65530 CHR ''x''"

definition long_host :: os where
  "long_host = \<lparr>os_Getwd = None, os_Stat = (\<lambda>p. True),
     os_exec = (\<lambda>name args wd. Stdout (concat (map terminated [long_line])) 0)\<rparr>"

lemma long_line_facts: "length long_line = 65530" "plain_line long_line"
proof -
  show "length long_line = 65530" unfolding long_line_def by (rule length_replicate)
  have "set long_line = {CHR ''x''}" unfolding long_line_def by (rule set_replicate) simp
  moreover have "long_line \<noteq> []" using \<open>length long_line = 65530\<close> by auto
  ultimately have "newline_char \<notin> set long_line" "last long_line = CHR ''x''"
    using last_in_set [of long_line] by (auto simp: newline_char_def)
  then show "plain_line long_line" by (simp add: plain_line_def)
qed


end
