(* ===== verification/Command.thy ===== *)
theory Command
  imports Controller LogClient
begin

text \<open>
  The main program of \<^verbatim>\<open>src/main.go\<close>: the command-line client (\<^verbatim>\<open>runClient\<close>), which turns a
  command into a request to the control server or a log query, the multiplexer that the
  control server is built from (\<^verbatim>\<open>NewControlServer\<close>), and the start and shutdown of a node
  (\<^verbatim>\<open>main\<close>).

  Of Go's \<^verbatim>\<open>net/url\<close> and \<^verbatim>\<open>strconv\<close> it needs the escaping of query strings and their
  parsing, and the reading of a decimal number.
\<close>

section \<open>Query strings\<close>

definition unreserved :: "char \<Rightarrow> bool" where
  "unreserved c \<longleftrightarrow> (let n = of_char c :: nat in
     (48 \<le> n \<and> n \<le> 57) \<or> (65 \<le> n \<and> n \<le> 90) \<or> (97 \<le> n \<and> n \<le> 122)
     \<or> c \<in> {CHR ''-'', CHR ''_'', CHR ''.'', CHR ''~''})"

definition upper_hex :: "nat \<Rightarrow> char" where
  "upper_hex n = (if n < 10 then char_of (48 + n) else char_of (55 + n))"

definition escape_char :: "char \<Rightarrow> string" where
  "escape_char c =
     (if unreserved c then [c]
      else if c = CHR '' '' then ''+''
      else [CHR ''%'', upper_hex (of_char c div 16), upper_hex (of_char c mod 16)])"

definition QueryEscape :: "string \<Rightarrow> string" where
  "QueryEscape s = concat (map escape_char s)"

definition unhex_digit :: "char \<Rightarrow> nat option" where
  "unhex_digit c = (let n = of_char c :: nat in
     if 48 \<le> n \<and> n \<le> 57 then Some (n - 48)
     else if 97 \<le> n \<and> n \<le> 102 then Some (n - 87)
     else if 65 \<le> n \<and> n \<le> 70 then Some (n - 55)
     else None)"

fun QueryUnescape :: "string \<Rightarrow> string option" where
  "QueryUnescape [] = Some []"
| "QueryUnescape (c # cs) =
     (if c = CHR ''%'' then
        (case cs of
           h # l # rest \<Rightarrow>
             (case (unhex_digit h, unhex_digit l) of
                (Some a, Some b) \<Rightarrow> map_option ((#) (char_of (16 * a + b))) (QueryUnescape rest)
              | _ \<Rightarrow> None)
         | _ \<Rightarrow> None)
      else map_option ((#) (if c = CHR ''+'' then CHR '' '' else c)) (QueryUnescape cs))"

text \<open>\<^verbatim>\<open>url.Values.Encode\<close> on keys that are given in sorted order.\<close>

fun Encode_values :: "(string \<times> string) list \<Rightarrow> string" where
  "Encode_values [] = []"
| "Encode_values [(k, v)] = QueryEscape k @ CHR ''='' # QueryEscape v"
| "Encode_values ((k, v) # kvs) = QueryEscape k @ CHR ''='' # QueryEscape v @ CHR ''&'' # Encode_values kvs"

fun split_on :: "char \<Rightarrow> string \<Rightarrow> string list" where
  "split_on d [] = [[]]"
| "split_on d (c # cs) = (if c = d then [] # split_on d cs
     else case split_on d cs of [] \<Rightarrow> [[c]] | w # ws \<Rightarrow> (c # w) # ws)"

text \<open>\<^verbatim>\<open>strings.Cut\<close>: the parts before and after the first \<open>d\<close>.\<close>

definition Cut :: "char \<Rightarrow> string \<Rightarrow> string \<times> string" where
  "Cut d s = (takeWhile (\<lambda>c. c \<noteq> d) s, tl (dropWhile (\<lambda>c. c \<noteq> d) s))"

text \<open>
  \<^verbatim>\<open>ParseQuery\<close>, without its error, which \<^verbatim>\<open>URL.Query\<close> drops: a malformed setting is left out.
\<close>

definition ParseQuery :: "string \<Rightarrow> (string \<times> string) list" where
  "ParseQuery q = concat (map (\<lambda>setting.
     if CHR '';'' \<in> set setting \<or> setting = [] then []
     else let (key, value) = Cut CHR ''='' setting in
       (case (QueryUnescape key, QueryUnescape value) of
          (Some k, Some v) \<Rightarrow> [(k, v)]
        | _ \<Rightarrow> [])) (split_on CHR ''&'' q))"

definition Get_value :: "string \<Rightarrow> (string \<times> string) list \<Rightarrow> string" where
  "Get_value key values = (case map_of values key of None \<Rightarrow> [] | Some v \<Rightarrow> v)"

section \<open>The control server's multiplexer\<close>

text \<open>
  A request is its (clean) path and its query string. A registered path answers every method;
  any other path is answered by the multiplexer itself. \<^term>\<open>None\<close> is a handler that panics.
\<close>

definition control_server :: "string \<Rightarrow> string \<Rightarrow> time \<Rightarrow> node \<Rightarrow> Response option \<times> node" where
  "control_server path query now w =
     (let q = ParseQuery query in
      if path = ''/list_mem'' then (Some (CS_handleListMem w), w)
      else if path = ''/list_self'' then (CS_handleListSelf w, w)
      else if path = ''/display_suspects'' then (Some (CS_handleDisplaySuspects w), w)
      else if path = ''/join'' then
        (let (response, w') = CS_handleJoin (Get_value ''introducer'' q) now w in (Some response, w'))
      else if path = ''/leave'' then
        (let (response, w') = CS_handleLeave now w in (Some response, w'))
      else if path = ''/switch'' then
        CS_handleSwitch (Get_value ''mechanism'' q) (Get_value ''suspicion'' q) w
      else if path = ''/display_protocol'' then (Some (CS_handleDisplayProtocol w), w)
      else (Some (404, ''404 page not found'' @ newline), w))"

section \<open>The command-line client\<close>

fun atoi_digits :: "string \<Rightarrow> bool" where
  "atoi_digits s = (s \<noteq> [] \<and> list_all (\<lambda>c. 48 \<le> (of_char c :: nat) \<and> (of_char c :: nat) \<le> 57) s)"

definition Atoi :: "string \<Rightarrow> int option" where
  "Atoi s =
     (let (sign, digits) = (case s of
          c # cs \<Rightarrow> if c = CHR ''-'' then (-1, cs) else if c = CHR ''+'' then (1, cs) else (1, s)
        | [] \<Rightarrow> (1, s));
          n = sign * int (undec digits)
      in if atoi_digits digits \<and> - (2 ^ 63) \<le> n \<and> n < 2 ^ 63 then Some n else None)"

text \<open>
  What a command does: it fails, asks the control server (path and query), or queries logs.
  The output of \<^verbatim>\<open>log.Fatal\<close> is reduced to the fact.
\<close>

datatype ClientAction = Fatal | HttpGet string string | GrepLogs LogOptions

text \<open>\<open>env\<close> is the environment, \<open>default_hosts\<close> the value of \<^verbatim>\<open>DefaultHostsFile()\<close>.\<close>

definition runClient ::
  "(string \<Rightarrow> string) \<Rightarrow> string \<Rightarrow> string \<Rightarrow> string \<Rightarrow> string \<Rightarrow> ClientAction" where
  "runClient env default_hosts cmd arg1 arg2 =
     (let c = ToLower cmd in
      if c = ''list_mem'' then HttpGet ''/list_mem'' []
      else if c = ''list_self'' then HttpGet ''/list_self'' []
      else if c = ''display_suspects'' then HttpGet ''/display_suspects'' []
      else if c = ''join'' then
        if arg1 = [] then Fatal
        else HttpGet ''/join'' (Encode_values [(''introducer'', arg1)])
      else if c = ''leave'' then HttpGet ''/leave'' []
      else if c = ''switch'' then
        if arg1 = [] \<or> arg2 = [] then Fatal
        else HttpGet ''/switch'' (Encode_values [(''mechanism'', arg1), (''suspicion'', arg2)])
      else if c = ''display_protocol'' then HttpGet ''/display_protocol'' []
      else if c = ''grep_logs'' then
        if arg1 = [] then Fatal
        else
          let fileType = (if arg2 = [] then DefaultFileType else arg2);
              hostsEnv = env ''MP2_LOG_HOSTS_FILE'';
              hostsFile = (if hostsEnv = [] then default_hosts else hostsEnv);
              opts = \<lparr>lo_Hosts = [], lo_HostsFile = hostsFile, lo_Port = DefaultPort,
                lo_Request = \<lparr>rq_Input = arg1, rq_FileType = fileType\<rparr>, lo_Timeout = 0\<rparr>;
              portEnv = env ''MP2_LOG_PORT''
          in GrepLogs (if portEnv = [] then opts
             else case Atoi portEnv of Some p \<Rightarrow> opts\<lparr>lo_Port := p\<rparr> | None \<Rightarrow> opts)
      else Fatal)"

section \<open>The start of a node\<close>

record Flags =
  fl_port :: int64
  fl_introducer :: string
  fl_isIntroducer :: bool
  fl_mode :: string
  fl_cmd :: string
  fl_controlPort :: int64
  fl_arg1 :: string
  fl_arg2 :: string
  fl_foreground :: bool

text \<open>
  What the operating system answers on the way: the path of the executable and the error
  of starting a child, the local address, the errors of opening the socket and the log
  file, the working directory, and how sending to an address fails.
\<close>

record system =
  sy_Executable :: "string option"
  sy_startErr :: "string option"
  sy_env :: "string \<Rightarrow> string"
  sy_dialErr :: "string option"
  sy_localIP :: string
  sy_resolveErr :: "string option"
  sy_listenErr :: "string option"
  sy_Getwd :: "string option"
  sy_openLogErr :: "string option"
  sy_conn :: "string \<Rightarrow> string option"
  sy_defaultHosts :: string

text \<open>
  A node that runs has its state, the port of its control server and its log server. A
  daemon is a child with the same arguments and one more variable in its environment.
\<close>

datatype MainOutcome =
    Client ClientAction
  | Daemon "string \<Rightarrow> string"
  | Aborted
  | Running node int64 LogServer

definition control_port :: "Flags \<Rightarrow> int64" where
  "control_port f = (if fl_controlPort f = 0 then fl_port f + 10000 else fl_controlPort f)"

definition main_config :: "string \<Rightarrow> Flags \<Rightarrow> time \<Rightarrow> Config" where
  "main_config localIP f now =
     \<lparr>cfg_NodeID = \<lparr>nid_IP = localIP, nid_Port = fl_port f, nid_Timestamp = time_Unix now\<rparr>,
      cfg_IntroducerAddr = fl_introducer f, cfg_IsIntroducer = fl_isIntroducer f,
      cfg_Mode = ParseMode (fl_mode f),
      cfg_Timeouts = \<lparr>to_FailureTimeout = 0, to_CleanupTimeout = 0, to_SuspicionTimeout = 0,
        to_GossipPeriod = 0, to_ProtocolPeriod = 0, to_AckTimeout = 0, to_CheckInterval = 0\<rparr>\<rparr>"

text \<open>The join that \<^verbatim>\<open>main\<close> attempts on its own; its error is only logged.\<close>

definition main_join :: "Flags \<Rightarrow> time \<Rightarrow> node \<Rightarrow> node" where
  "main_join f now w =
     (if \<not> fl_isIntroducer f \<and> fl_introducer f \<noteq> [] then snd (C_JoinGroup (fl_introducer f) now w)
      else w)"

definition main :: "system \<Rightarrow> Flags \<Rightarrow> time \<Rightarrow> MainOutcome" where
  "main sys f now =
     (if fl_cmd f \<noteq> [] then
        Client (runClient (sy_env sys) (sy_defaultHosts sys) (fl_cmd f) (fl_arg1 f) (fl_arg2 f))
      else if \<not> fl_foreground f \<and> sy_env sys ''MP2_DAEMONIZED'' \<noteq> ''1'' then
        (if sy_Executable sys = None \<or> sy_startErr sys \<noteq> None then Aborted
         else Daemon ((sy_env sys)(''MP2_DAEMONIZED'' := ''1'')))
      else
        (case GetLocalIP (sy_dialErr sys) (sy_localIP sys) of
           None \<Rightarrow> Aborted
         | Some localIP \<Rightarrow>
             (case C_Start (Network_Start (sy_resolveErr sys) (sy_listenErr sys))
                     (NewController (main_config localIP f now) (sy_conn sys) now) of
                (Some err, _) \<Rightarrow> Aborted
              | (None, w) \<Rightarrow>
                  (case sy_Getwd sys of
                     None \<Rightarrow> Aborted
                   | Some workDir \<Rightarrow>
                       if sy_openLogErr sys \<noteq> None then Aborted
                       else
                         (case NewLogServer (main_log_config workDir) of
                            Inl err \<Rightarrow> Aborted
                          | Inr logSrv \<Rightarrow> Running (main_join f now w) (control_port f) logSrv)))))"

text \<open>
  On a signal \<^verbatim>\<open>main\<close> shuts the control server down, so that no request comes any more, stops
  the controller and returns; the deferred call that closes the log server runs in any case.
\<close>

definition main_shutdown :: "string option \<Rightarrow> node \<Rightarrow> LogServer \<Rightarrow> Outcome \<times> node \<times> string option" where
  "main_shutdown closeErr w logSrv =
     (let (out, w') = C_Stop w in (out, w', Close_server closeErr logSrv))"

text \<open>
  What \<^verbatim>\<open>runClient\<close> prints of the control server's answer; without an answer it ends with an
  error.
\<close>

definition client_prints :: "string + string \<Rightarrow> string option" where
  "client_prints answer = (case answer of Inl err \<Rightarrow> None | Inr body \<Rightarrow> Some (body @ newline))"

lemma main_runs:
  assumes "fl_cmd f = []" "fl_foreground f" "sy_dialErr sys = None" "sy_resolveErr sys = None"
    "C_Start (sy_listenErr sys) (NewController (main_config (sy_localIP sys) f now) (sy_conn sys) now) = (None, w)"
    "sy_Getwd sys = Some workDir" "sy_openLogErr sys = None"
    "NewLogServer (main_log_config workDir) = Inr s"
  shows "main sys f now = Running (main_join f now w) (control_port f) s"
  using assms by (simp add: main_def GetLocalIP_def Network_Start_def)

section \<open>Facts on query strings\<close>

lemma unhex_upper [simp]: "n < 16 \<Longrightarrow> unhex_digit (upper_hex n) = Some n"
  by (simp add: unhex_digit_def upper_hex_def Let_def)

lemma unreserved_plain: "unreserved c \<Longrightarrow> c \<notin> {CHR ''%'', CHR ''+'', CHR ''&'', CHR '';'', CHR ''=''}"
  by (auto simp: unreserved_def)

lemma upper_hex_plain: "n < 16 \<Longrightarrow> unreserved (upper_hex n)"
  by (simp add: unreserved_def upper_hex_def Let_def)

lemma QueryUnescape_char: "QueryUnescape (escape_char c @ t) = map_option ((#) c) (QueryUnescape t)"
proof (cases "unreserved c")
  case True
  then show ?thesis using unreserved_plain [OF True] by (simp add: escape_char_def)
next
  case False
  have "(of_char c :: nat) div 16 < 16" by (simp add: less_mult_imp_div_less)
  with False show ?thesis by (simp add: escape_char_def)
qed

lemma QueryUnescape_Escape: "QueryUnescape (QueryEscape s) = Some s"
  by (induction s) (simp_all add: QueryEscape_def QueryUnescape_char)

lemma escape_char_set: "x \<in> set (escape_char c) \<Longrightarrow> x \<notin> {CHR ''&'', CHR '';'', CHR ''=''}"
proof -
  have "(of_char c :: nat) div 16 < 16" by (simp add: less_mult_imp_div_less)
  then have "unreserved (upper_hex (of_char c div 16))" "unreserved (upper_hex (of_char c mod 16))"
    by (simp_all add: upper_hex_plain)
  then show "x \<in> set (escape_char c) \<Longrightarrow> ?thesis"
    using unreserved_plain by (auto simp: escape_char_def split: if_splits)
qed

lemma QueryEscape_set:
  "CHR ''&'' \<notin> set (QueryEscape s)" "CHR '';'' \<notin> set (QueryEscape s)" "CHR ''='' \<notin> set (QueryEscape s)"
  using escape_char_set by (auto simp: QueryEscape_def)

lemma split_on_none: "d \<notin> set s \<Longrightarrow> split_on d s = [s]"
  by (induction s) auto

lemma split_on_append: "d \<notin> set s \<Longrightarrow> split_on d (s @ d # t) = s # split_on d t"
  by (induction s) auto

lemma Cut_append: "d \<notin> set s \<Longrightarrow> Cut d (s @ d # t) = (s, t)"
  by (induction s) (auto simp: Cut_def)

lemma ParseQuery_Encode:
  "ParseQuery (Encode_values [(k, v)]) = [(k, v)]"
  "ParseQuery (Encode_values [(k, v), (k', v')]) = [(k, v), (k', v')]"
proof -
  let ?s = "\<lambda>k v. QueryEscape k @ CHR ''='' # QueryEscape v"
  have amp: "CHR ''&'' \<notin> set (?s k v)" for k v by (simp add: QueryEscape_set)
  have split: "split_on CHR ''&'' (?s k v @ CHR ''&'' # ?s k' v') = [?s k v, ?s k' v']"
    using split_on_append [OF amp] split_on_none [OF amp] by metis
  have cut: "Cut CHR ''='' (?s k v) = (QueryEscape k, QueryEscape v)" for k v
    by (rule Cut_append) (rule QueryEscape_set)
  show "ParseQuery (Encode_values [(k, v)]) = [(k, v)]"
    using split_on_none [OF amp, of k v] cut [of k v]
    by (simp add: ParseQuery_def QueryEscape_set QueryUnescape_Escape)
  show "ParseQuery (Encode_values [(k, v), (k', v')]) = [(k, v), (k', v')]"
    using split cut [of k v] cut [of k' v']
    by (simp add: ParseQuery_def QueryEscape_set QueryUnescape_Escape)
qed

section \<open>Properties\<close>

text \<open>
  C21: The arguments of a command arrive: for every text of the arguments, the request that
  the client sends for \<^verbatim>\<open>join\<close> or \<^verbatim>\<open>switch\<close> makes the control server run that handler on
  exactly these arguments.
\<close>

theorem client_arguments_arrive:
  assumes "arg1 \<noteq> []" "arg2 \<noteq> []"
  shows "(\<exists>path query. runClient env hosts ''join'' arg1 arg3 = HttpGet path query
      \<and> control_server path query now w
        = (Some (fst (CS_handleJoin arg1 now w)), snd (CS_handleJoin arg1 now w)))
    \<and> (\<exists>path query. runClient env hosts ''switch'' arg1 arg2 = HttpGet path query
      \<and> control_server path query now w = CS_handleSwitch arg1 arg2 w)"
proof -
  have lower: "ToLower ''join'' = ''join''" "ToLower ''switch'' = ''switch''"
    by (simp_all add: ToLower_def lower_char_def Let_def)
  show ?thesis
    using assms by (simp add: runClient_def lower control_server_def ParseQuery_Encode
        Get_value_def case_prod_beta del: Encode_values.simps)
qed

theorem client_arguments_arrive_witness:
  "\<forall>env hosts now w. \<exists>path query. runClient env hosts ''switch'' ''a b&c=d'' ''%;+'' = HttpGet path query
    \<and> control_server path query now w = CS_handleSwitch ''a b&c=d'' ''%;+'' w"
  using client_arguments_arrive [of "''a b&c=d''" "''%;+''"] by simp

text \<open>
  Whatever the command, the client never asks for a path that the control server does not
  serve.
\<close>

theorem client_requests_served:
  assumes "runClient env hosts cmd arg1 arg2 = HttpGet path query"
    "fst (control_server path query now w) = Some (code, body)"
  shows "code \<noteq> 404"
  using assms
  by (auto simp: runClient_def control_server_def Let_def CS_handleListMem_def CS_handleListSelf_def
      CS_handleDisplaySuspects_def CS_handleJoin_def CS_handleLeave_def CS_handleSwitch_def
      CS_handleDisplayProtocol_def case_prod_beta split: if_splits option.splits prod.splits Outcome.splits)

theorem client_requests_served_witness:
  "fst (fst (CS_handleLeave 0 (NewController \<lparr>cfg_NodeID = zero_NodeID, cfg_IntroducerAddr = [],
     cfg_IsIntroducer = True, cfg_Mode = GossipMode, cfg_Timeouts = DefaultTimeoutConfig\<rparr>
     (\<lambda>_. None) 0))) \<noteq> 404"
proof -
  let ?w = "NewController \<lparr>cfg_NodeID = zero_NodeID, cfg_IntroducerAddr = [],
     cfg_IsIntroducer = True, cfg_Mode = GossipMode, cfg_Timeouts = DefaultTimeoutConfig\<rparr>
     (\<lambda>_. None) 0"
  have "runClient (\<lambda>_. []) [] ''leave'' [] [] = HttpGet ''/leave'' []"
    by (simp add: runClient_def ToLower_def lower_char_def Let_def)
  moreover have "fst (control_server ''/leave'' [] 0 ?w)
      = Some (fst (fst (CS_handleLeave 0 ?w)), snd (fst (CS_handleLeave 0 ?w)))"
    by (simp add: control_server_def case_prod_beta)
  ultimately show ?thesis by (rule client_requests_served)
qed

text \<open>
  The daemon starts once: the child that \<^verbatim>\<open>main\<close> starts in the background, with the same
  arguments in the environment it is given, does not start another one.
\<close>

theorem daemon_starts_once:
  assumes "main sys f now = Daemon env"
  shows "main (sys'\<lparr>sy_env := env\<rparr>) f now' \<noteq> Daemon env'"
proof -
  have "env ''MP2_DAEMONIZED'' = ''1''" "fl_cmd f = []"
    using assms by (auto simp: main_def split: if_splits option.splits prod.splits sum.splits)
  then show ?thesis
    by (simp add: main_def split: option.split prod.split sum.split)
qed

text \<open>A machine on which every call succeeds.\<close>

definition sample_system :: system where
  "sample_system = \<lparr>sy_Executable = Some ''/d/mp2-node'', sy_startErr = None, sy_env = (\<lambda>_. []),
     sy_dialErr = None, sy_localIP = ''10.0.0.1'', sy_resolveErr = None, sy_listenErr = None,
     sy_Getwd = Some ''/d'', sy_openLogErr = None,
     sy_conn = (\<lambda>_. None), sy_defaultHosts = ''hosts.txt''\<rparr>"

definition sample_flags :: Flags where
  "sample_flags = \<lparr>fl_port = 8080, fl_introducer = [], fl_isIntroducer = True, fl_mode = ''pingack'',
     fl_cmd = [], fl_controlPort = 0, fl_arg1 = [], fl_arg2 = [], fl_foreground = False\<rparr>"

theorem daemon_starts_once_witness:
  "\<forall>env'. main (sample_system\<lparr>sy_env := (\<lambda>_. [])(''MP2_DAEMONIZED'' := ''1'')\<rparr>) sample_flags 7
    \<noteq> Daemon env'"
proof -
  have "main sample_system sample_flags 5 = Daemon ((\<lambda>_. [])(''MP2_DAEMONIZED'' := ''1''))"
    by (simp add: main_def sample_system_def sample_flags_def)
  from daemon_starts_once [OF this] show ?thesis by blast
qed



end
