(* ===== verification/Cluster.thy ===== *)
theory Cluster
  imports System
begin

text \<open>
  Many processes that talk to each other. A cluster is a process for every number; a step is
  a step of one of them, or the arrival, at any process, of a message that some process has
  sent: messages may be lost, duplicated, reordered and misdirected, but not forged. The
  theory lifts what holds of every reachable state of one process to the processes of a
  cluster, and shows what a cluster is like in which suspicion is never enabled.
\<close>

section \<open>Runs of a cluster\<close>

type_synonym cluster = "nat \<Rightarrow> node"

inductive cluster_step :: "cluster \<Rightarrow> time \<Rightarrow> cluster \<Rightarrow> bool" where
  deliver: "(addr, x) \<in> set (nl_sent (network (c j)))
    \<Longrightarrow> cluster_step c now (c(k := (c k)\<lparr>network :=
      receive_datagram (Datagram r (Some x) src) (network (c k))\<rparr>))"
| act: "local_step (c k) now w' \<Longrightarrow> cluster_step c now (c(k := w'))"

text \<open>\<open>ok\<close> is what is asked of every process throughout the run.\<close>

inductive cluster_run ::
  "(node \<Rightarrow> bool) \<Rightarrow> (nat \<Rightarrow> Config) \<Rightarrow> (nat \<Rightarrow> string \<Rightarrow> string option) \<Rightarrow> cluster \<Rightarrow> bool"
  for ok cfg conn where
  start: "(\<And>k. C_Start None (NewController (cfg k) (conn k) (t k)) = (None, c k))
    \<Longrightarrow> cluster_run ok cfg conn c"
| step: "cluster_run ok cfg conn c \<Longrightarrow> cluster_step c now c' \<Longrightarrow> (\<And>k. ok (c' k))
    \<Longrightarrow> cluster_run ok cfg conn c'"

lemma cluster_step_node: "cluster_step c now c' \<Longrightarrow> c' k = c k \<or> node_step (c k) now (c' k)"
proof (induction rule: cluster_step.induct)
  case (deliver addr x c j now k' r src)
  then show ?case
    using node_step.receive [of "c k'" now "Datagram r (Some x) src"]
    by (cases "k = k'") (simp_all del: receive_datagram.simps)
next
  case (act c k' now w')
  then show ?case by (cases "k = k'") (simp_all add: node_step.internal)
qed

lemma cluster_nodes_reachable: "cluster_run ok cfg conn c \<Longrightarrow> reachable (cfg k) (conn k) (c k)"
proof (induction rule: cluster_run.induct)
  case (start t c)
  then show ?case by (rule reachable.start)
next
  case (step c now c')
  then show ?case using cluster_step_node [of c now c' k] reachable.step by metis
qed

section \<open>Calm states\<close>

text \<open>
  A process that has never heard of a suspicion: every incarnation it stores, sends or holds
  in its queue is zero, nobody is suspected, and the suspicion manager is idle.
\<close>

named_theorems calm_intros \<open>what keeps a state calm\<close>

definition calm_up :: "MemberUpdate \<Rightarrow> bool" where
  "calm_up u \<longleftrightarrow> up_Incarnation u = 0 \<and> up_Status u \<noteq> Suspected"

definition calm_mb :: "Member \<Rightarrow> bool" where
  "calm_mb m \<longleftrightarrow> mb_Incarnation m = 0 \<and> mb_Status m \<noteq> Suspected"

definition calm_msg :: "Message \<Rightarrow> bool" where
  "calm_msg x \<longleftrightarrow> msg_Incarnation x = 0 \<and> (\<forall>u \<in> set (msg_Members x). calm_up u)"

definition calm_ml :: "MembershipList \<Rightarrow> bool" where
  "calm_ml ml \<longleftrightarrow> ml_Incarnation ml = 0 \<and> (\<forall>(k, m) \<in> set (ml_Members ml). calm_mb m)
     \<and> (\<forall>u \<in> set (ml_recentUpdates ml). calm_up u)"

definition calm_net :: "NetworkLayer \<Rightarrow> bool" where
  "calm_net n \<longleftrightarrow> (\<forall>(a, x) \<in> set (nl_sent n). calm_msg x)
     \<and> (\<forall>q \<in> set (nl_messageQueue n). calm_msg (rm_Message q))"

definition calm_pa :: "PingAckManager \<Rightarrow> bool" where
  "calm_pa p \<longleftrightarrow> (\<forall>d \<in> set (pa_periods p). \<forall>u \<in> set (pd_updates d). calm_up u)
     \<and> (\<forall>a v. pa_heap p a = Some v \<longrightarrow> iw_ch v = None \<or> iw_ch v = Some 0)"

definition no_suspicion :: "node \<Rightarrow> bool" where
  "no_suspicion w \<longleftrightarrow> \<not> pa_enableSuspicion (pingack w) \<and> \<not> gm_enableSuspicion (gossip w)"

definition calm :: "node \<Rightarrow> bool" where
  "calm w \<longleftrightarrow> calm_ml (membership w) \<and> calm_net (network w) \<and> sm_entries (suspicion w) = []
     \<and> spawned w = [] \<and> calm_pa (pingack w) \<and> no_suspicion w"

subsection \<open>The membership list\<close>

lemma calm_store [calm_intros]: "calm_ml ml \<Longrightarrow> calm_mb m \<Longrightarrow> calm_ml (store k m ml)"
  using set_update_subset [of k m "ml_Members ml"] by (fastforce simp: calm_ml_def)

lemma calm_discard [calm_intros]: "calm_ml ml \<Longrightarrow> calm_ml (discard k ml)"
  using set_delete_subset [of k "ml_Members ml"] by (fastforce simp: calm_ml_def)

lemma calm_recent [calm_intros]:
  "calm_ml ml \<Longrightarrow> calm_mb m \<Longrightarrow> calm_ml (AddRecentUpdate now m ml)"
  "calm_ml ml \<Longrightarrow> calm_mb m \<Longrightarrow> calm_ml (AddRecentUpdateSafe now m ml)"
  by (auto simp: calm_ml_def AddRecentUpdate_def AddRecentUpdateSafe_def calm_mb_def calm_up_def)

lemma calm_recents [calm_intros]:
  "calm_ml ml \<Longrightarrow> (\<forall>m \<in> set ms. calm_mb (f m)) \<Longrightarrow> calm_ml (fold (\<lambda>m. AddRecentUpdateSafe now (f m)) ms ml)"
  by (induction ms arbitrary: ml) (auto intro: calm_intros)

lemma calm_discards [calm_intros]: "calm_ml ml \<Longrightarrow> calm_ml (fold (\<lambda>m. discard (f m)) ms ml)"
  by (induction ms arbitrary: ml) (auto intro: calm_intros)

lemma calm_lookup: "calm_ml ml \<Longrightarrow> lookup ml k = Some m \<Longrightarrow> calm_mb m"
  using map_of_SomeD [of "ml_Members ml" k m] by (auto simp: calm_ml_def)

lemma calm_failed [calm_intros]: "calm_mb m \<Longrightarrow> calm_mb (failed_member m)"
  by (simp add: calm_mb_def failed_member_def zero_Member_def)

lemma calm_GetRecentUpdates:
  "GetRecentUpdates now l ml = Some (us, ml') \<Longrightarrow> calm_ml ml \<Longrightarrow> calm_ml ml' \<and> (\<forall>u \<in> set us. calm_up u)"
  by (auto simp: GetRecentUpdates_def calm_ml_def Let_def split: if_splits dest!: in_set_takeD)

lemma calm_GetRandomMembers:
  assumes "GetRandomMembers rnd n ex ml = Some ms" "calm_ml ml"
  shows "\<forall>m \<in> set ms. calm_mb m"
proof
  fix m assume "m \<in> set ms"
  then have "m \<in> set (shuffle rnd (candidates ex ml))"
    using assms(1) by (auto simp: GetRandomMembers_def Let_def split: if_splits dest: in_set_takeD)
  then have "m \<in> set (candidates ex ml)" by (simp add: set_shuffle)
  with assms(2) show "calm_mb m" by (auto simp: candidates_def calm_ml_def)
qed

lemma calm_note_sender [calm_intros]:
  "calm_ml ml \<Longrightarrow> msg_Incarnation x = 0 \<Longrightarrow> calm_ml (PA_note_sender x now ml)"
  by (auto simp: PA_note_sender_def Let_def calm_mb_def zero_Member_def intro!: calm_intros
      split: option.split dest: calm_lookup)

lemma calm_alive_members [calm_intros]:
  "calm_ml ml \<Longrightarrow> msg_Incarnation x = 0 \<Longrightarrow> calm_ml (alive_members x now ml)"
  by (auto simp: alive_members_def Let_def calm_mb_def intro!: calm_intros split: option.split)

lemma calm_indirect_ack_members [calm_intros]:
  "calm_ml ml \<Longrightarrow> msg_Incarnation x = 0 \<Longrightarrow> calm_ml (indirect_ack_members x now ml)"
  by (auto simp: indirect_ack_members_def Let_def calm_mb_def intro!: calm_intros split: option.split)

lemma calm_leave_members [calm_intros]: "calm_ml ml \<Longrightarrow> calm_ml (leave_members x now ml)"
  by (auto simp: leave_members_def Let_def intro!: calm_intros split: option.split dest: calm_lookup)

lemma calm_remove_old:
  "calm_ml ml \<Longrightarrow> calm_ml (fst (remove_old ks ml)) \<and> (\<forall>m \<in> set (snd (remove_old ks ml)). calm_mb m)"
proof (induction ks arbitrary: ml)
  case (Cons k ks)
  then show ?case
    using Cons.IH [OF calm_discard [OF Cons.prems, of k]]
    by (auto simp: case_prod_beta intro!: calm_failed split: option.split dest: calm_lookup)
qed simp

lemma calm_membership_updates: "calm_ml ml \<Longrightarrow> u \<in> set (membership_updates now ml) \<Longrightarrow> calm_up u"
  by (auto simp: membership_updates_def calm_ml_def calm_up_def calm_mb_def)

lemma calm_join_members:
  assumes "calm_ml ml" "msg_Incarnation x = 0"
  shows "calm_ml (fst (join_members x now ml)) \<and> (\<forall>u \<in> set (snd (join_members x now ml)). calm_up u)"
proof -
  let ?r = "remove_old (old_entries (msg_Sender x) ml) ml"
  let ?m = "zero_Member\<lparr>mb_ID := msg_Sender x, mb_Incarnation := msg_Incarnation x,
      mb_Status := Alive, mb_LastHeartbeat := now\<rparr>"
  let ?ml = "store (NodeID_String (msg_Sender x)) ?m (fst ?r)"
  let ?ml' = "fold (AddRecentUpdateSafe now) (snd ?r) ?ml"
  have eq: "join_members x now ml = (AddRecentUpdateSafe now ?m ?ml', membership_updates now ?ml)"
    by (simp add: join_members_def case_prod_beta Let_def)
  have m: "calm_mb ?m" using assms(2) by (simp add: calm_mb_def)
  have ml: "calm_ml ?ml" using calm_remove_old [OF assms(1)] m by (intro calm_store) simp_all
  have "calm_ml ?ml'"
    using calm_recents [OF ml, of "snd ?r" "\<lambda>m. m" now] calm_remove_old [OF assms(1)] by simp
  then have "calm_ml (AddRecentUpdateSafe now ?m ?ml')" using m by (rule calm_recent)
  with ml show ?thesis unfolding eq fst_conv snd_conv by (blast intro: calm_membership_updates)
qed

definition calm_js :: "MembershipList \<times> MemberUpdate list \<Rightarrow> bool" where
  "calm_js s \<longleftrightarrow> calm_ml (fst s) \<and> (\<forall>u \<in> set (snd s). calm_up u)"

lemma calm_new_member [calm_intros]: "calm_up u \<Longrightarrow> calm_mb (PA_new_member u now)"
  by (simp add: PA_new_member_def calm_mb_def calm_up_def zero_Member_def)

lemma calm_join_response_step: "calm_js s \<Longrightarrow> calm_up u \<Longrightarrow> calm_js (join_response_step now u s)"
  by (auto simp: calm_js_def join_response_step_def case_prod_beta Let_def calm_mb_def calm_up_def
      calm_new_member [unfolded calm_mb_def calm_up_def] intro!: calm_intros split: option.split)

lemma calm_join_responses:
  "calm_js s \<Longrightarrow> \<forall>u \<in> set us. calm_up u \<Longrightarrow> calm_js (fold (join_response_step now) us s)"
  by (induction us arbitrary: s) (simp_all add: calm_join_response_step)

lemma calm_Refresh [calm_intros]: "calm_ml ml \<Longrightarrow> calm_ml (RefreshLocalNode now ml)"
proof -
  assume "calm_ml ml"
  then have "calm_ml ((discard k ml)\<lparr>ml_LocalNode := n\<rparr>)" "ml_Incarnation ml = 0" for k n
    using calm_discard [of ml k] by (simp_all add: calm_ml_def)
  then show ?thesis
    by (auto simp: RefreshLocalNode_def Let_def calm_mb_def intro!: calm_intros)
qed

subsection \<open>The network\<close>

lemma calm_stamped [simp]: "calm_msg (stamped now x) = calm_msg x"
  by (simp add: calm_msg_def)

lemma calm_Send [calm_intros]: "calm_net n \<Longrightarrow> calm_msg x \<Longrightarrow> calm_net (snd (Send now x a n))"
  by (auto simp: Send_def Let_def calm_net_def calm_msg_def split: option.split)

lemma calm_sends [calm_intros]:
  "calm_net n \<Longrightarrow> calm_msg x \<Longrightarrow> calm_net (fold (\<lambda>m n. snd (Send now x (f m) n)) ms n)"
  by (induction ms arbitrary: n) (auto intro: calm_intros)

lemma calm_send_all [calm_intros]: "calm_net n \<Longrightarrow> calm_msg x \<Longrightarrow> calm_net (send_all now x as n)"
  unfolding send_all_def using calm_sends [of n x now "\<lambda>a. a" as] by simp

lemma calm_registered [simp]:
  "calm_net (n\<lparr>nl_handlers := h\<rparr>) = calm_net n"
  "calm_net (n\<lparr>nl_dropRate := d\<rparr>) = calm_net n"
  "calm_net (n\<lparr>nl_closed := b\<rparr>) = calm_net n"
  "calm_net (RegisterHandler t g n) = calm_net n"
  by (simp_all add: calm_net_def RegisterHandler_def)

lemma calm_receive [calm_intros]:
  "calm_net n \<Longrightarrow> calm_msg x \<Longrightarrow> calm_net (receive_datagram (Datagram r (Some x) src) n)"
  by (auto simp: calm_net_def)

subsection \<open>The ping/ack manager\<close>

lemma calm_pa_fields [simp]:
  "calm_pa (p\<lparr>pa_cancelled := b\<rparr>) = calm_pa p" "calm_pa (p\<lparr>pa_stopped := b\<rparr>) = calm_pa p"
  "calm_pa (p\<lparr>pa_active := b\<rparr>) = calm_pa p" "calm_pa (p\<lparr>pa_pingLoops := l\<rparr>) = calm_pa p"
  "calm_pa (p\<lparr>pa_failureLoops := l\<rparr>) = calm_pa p" "calm_pa (p\<lparr>pa_cleanupLoops := l\<rparr>) = calm_pa p"
  "calm_pa (p\<lparr>pa_pendingAcks := q\<rparr>) = calm_pa p" "calm_pa (p\<lparr>pa_pendingIndirect := q'\<rparr>) = calm_pa p"
  "calm_pa (p\<lparr>pa_seqNum := s\<rparr>) = calm_pa p" "calm_pa (p\<lparr>pa_next := s'\<rparr>) = calm_pa p"
  "calm_pa (p\<lparr>pa_relays := rs\<rparr>) = calm_pa p" "calm_pa (p\<lparr>pa_enableSuspicion := b\<rparr>) = calm_pa p"
  by (simp_all add: calm_pa_def)

lemma calm_signal_pending [calm_intros]: "calm_pa p \<Longrightarrow> calm_pa (PA_signal_pending x p)"
  by (simp add: PA_signal_pending_def split: option.split)

lemma calm_signal_indirect [calm_intros]: "calm_pa p \<Longrightarrow> calm_pa (PA_signal_indirect x p)"
  by (simp add: PA_signal_indirect_def split: option.split)

lemma calm_signal_waiter [calm_intros]:
  "calm_pa p \<Longrightarrow> msg_Incarnation x = 0 \<Longrightarrow> calm_pa (PA_signal_waiter x p)"
  by (auto simp: PA_signal_waiter_def calm_pa_def split: option.split)

lemma calm_cancel_waiter [calm_intros]: "calm_pa p \<Longrightarrow> calm_pa (cancel_waiter a p)"
  by (auto simp: cancel_waiter_def calm_pa_def split: option.split)

lemma calm_relay_finish [calm_intros]: "calm_pa p \<Longrightarrow> calm_pa (relay_finish r p)"
  by (simp add: relay_finish_def Let_def calm_cancel_waiter)

lemma calm_cleanup_step [calm_intros]: "calm_pa p \<Longrightarrow> calm_pa (cleanup_step k p)"
  by (simp add: cleanup_step_def calm_cancel_waiter split: option.split)

interpretation cs: keeping calm_pa cleanup_step
  by unfold_locales (rule calm_cleanup_step)

lemma calm_period_finish [calm_intros]: "calm_pa p \<Longrightarrow> calm_pa (period_finish d p)"
  by (auto simp: period_finish_def drop_pending_def calm_pa_def dest: notin_set_remove1 in_set_remove1
      set_mp [OF set_remove1_subset])

lemma flags_kept [simp]:
  "pa_enableSuspicion (PA_signal_pending x p) = pa_enableSuspicion p"
  "pa_enableSuspicion (PA_signal_indirect x p) = pa_enableSuspicion p"
  "pa_enableSuspicion (PA_signal_waiter x p) = pa_enableSuspicion p"
  "pa_enableSuspicion (cancel_waiter a p) = pa_enableSuspicion p"
  "pa_enableSuspicion (relay_finish r p) = pa_enableSuspicion p"
  "pa_enableSuspicion (period_finish d p) = pa_enableSuspicion p"
  by (simp_all add: PA_signal_pending_def PA_signal_indirect_def PA_signal_waiter_def cancel_waiter_def
      relay_finish_def period_finish_def drop_pending_def Let_def split: option.split)

section \<open>The operations keep a process calm\<close>

lemma calm_with_ml [calm_intros]: "calm w \<Longrightarrow> calm_ml ml \<Longrightarrow> calm (w\<lparr>membership := ml\<rparr>)"
  by (simp add: calm_def no_suspicion_def)

lemma calm_with_net [calm_intros]: "calm w \<Longrightarrow> calm_net n \<Longrightarrow> calm (w\<lparr>network := n\<rparr>)"
  by (simp add: calm_def no_suspicion_def)

lemma calm_with_pa [calm_intros]:
  "calm w \<Longrightarrow> calm_pa p \<Longrightarrow> \<not> pa_enableSuspicion p \<Longrightarrow> calm (w\<lparr>pingack := p\<rparr>)"
  by (simp add: calm_def no_suspicion_def)

lemma calm_parts:
  assumes "calm w"
  shows "calm_ml (membership w)" "calm_net (network w)" "calm_pa (pingack w)"
    "\<not> pa_enableSuspicion (pingack w)" "\<not> gm_enableSuspicion (gossip w)"
    "ml_Incarnation (membership w) = 0" "sm_entries (suspicion w) = []" "spawned w = []"
  using assms by (simp_all add: calm_def no_suspicion_def calm_ml_def)

lemma calm_Clear [calm_intros]: "calm w \<Longrightarrow> calm (ClearSuspect n 0 w)"
  by (auto simp: ClearSuspect_def clear_member_def calm_parts calm_mb_def Let_def intro!: calm_intros
      split: option.split)

lemma calm_clears [calm_intros]:
  "calm w \<Longrightarrow> \<forall>u \<in> set us. calm_up u
    \<Longrightarrow> calm (fold (\<lambda>u. ClearSuspect (up_NodeID u) (up_Incarnation u)) us w)"
  by (induction us arbitrary: w) (simp_all add: calm_up_def calm_Clear)

lemma calm_merge:
  "calm_mb m \<Longrightarrow> calm_up u \<Longrightarrow> PA_merge en u now m = (m, False)"
  by (auto simp: PA_merge_def calm_mb_def calm_up_def)

lemma calm_apply_update [calm_intros]:
  assumes "calm w" "calm_up u"
  shows "calm (apply_update False u r now w)"
proof -
  have "calm (notify (\<lambda>r t i. ProcessSuspicion r t i now) ClearSuspect False u r w')" if "calm w'" for w'
    using that assms(2) by (simp add: notify_def calm_up_def calm_Clear)
  with assms show ?thesis
    by (auto simp: apply_update_def calm_merge calm_up_def Let_def calm_lookup [OF calm_parts(1)]
        intro!: calm_intros split: option.split) (auto intro!: calm_intros simp: calm_parts calm_up_def
        store_same dest: calm_lookup)
qed

lemma calm_updates [calm_intros]:
  assumes "calm w" "\<forall>u \<in> set us. calm_up u"
  shows "calm (PA_processUpdates us r now w)" "calm (GM_processUpdates us r now w)"
proof -
  have "calm (fold (\<lambda>u. PA_processUpdate u r now) us w) \<and> calm (fold (\<lambda>u. GM_processUpdate u r now) us w')"
    if "calm w" "calm w'" for w w'
    using that assms(2)
  proof (induction us arbitrary: w w')
    case (Cons u us)
    then show ?case
      by (simp add: PA_processUpdate_eq GM_processUpdate_eq calm_parts calm_apply_update)
  qed simp
  with assms(1) show "calm (PA_processUpdates us r now w)" "calm (GM_processUpdates us r now w)"
    by (simp_all add: PA_processUpdates_def GM_processUpdates_def)
qed

text \<open>A message without updates is calm when it carries incarnation zero.\<close>

lemma calm_msgI [calm_intros]:
  "msg_Incarnation x = 0 \<Longrightarrow> \<forall>u \<in> set (msg_Members x). calm_up u \<Longrightarrow> calm_msg x"
  by (simp add: calm_msg_def)

lemma message_fields [simp]: "msg_Members (message t) = []" "msg_Incarnation (message t) = 0"
  by (simp_all add: message_def)

lemma calm_handlers:
  assumes "calm w" "calm_msg x"
  shows "calm (PA_handlePing x now w)" "calm (PA_handleAck x now w)" "calm (PA_handleIndirectAck x now w)"
    "calm (PA_handleAliveMessage x now w)" "calm (PA_handleSuspectMessage x now w)"
    "calm (PA_handleLeave x now w)" "calm (GM_handleHeartbeat x now w)"
    "calm (GM_handleSuspectMessage x now w)" "calm (GM_handleAliveMessage x now w)"
    "calm (GM_handleConfirmMessage x now w)" "calm (GM_handleLeave x now w)"
proof -
  have x: "msg_Incarnation x = 0" "\<forall>u \<in> set (msg_Members x). calm_up u"
    using assms(2) by (simp_all add: calm_msg_def)
  note parts = calm_parts [OF assms(1)]
  show "calm (PA_handlePing x now w)"
    using assms(1) x parts by (auto simp: PA_handlePing_def Let_def intro!: calm_intros)
  show "calm (PA_handleAck x now w)"
  proof -
    have "calm (w\<lparr>membership := PA_note_sender x now (membership w)\<rparr>)"
      using assms(1) x parts by (intro calm_intros)
    then have "calm (ClearSuspect (msg_Sender x) (msg_Incarnation x)
        (w\<lparr>membership := PA_note_sender x now (membership w)\<rparr>))"
      unfolding x(1) by (rule calm_Clear)
    then show ?thesis
      using assms(1) x by (auto simp: PA_handleAck_def Let_def calm_parts intro!: calm_intros)
  qed
  show "calm (PA_handleIndirectAck x now w)"
    using assms(1) x parts by (auto simp: PA_handleIndirectAck_def Let_def intro!: calm_intros)
  show "calm (PA_handleAliveMessage x now w)" "calm (GM_handleAliveMessage x now w)"
    using assms(1) x parts
    by (auto simp: PA_handleAliveMessage_def GM_handleAliveMessage_def intro!: calm_intros)
  show "calm (PA_handleSuspectMessage x now w)" "calm (GM_handleSuspectMessage x now w)"
    using assms(1) parts by (simp_all add: PA_handleSuspectMessage_def GM_handleSuspectMessage_def)
  show "calm (PA_handleLeave x now w)" "calm (GM_handleLeave x now w)"
    using assms(1) parts by (auto simp: PA_handleLeave_def GM_handleLeave_def intro!: calm_intros)
  show "calm (GM_handleHeartbeat x now w)"
    using assms(1) x parts
    by (auto simp: GM_handleHeartbeat_def GM_note_sender_eq intro!: calm_intros)
  show "calm (GM_handleConfirmMessage x now w)"
    using assms(1) x parts
    by (auto simp: GM_handleConfirmMessage_def Let_def calm_mb_def intro!: calm_intros split: option.split)
qed

lemma calm_joins:
  assumes "calm w" "calm_msg x"
  shows "calm (PA_handleJoin x now w)" "calm (GM_handleJoin x now w)"
    "calm (PA_handleJoinResponse x now w)" "calm (GM_handleJoinResponse x now w)"
proof -
  have x: "msg_Incarnation x = 0" "\<forall>u \<in> set (msg_Members x). calm_up u"
    using assms(2) by (simp_all add: calm_msg_def)
  note parts = calm_parts [OF assms(1)]
  have members: "calm_ml (fst (join_members x now (membership w)))"
      "\<forall>u \<in> set (snd (join_members x now (membership w))). calm_up u"
    using calm_join_members [OF parts(1) x(1), of now] by simp_all
  then have "ml_Incarnation (fst (join_members x now (membership w))) = 0" by (simp add: calm_ml_def)
  with members show "calm (PA_handleJoin x now w)" "calm (GM_handleJoin x now w)"
    using assms(1) parts
    by (auto simp: PA_handleJoin_def GM_handleJoin_def case_prod_beta Let_def intro!: calm_intros)
  have "calm_js (fold (join_response_step now) (msg_Members x) (membership w, []))"
    using x(2) parts(1) by (intro calm_join_responses) (simp_all add: calm_js_def)
  then show "calm (PA_handleJoinResponse x now w)" "calm (GM_handleJoinResponse x now w)"
    using assms(1) by (auto simp: PA_handleJoinResponse_def GM_handleJoinResponse_def case_prod_beta
        calm_js_def intro!: calm_intros)
qed

lemma calm_handleIndirectPing:
  assumes "calm w" "calm_msg x" "PA_handleIndirectPing x now w = Some w'"
  shows "calm w'"
proof (cases "pa_active (pingack w)")
  case True
  have x: "msg_Incarnation x = 0" "\<forall>u \<in> set (msg_Members x). calm_up u"
    using assms(2) by (simp_all add: calm_msg_def)
  note parts = calm_parts [OF assms(1)]
  let ?k = "NodeID_String (msg_Sender x)"
  let ?ml = "case lookup (membership w) ?k of None \<Rightarrow> membership w
    | Some m \<Rightarrow> if sint (mb_Incarnation m) \<le> sint (msg_Incarnation x)
        then store ?k (m\<lparr>mb_LastHeartbeat := now\<rparr>) (membership w) else membership w"
  let ?p = "(pingack w)\<lparr>pa_heap := (pa_heap (pingack w))(pa_next (pingack w) \<mapsto>
      \<lparr>iw_requester = msg_Sender x, iw_ch = None, iw_cancelled = False, iw_createdTime = now\<rparr>),
    pa_next := Suc (pa_next (pingack w)), pa_pendingIndirect := AList.update
      (indirect_key (msg_SeqNum x) (msg_Target x)) (pa_next (pingack w)) (pa_pendingIndirect (pingack w))\<rparr>"
  let ?w1 = "PA_processUpdates (msg_Members x) (msg_Sender x) now (w\<lparr>membership := ?ml, pingack := ?p\<rparr>)"
  have "calm_ml ?ml"
    using parts(1) calm_lookup [OF parts(1), of ?k]
    by (auto simp: calm_mb_def intro!: calm_intros split: option.split)
  moreover have "calm_pa ?p" using parts(3) by (auto simp: calm_pa_def)
  ultimately have w1: "calm ?w1"
    using assms(1) x(2) parts(4) by (intro calm_intros) simp_all
  obtain us ml where us: "GetRecentUpdates now 5 (membership ?w1) = Some (us, ml)"
    using assms(3) True by (auto simp: PA_handleIndirectPing_def Let_def split: option.splits)
  then have "calm_ml ml" "\<forall>u \<in> set us. calm_up u" "ml_Incarnation ml = 0"
    using calm_GetRecentUpdates [OF us calm_parts(1) [OF w1]] by (simp_all add: calm_ml_def)
  then show ?thesis
    using assms(3) True us w1
    by (auto simp: PA_handleIndirectPing_def Let_def calm_parts intro!: calm_intros)
qed (use assms in \<open>simp add: PA_handleIndirectPing_def\<close>)

lemma calm_run_handler:
  "calm w \<Longrightarrow> calm_msg x \<Longrightarrow> run_handler h x now w = Some w' \<Longrightarrow> calm w'"
  by (cases h) (auto simp: calm_handlers calm_joins intro: calm_handleIndirectPing)

lemma calm_process_message:
  assumes "calm w" "process_message now w = Some w'"
  shows "calm w'"
proof -
  obtain q rest where q: "nl_messageQueue (network w) = q # rest"
    using assms(2) by (cases "nl_messageQueue (network w)") (auto simp: process_message_def processQueue_step_def)
  have "calm_msg (rm_Message q)" "calm_net ((network w)\<lparr>nl_messageQueue := rest\<rparr>)"
    using calm_parts(2) [OF assms(1)] q by (simp_all add: calm_net_def)
  moreover from this have "calm (w\<lparr>network := (network w)\<lparr>nl_messageQueue := rest\<rparr>\<rparr>)"
    using assms(1) by (intro calm_intros)
  ultimately show ?thesis
    using assms(2) q by (auto simp: process_message_def processQueue_step_def Let_def
        split: option.splits intro: calm_run_handler)
qed

section \<open>Timers and requests\<close>

lemma calm_declare:
  assumes "calm w"
  shows "calm (PA_declareSuspicion n now w)"
  using assms calm_parts [OF assms] calm_lookup [OF calm_parts(1) [OF assms]]
  by (auto simp: PA_declareSuspicion_def Let_def intro!: calm_intros split: option.split)

lemma calm_period_begin:
  assumes "calm w" "PA_period_begin rnd now w = Some w'"
  shows "calm w'"
proof -
  note parts = calm_parts [OF assms(1)]
  have begun: "calm_pa ((pingack w)\<lparr>pa_seqNum := s, pa_pendingAcks := q, pa_periods := pa_periods (pingack w) @ [d]\<rparr>)"
    if "\<forall>u \<in> set (pd_updates d). calm_up u" for s q d
    using parts(3) that by (auto simp: calm_pa_def)
  show ?thesis
  proof (cases "w' = w")
    case False
    then obtain m ms us ml where run:
        "GetRandomMembers rnd 1 [NodeID_String (ml_LocalNode (membership w))] (membership w) = Some (m # ms)"
        "GetRecentUpdates now 5 (membership w) = Some (us, ml)"
      using assms(2) by (auto simp: PA_period_begin_def Let_def split: option.splits list.splits)
    then have "calm_ml ml" "\<forall>u \<in> set us. calm_up u" "ml_Incarnation ml = 0"
      using calm_GetRecentUpdates [OF run(2) parts(1)] by (simp_all add: calm_ml_def)
    then show ?thesis
      using assms parts run by (auto simp: PA_period_begin_def Let_def intro!: calm_intros begun)
  qed (use assms(1) in simp)
qed

lemma calm_period_steps:
  assumes "calm w"
  shows "PA_period_ack d w = Some w' \<Longrightarrow> calm w'"
    "PA_period_indirect_timeout d now w = Some w' \<Longrightarrow> calm w'"
  using assms calm_parts [OF assms]
  by (auto simp: PA_period_ack_def PA_period_indirect_timeout_def intro!: calm_intros calm_declare
      split: option.splits if_splits)

lemma calm_period_direct:
  assumes "calm w" "d \<in> set (pa_periods (pingack w))" "PA_period_direct_timeout rnd d now w = Some w'"
  shows "calm w'"
proof -
  note parts = calm_parts [OF assms(1)]
  have d: "\<forall>u \<in> set (pd_updates d). calm_up u" using parts(3) assms(2) by (simp add: calm_pa_def)
  have finished: "calm (w\<lparr>pingack := period_finish d (pingack w)\<rparr>)"
    using assms(1) parts by (intro calm_intros) simp_all
  have moved: "calm_pa ((pingack w)\<lparr>pa_periods := remove1 d (pa_periods (pingack w)) @ [d'\<lparr>pd_phase := f, pd_deadline := t\<rparr>]\<rparr>)"
    if "pd_updates d' = pd_updates d" for d' f t
    using parts(3) d that set_remove1_subset [of d "pa_periods (pingack w)"] by (auto simp: calm_pa_def)
  show ?thesis
    using assms(1,3) parts d finished
    by (auto simp: PA_period_direct_timeout_def Let_def intro!: calm_intros calm_declare moved
        split: if_splits option.splits)
qed

lemma calm_relay_steps:
  assumes "calm w"
  shows "PA_relay_ack r now w = Some w' \<Longrightarrow> calm w'"
    "PA_relay_timeout r now w = Some w' \<Longrightarrow> calm w'" "PA_relay_cancelled r w = Some w' \<Longrightarrow> calm w'"
proof -
  note parts = calm_parts [OF assms]
  have zero: "i = 0" if "pa_heap (pingack w) a = Some v" "iw_ch v = Some i" for a v i
    using parts(3) that unfolding calm_pa_def by fastforce
  have taken: "calm_pa ((pingack w)\<lparr>pa_heap := (pa_heap (pingack w))(a \<mapsto> v\<lparr>iw_ch := None\<rparr>)\<rparr>)" for a v
    using parts(3) by (auto simp: calm_pa_def)
  show "PA_relay_ack r now w = Some w' \<Longrightarrow> calm w'"
    using assms parts zero
    by (auto simp: PA_relay_ack_def Let_def intro!: calm_intros taken split: option.splits)
  show "PA_relay_timeout r now w = Some w' \<Longrightarrow> calm w'" "PA_relay_cancelled r w = Some w' \<Longrightarrow> calm w'"
    using assms parts
    by (auto simp: PA_relay_timeout_def PA_relay_cancelled_def intro!: calm_intros split: if_splits)
qed

lemma calm_cleanup:
  assumes "calm w"
  shows "calm (PA_cleanupOrphanedEntries now w)"
proof -
  have flag: "pa_enableSuspicion (fold cleanup_step ks p) = pa_enableSuspicion p" for ks p
    by (induction ks arbitrary: p) (auto simp: cleanup_step_def split: option.split)
  show ?thesis
    using assms calm_parts [OF assms]
    by (auto simp: PA_cleanupOrphanedEntries_def Let_def flag intro!: calm_intros cs.loop_keeps)
qed

lemma calm_PA_check: "calm w \<Longrightarrow> calm (PA_checkFailures now w)"
proof -
  assume w: "calm w"
  have "\<forall>m \<in> set (map snd (filter f (ml_Members (membership w)))). calm_mb m" for f
    using calm_parts(1) [OF w] by (auto simp: calm_ml_def)
  with w show ?thesis
    by (auto simp: PA_checkFailures_def Let_def calm_parts intro!: calm_intros)
qed

lemma calm_GM_check:
  assumes "calm w"
  shows "calm (GM_checkFailures now w)"
proof -
  note parts = calm_parts [OF assms]
  let ?to = "gm_timeouts (gossip w)" and ?lk = "NodeID_String (ml_LocalNode (membership w))"
  let ?scan = "failure_scan False ?to now ?lk (ml_Members (membership w))"
  have scan: "fst ?scan = ml_Members (membership w) \<and> fst (snd ?scan) = []
      \<and> (\<forall>m \<in> set (snd (snd ?scan)). calm_mb m)"
  proof -
    have "fst (failure_scan False ?to now ?lk es) = es \<and> fst (snd (failure_scan False ?to now ?lk es)) = []
        \<and> snd ` set es \<supseteq> set (snd (snd (failure_scan False ?to now ?lk es)))" for es
      by (induction es) (auto simp: case_prod_beta Let_def split: MemberStatus.splits if_splits)
    then show ?thesis using parts(1) by (fastforce simp: calm_ml_def)
  qed
  then have "\<forall>m \<in> set (snd (snd ?scan)). calm_mb ((failed_member m)\<lparr>mb_LastHeartbeat := now\<rparr>)"
    by (auto simp: calm_mb_def failed_member_def zero_Member_def)
  with scan assms parts show ?thesis
    by (auto simp: GM_checkFailures_def Let_def case_prod_beta intro!: calm_intros)
qed

lemma calm_gossip_round:
  assumes "calm w" "GM_performGossipRound rnd1 rnd2 now w = Some w'"
  shows "calm w'"
proof (cases "w' = w")
  case False
  note parts = calm_parts [OF assms(1)]
  let ?ml = "membership w" and ?lk = "NodeID_String (ml_LocalNode (membership w))"
  let ?ml1 = "case lookup ?ml ?lk of None \<Rightarrow> ?ml | Some s \<Rightarrow> AddRecentUpdateSafe now s ?ml"
  obtain ts es us ml3 where run: "GetRandomMembers rnd1 (sint (gm_fanout (gossip w))) [?lk] ?ml = Some ts" "ts \<noteq> []"
      "GetRandomMembers rnd2 2 [?lk] (fold (AddRecentUpdateSafe now) ts ?ml1) = Some es"
      "GetRecentUpdates now 10 (fold (AddRecentUpdateSafe now) es (fold (AddRecentUpdateSafe now) ts ?ml1)) = Some (us, ml3)"
    using assms(2) False by (auto simp: GM_performGossipRound_def Let_def split: option.splits if_splits)
  have "calm_ml ?ml1" using parts(1) by (auto intro!: calm_intros split: option.split dest: calm_lookup)
  then have two: "calm_ml (fold (AddRecentUpdateSafe now) ts ?ml1)"
    using calm_recents [of ?ml1 ts "\<lambda>m. m" now] calm_GetRandomMembers [OF run(1) parts(1)] by simp
  then have "calm_ml (fold (AddRecentUpdateSafe now) es (fold (AddRecentUpdateSafe now) ts ?ml1))"
    using calm_recents [OF two, of es "\<lambda>m. m" now] calm_GetRandomMembers [OF run(3) two] by simp
  then have "calm_ml ml3" "\<forall>u \<in> set us. calm_up u" "ml_Incarnation ml3 = 0"
    using calm_GetRecentUpdates [OF run(4)] by (simp_all add: calm_ml_def)
  then show ?thesis
    using assms parts run by (auto simp: GM_performGossipRound_def Let_def intro!: calm_intros)
qed (use assms(1) in simp)

lemma calm_ping_loop:
  assumes "calm w" "PA_pingLoop wakeup rnd now w = Some w'"
  shows "calm w'"
  using assms calm_parts [OF assms(1)] calm_period_begin [OF assms(1)]
  by (auto simp: PA_pingLoop_def intro!: calm_intros split: Wakeup.splits if_splits)

lemma calm_other_loops:
  assumes "calm w"
  shows "PA_failureDetectionLoop wakeup now w = Some w' \<Longrightarrow> calm w'"
    "PA_cleanupLoop wakeup now w = Some w' \<Longrightarrow> calm w'"
    "GM_gossipLoop wakeup rnd1 rnd2 now w = Some w' \<Longrightarrow> calm w'"
    "GM_failureDetectionLoop wakeup now w = Some w' \<Longrightarrow> calm w'"
proof -
  have "calm (w\<lparr>gossip := g\<rparr>)" if "\<not> gm_enableSuspicion g" for g
    using assms that by (simp add: calm_def no_suspicion_def)
  then show "PA_failureDetectionLoop wakeup now w = Some w' \<Longrightarrow> calm w'"
    "PA_cleanupLoop wakeup now w = Some w' \<Longrightarrow> calm w'"
    "GM_gossipLoop wakeup rnd1 rnd2 now w = Some w' \<Longrightarrow> calm w'"
    "GM_failureDetectionLoop wakeup now w = Some w' \<Longrightarrow> calm w'"
    using assms calm_parts [OF assms] calm_PA_check calm_cleanup calm_GM_check calm_gossip_round
    by (auto simp: PA_failureDetectionLoop_def PA_cleanupLoop_def GM_gossipLoop_def
        GM_failureDetectionLoop_def intro!: calm_intros split: Wakeup.splits if_splits)
qed

section \<open>Life cycle and requests\<close>

text \<open>A switch changes the flags last, so for it calm is split into the flags and the rest.\<close>

definition quiet :: "node \<Rightarrow> bool" where
  "quiet w \<longleftrightarrow> calm_ml (membership w) \<and> calm_net (network w) \<and> sm_entries (suspicion w) = []
     \<and> spawned w = [] \<and> calm_pa (pingack w)"

lemma calm_quiet: "calm w \<longleftrightarrow> quiet w \<and> no_suspicion w"
  by (auto simp: calm_def quiet_def)

lemma quiet_fields [simp]:
  "quiet (w\<lparr>mode := m\<rparr>) = quiet w" "quiet (w\<lparr>gossip := g\<rparr>) = quiet w"
  "quiet (C_SetSuspicion b w) = quiet w"
  by (simp_all add: quiet_def C_SetSuspicion_def PA_SetSuspicion_def GM_SetSuspicion_def
      split: DetectionMode.split)

lemma quiet_life_cycle:
  assumes "quiet w"
  shows "quiet (PA_Start w)" "quiet (snd (PA_Stop w))" "quiet (GM_Start w)" "quiet (snd (GM_Stop w))"
  using assms by (auto simp: quiet_def PA_Start_def PA_Stop_def GM_Start_def GM_Stop_def Let_def
      split: option.split bool.split)

lemma quiet_SwitchMode:
  assumes "quiet w"
  shows "quiet (snd (C_SwitchMode m w))"
proof -
  have "quiet (snd (PA_Stop (w\<lparr>mode := m\<rparr>)))" "quiet (snd (GM_Stop (w\<lparr>mode := m\<rparr>)))"
    using assms by (simp_all add: quiet_life_cycle)
  then show ?thesis
    by (auto simp: C_SwitchMode_def Let_def case_prod_beta quiet_life_cycle
        split: DetectionMode.split Outcome.split)
qed

lemma calm_switch:
  assumes "calm w" "CS_handleSwitch mech susp w = (r, w')" "no_suspicion w'"
  shows "calm w'"
proof -
  have "quiet w" using assms(1) by (simp add: calm_quiet)
  then have "quiet (snd (C_SwitchMode m w))" for m by (rule quiet_SwitchMode)
  then have "quiet (snd (case C_SwitchMode m w of (Panicked, w') \<Rightarrow> (None :: Response option, w')
      | (Returned, w') \<Rightarrow> (Some (200, t), C_SetSuspicion b w')))" for m b and t :: string
    by (auto simp: case_prod_beta split: Outcome.split)
  with \<open>quiet w\<close> have "quiet (snd (CS_handleSwitch mech susp w))"
    by (simp add: CS_handleSwitch_def Let_def)
  then show ?thesis using assms(2,3) by (simp add: calm_quiet)
qed

lemma calm_Stop:
  assumes "calm w" "C_Stop w = (r, w')" "no_suspicion w'"
  shows "calm w'"
proof -
  have "quiet w" using assms(1) by (simp add: calm_quiet)
  then have "quiet (snd (case mode w of GossipMode \<Rightarrow> GM_Stop w | PingAckMode \<Rightarrow> PA_Stop w))"
    by (cases "mode w") (simp_all add: quiet_life_cycle)
  then have "quiet (snd (C_Stop w))"
    by (auto simp: C_Stop_def case_prod_beta Let_def quiet_def Suspicion_Stop_def Network_Stop_def
        split: Outcome.split option.split if_splits)
  then show ?thesis using assms(2,3) by (simp add: calm_quiet)
qed

lemma calm_requests:
  assumes "calm w"
  shows "calm (snd (CS_handleJoin intro now w))" "calm (snd (CS_handleLeave now w))"
    "calm (C_SetDropRate rate w)"
proof -
  note parts = calm_parts [OF assms]
  have gossip: "calm (v\<lparr>gossip := g\<rparr>)" if "calm v" "\<not> gm_enableSuspicion g" for v g
    using that by (simp add: calm_quiet no_suspicion_def)
  have "ml_Incarnation (RefreshLocalNode now (membership w)) = 0"
    using calm_Refresh [OF parts(1)] by (simp add: calm_ml_def)
  then have "calm (snd (PA_JoinGroup intro now w))" "calm (snd (GM_JoinGroup intro now w))"
    "calm (PA_LeaveGroup now w)" "calm (GM_LeaveGroup now w)"
    using assms parts gossip
    by (auto simp: PA_JoinGroup_def GM_JoinGroup_def PA_LeaveGroup_def GM_LeaveGroup_def
        Let_def case_prod_beta intro!: calm_intros gossip)
  then show "calm (snd (CS_handleJoin intro now w))" "calm (snd (CS_handleLeave now w))"
    using assms by (auto simp: CS_handleJoin_def CS_handleLeave_def C_JoinGroup_def C_LeaveGroup_def
        case_prod_beta split: DetectionMode.split option.split)
  show "calm (C_SetDropRate rate w)"
    using assms parts by (auto simp: C_SetDropRate_def SetDropRate_def intro!: calm_intros)
qed

lemma calm_status_log:
  assumes "calm w" "CLI_tick now w = Some (c, us, w')"
  shows "calm w'"
proof -
  obtain us' ml where run: "GetRecentUpdates now 10 (membership w) = Some (us', ml)"
    and w': "w' = w\<lparr>membership := ml\<rparr>"
    using assms(2) by (auto simp: CLI_tick_def Let_def split: option.splits)
  then show ?thesis
    using calm_GetRecentUpdates [OF run calm_parts(1) [OF assms(1)]] assms(1) by (simp add: calm_with_ml)
qed

lemma calm_suspicion_check:
  assumes "calm w"
  shows "calm (check now w)"
proof -
  have "check now w = w\<lparr>suspicion := (suspicion w)\<lparr>sm_entries := []\<rparr>\<rparr>"
    using calm_parts(7) [OF assms] by (simp add: check_def)
  then show ?thesis using assms by (simp add: calm_def no_suspicion_def)
qed

lemma calm_started:
  assumes "C_Start None (NewController config conn now) = (None, w)"
  shows "quiet w"
proof -
  have "quiet (NewController config conn now)"
    by (simp add: quiet_def NewController_def NewMembershipList_def NewNetworkLayer_def
        NewSuspicionManager_def NewPingAckManager_def calm_ml_def calm_net_def calm_pa_def Let_def calm_mb_def)
  then have "quiet ((NewController config conn now)\<lparr>suspicion := Suspicion_Start sm\<rparr>)"
    if "sm_entries sm = []" for sm using that by (simp add: quiet_def Suspicion_Start_def)
  then show ?thesis
    using assms by (auto simp: C_Start_def Let_def quiet_life_cycle NewController_def NewSuspicionManager_def
        split: DetectionMode.splits)
qed

section \<open>Every run without suspicion is calm\<close>

lemma calm_local_step:
  "local_step w now w' \<Longrightarrow> calm w \<Longrightarrow> no_suspicion w' \<Longrightarrow> calm w'"
proof (induction rule: local_step.induct)
  case (callback w before t after now)
  then show ?case by (simp add: calm_parts)
next
  case (dispatch now w w')
  then show ?case by (blast intro: calm_process_message)
next
  case (relay_ack r w now w')
  then show ?case by (blast intro: calm_relay_steps)
next
  case (relay_timeout r w now w')
  then show ?case by (blast intro: calm_relay_steps)
next
  case (relay_cancelled r w w')
  then show ?case by (blast intro: calm_relay_steps)
next
  case (ping_loop w wakeup rnd now w')
  then show ?case by (blast intro: calm_ping_loop)
next
  case (period_ack d w w')
  then show ?case by (blast intro: calm_period_steps)
next
  case (period_direct d w rnd now w')
  then show ?case by (blast intro: calm_period_direct)
next
  case (period_indirect d w now w')
  then show ?case by (blast intro: calm_period_steps)
next
  case (pingack_failures w wakeup now w')
  then show ?case by (blast intro: calm_other_loops)
next
  case (pingack_cleanup w wakeup now w')
  then show ?case by (blast intro: calm_other_loops)
next
  case (gossip_loop w wakeup rnd1 rnd2 now w')
  then show ?case by (blast intro: calm_other_loops)
next
  case (gossip_failures w wakeup now w')
  then show ?case by (blast intro: calm_other_loops)
next
  case (switch mech susp w response w')
  then show ?case by (blast intro: calm_switch)
next
  case (status_log now w counts us w')
  then show ?case by (blast intro: calm_status_log)
next
  case (stop w w')
  then show ?case by (blast intro: calm_Stop)
qed (simp_all add: calm_suspicion_check calm_requests)

lemma started_no_suspicion:
  "C_Start None (NewController config conn now) = (None, w) \<Longrightarrow> no_suspicion w"
  by (auto simp: C_Start_def NewController_def NewPingAckManager_def NewGossipManager_def no_suspicion_def
      PA_Start_def GM_Start_def Let_def split: DetectionMode.splits)

lemma calm_cluster: "cluster_run no_suspicion cfg conn c \<Longrightarrow> calm (c k)"
proof (induction arbitrary: k rule: cluster_run.induct)
  case (start t c)
  then show ?case unfolding calm_quiet by (blast intro: calm_started started_no_suspicion)
next
  case (step c now c')
  from step.hyps(2) step.IH step.hyps(3) show ?case
  proof (induction rule: cluster_step.induct)
    case (deliver addr x c j now i r src)
    have "calm_msg x" using calm_parts(2) [OF deliver(2) [of j]] deliver(1) by (auto simp: calm_net_def)
    then have "calm_net (receive_datagram (Datagram r (Some x) src) (network (c i)))"
      using calm_parts(2) [OF deliver(2) [of i]] by (rule calm_receive [rotated])
    then show ?case using deliver(2) calm_with_net by simp
  next
    case (act c i now w')
    then have "no_suspicion w'" using act(3) [of i] by simp
    then show ?case using calm_local_step [OF act(1)] act(2) by simp
  qed
qed

end
