(* ===== verification/Schedule.thy ===== *)
theory Schedule
  imports Cluster
begin

text \<open>
  The step relation of a process made executable. An action names a step and the choices
  it leaves open: the position of the goroutine that moves, the random numbers it draws, the
  text of a request. Performing an action computes the state after it, and the steps are
  exactly what the actions compute. A schedule is a list of actions and deliveries; whatever
  a schedule computes from freshly started processes is a run of the cluster.
\<close>

section \<open>Actions\<close>

datatype action =
    Dispatch
  | RunCallback nat
  | CheckSuspicions
  | PingLoop Wakeup "nat \<Rightarrow> nat"
  | PeriodAck nat
  | PeriodDirect nat "nat \<Rightarrow> nat"
  | PeriodIndirect nat
  | RelayAck nat
  | RelayTimeout nat
  | RelayCancelled nat
  | PingAckFailures Wakeup
  | PingAckCleanup Wakeup
  | GossipLoop Wakeup "nat \<Rightarrow> nat" "nat \<Rightarrow> nat"
  | GossipFailures Wakeup
  | JoinRequest string
  | LeaveRequest
  | SwitchRequest string string
  | DropRate rat
  | StatusLog
  | StopNode

definition nth_opt :: "nat \<Rightarrow> 'a list \<Rightarrow> 'a option" where
  "nth_opt i xs = (if i < length xs then Some (xs ! i) else None)"

definition guarded :: "bool \<Rightarrow> 'a option \<Rightarrow> 'a option" where
  "guarded b x = (if b then x else None)"

fun perform :: "action \<Rightarrow> time \<Rightarrow> node \<Rightarrow> node option" where
  "perform Dispatch now w = process_message now w"
| "perform (RunCallback i) now w = map_option (\<lambda>t. run_task t now
     (w\<lparr>spawned := take i (spawned w) @ drop (Suc i) (spawned w)\<rparr>)) (nth_opt i (spawned w))"
| "perform CheckSuspicions now w = guarded (sm_running (suspicion w)) (Some (check now w))"
| "perform (PingLoop wakeup rnd) now w =
     guarded (length (pa_periods (pingack w)) < pa_pingLoops (pingack w)) (PA_pingLoop wakeup rnd now w)"
| "perform (PeriodAck i) now w =
     Option.bind (nth_opt i (pa_periods (pingack w))) (\<lambda>d. PA_period_ack d w)"
| "perform (PeriodDirect i rnd) now w =
     Option.bind (nth_opt i (pa_periods (pingack w))) (\<lambda>d. PA_period_direct_timeout rnd d now w)"
| "perform (PeriodIndirect i) now w =
     Option.bind (nth_opt i (pa_periods (pingack w))) (\<lambda>d. PA_period_indirect_timeout d now w)"
| "perform (RelayAck i) now w =
     Option.bind (nth_opt i (pa_relays (pingack w))) (\<lambda>r. PA_relay_ack r now w)"
| "perform (RelayTimeout i) now w =
     Option.bind (nth_opt i (pa_relays (pingack w))) (\<lambda>r. PA_relay_timeout r now w)"
| "perform (RelayCancelled i) now w =
     Option.bind (nth_opt i (pa_relays (pingack w))) (\<lambda>r. PA_relay_cancelled r w)"
| "perform (PingAckFailures wakeup) now w =
     guarded (0 < pa_failureLoops (pingack w)) (PA_failureDetectionLoop wakeup now w)"
| "perform (PingAckCleanup wakeup) now w =
     guarded (0 < pa_cleanupLoops (pingack w)) (PA_cleanupLoop wakeup now w)"
| "perform (GossipLoop wakeup rnd1 rnd2) now w =
     guarded (0 < gm_gossipLoops (gossip w)) (GM_gossipLoop wakeup rnd1 rnd2 now w)"
| "perform (GossipFailures wakeup) now w =
     guarded (0 < gm_failureLoops (gossip w)) (GM_failureDetectionLoop wakeup now w)"
| "perform (JoinRequest intro) now w = Some (snd (CS_handleJoin intro now w))"
| "perform LeaveRequest now w = Some (snd (CS_handleLeave now w))"
| "perform (SwitchRequest mech susp) now w =
     (case CS_handleSwitch mech susp w of (None, _) \<Rightarrow> None | (Some _, w') \<Rightarrow> Some w')"
| "perform (DropRate rate) now w = Some (C_SetDropRate rate w)"
| "perform StatusLog now w = map_option (\<lambda>(_, _, w'). w') (CLI_tick now w)"
| "perform StopNode now w = (case C_Stop w of (Panicked, _) \<Rightarrow> None | (Returned, w') \<Rightarrow> Some w')"

lemma guarded_Some [simp]: "guarded b x = Some y \<longleftrightarrow> b \<and> x = Some y"
  by (simp add: guarded_def)

lemma nth_opt_Some: "nth_opt i xs = Some x \<longleftrightarrow> i < length xs \<and> xs ! i = x"
  by (simp add: nth_opt_def)

lemma nth_opt_mem: "nth_opt i xs = Some x \<Longrightarrow> x \<in> set xs"
  by (auto simp: nth_opt_Some)

lemma mem_nth_opt: "x \<in> set xs \<Longrightarrow> \<exists>i. nth_opt i xs = Some x"
  by (auto simp: nth_opt_Some in_set_conv_nth)

lemma perform_step: "perform a now w = Some w' \<Longrightarrow> local_step w now w'"
proof (induction a now w rule: perform.induct)
  case (2 i now w)
  then obtain t where "i < length (spawned w)" "spawned w ! i = t"
    and w': "w' = run_task t now (w\<lparr>spawned := take i (spawned w) @ drop (Suc i) (spawned w)\<rparr>)"
    by (auto simp: nth_opt_Some)
  then have "spawned w = take i (spawned w) @ t # drop (Suc i) (spawned w)"
    using id_take_nth_drop [of i "spawned w"] by simp
  then show ?case unfolding w' by (rule callback)
next
  case (5 i now w)
  then show ?case by (auto simp: bind_eq_Some_conv dest!: nth_opt_mem intro: local_step.period_ack)
next
  case (6 i rnd now w)
  then show ?case by (auto simp: bind_eq_Some_conv dest!: nth_opt_mem intro: local_step.period_direct)
next
  case (7 i now w)
  then show ?case by (auto simp: bind_eq_Some_conv dest!: nth_opt_mem intro: local_step.period_indirect)
next
  case (8 i now w)
  then show ?case by (auto simp: bind_eq_Some_conv dest!: nth_opt_mem intro: local_step.relay_ack)
next
  case (9 i now w)
  then show ?case by (auto simp: bind_eq_Some_conv dest!: nth_opt_mem intro: local_step.relay_timeout)
next
  case (10 i now w)
  then show ?case by (auto simp: bind_eq_Some_conv dest!: nth_opt_mem intro: local_step.relay_cancelled)
next
  case (1 now w)
  then show ?case by (auto intro: local_step.dispatch split: prod.splits option.splits Outcome.splits)
next
  case (3 now w)
  then show ?case by (auto intro: local_step.suspicion_check split: prod.splits option.splits Outcome.splits)
next
  case (4 wakeup rnd now w)
  then show ?case by (auto intro: local_step.ping_loop split: prod.splits option.splits Outcome.splits)
next
  case (11 wakeup now w)
  then show ?case by (auto intro: local_step.pingack_failures split: prod.splits option.splits Outcome.splits)
next
  case (12 wakeup now w)
  then show ?case by (auto intro: local_step.pingack_cleanup split: prod.splits option.splits Outcome.splits)
next
  case (13 wakeup rnd1 rnd2 now w)
  then show ?case by (auto intro: local_step.gossip_loop split: prod.splits option.splits Outcome.splits)
next
  case (14 wakeup now w)
  then show ?case by (auto intro: local_step.gossip_failures split: prod.splits option.splits Outcome.splits)
next
  case (15 intro now w)
  then show ?case by (auto intro: local_step.join split: prod.splits option.splits Outcome.splits)
next
  case (16 now w)
  then show ?case by (auto intro: local_step.leave split: prod.splits option.splits Outcome.splits)
next
  case (17 mech susp now w)
  then show ?case by (auto intro: local_step.switch split: prod.splits option.splits Outcome.splits)
next
  case (18 rate now w)
  then show ?case by (auto intro: local_step.drop_rate split: prod.splits option.splits Outcome.splits)
next
  case (19 now w)
  then show ?case by (auto intro: local_step.status_log split: prod.splits option.splits Outcome.splits)
next
  case (20 now w)
  then show ?case by (auto intro: local_step.stop split: prod.splits option.splits Outcome.splits)
qed

lemma step_perform: "local_step w now w' \<Longrightarrow> \<exists>a. perform a now w = Some w'"
proof (induction rule: local_step.induct)
  case (callback w before t after now)
  then have "perform (RunCallback (length before)) now w
      = Some (run_task t now (w\<lparr>spawned := before @ after\<rparr>))"
    by (simp add: nth_opt_def nth_append)
  then show ?case by blast
next
  case (dispatch now w w')
  then have "perform (Dispatch) now w = Some w'" by simp
  then show ?case by blast
next
  case (suspicion_check w now)
  then have "perform (CheckSuspicions) now w = Some (check now w)" by simp
  then show ?case by blast
next
  case (ping_loop w wakeup rnd now w')
  then have "perform (PingLoop wakeup rnd) now w = Some w'" by simp
  then show ?case by blast
next
  case (pingack_failures w wakeup now w')
  then have "perform (PingAckFailures wakeup) now w = Some w'" by simp
  then show ?case by blast
next
  case (pingack_cleanup w wakeup now w')
  then have "perform (PingAckCleanup wakeup) now w = Some w'" by simp
  then show ?case by blast
next
  case (gossip_loop w wakeup rnd1 rnd2 now w')
  then have "perform (GossipLoop wakeup rnd1 rnd2) now w = Some w'" by simp
  then show ?case by blast
next
  case (gossip_failures w wakeup now w')
  then have "perform (GossipFailures wakeup) now w = Some w'" by simp
  then show ?case by blast
next
  case (join w now intro)
  then have "perform (JoinRequest intro) now w = Some (snd (CS_handleJoin intro now w))" by simp
  then show ?case by blast
next
  case (leave w now)
  then have "perform (LeaveRequest) now w = Some (snd (CS_handleLeave now w))" by simp
  then show ?case by blast
next
  case (switch mech susp w response w' now)
  then have "perform (SwitchRequest mech susp) now w = Some w'" by simp
  then show ?case by blast
next
  case (drop_rate w now rate)
  then have "perform (DropRate rate) now w = Some (C_SetDropRate rate w)" by simp
  then show ?case by blast
next
  case (status_log now w counts us w')
  then have "perform (StatusLog) now w = Some w'" by simp
  then show ?case by blast
next
  case (stop w w' now)
  then have "perform (StopNode) now w = Some w'" by simp
  then show ?case by blast
next
  case (period_ack d w w' now)
  then obtain i where "nth_opt i (pa_periods (pingack w)) = Some d" by (blast dest: mem_nth_opt)
  with period_ack(2) have "perform (PeriodAck i) now w = Some w'" by simp
  then show ?case by blast
next
  case (period_direct d w rnd now w')
  then obtain i where "nth_opt i (pa_periods (pingack w)) = Some d" by (blast dest: mem_nth_opt)
  with period_direct(2) have "perform (PeriodDirect i rnd) now w = Some w'" by simp
  then show ?case by blast
next
  case (period_indirect d w now w')
  then obtain i where "nth_opt i (pa_periods (pingack w)) = Some d" by (blast dest: mem_nth_opt)
  with period_indirect(2) have "perform (PeriodIndirect i) now w = Some w'" by simp
  then show ?case by blast
next
  case (relay_ack r w now w')
  then obtain i where "nth_opt i (pa_relays (pingack w)) = Some r" by (blast dest: mem_nth_opt)
  with relay_ack(2) have "perform (RelayAck i) now w = Some w'" by simp
  then show ?case by blast
next
  case (relay_timeout r w now w')
  then obtain i where "nth_opt i (pa_relays (pingack w)) = Some r" by (blast dest: mem_nth_opt)
  with relay_timeout(2) have "perform (RelayTimeout i) now w = Some w'" by simp
  then show ?case by blast
next
  case (relay_cancelled r w w' now)
  then obtain i where "nth_opt i (pa_relays (pingack w)) = Some r" by (blast dest: mem_nth_opt)
  with relay_cancelled(2) have "perform (RelayCancelled i) now w = Some w'" by simp
  then show ?case by blast
qed

section \<open>Schedules\<close>

datatype event = Act nat action | Deliver nat nat nat rat string

fun actor :: "event \<Rightarrow> nat" where
  "actor (Act k a) = k"
| "actor (Deliver j i k r src) = k"

fun run_event :: "event \<Rightarrow> time \<Rightarrow> cluster \<Rightarrow> cluster option" where
  "run_event (Act k a) now c = map_option (\<lambda>w'. c(k := w')) (perform a now (c k))"
| "run_event (Deliver j i k r src) now c =
     Option.bind (nth_opt i (nl_sent (network (c j)))) (\<lambda>(addr, x).
       Some (c(k := (c k)\<lparr>network := receive_datagram (Datagram r (Some x) src) (network (c k))\<rparr>)))"

text \<open>After each event the process that moved is checked.\<close>

fun run_schedule :: "(node \<Rightarrow> bool) \<Rightarrow> (time \<times> event) list \<Rightarrow> cluster \<Rightarrow> cluster option" where
  "run_schedule ok [] c = Some c"
| "run_schedule ok ((now, e) # es) c =
     (case run_event e now c of
        None \<Rightarrow> None
      | Some c' \<Rightarrow> if ok (c' (actor e)) then run_schedule ok es c' else None)"

definition started :: "(nat \<Rightarrow> Config) \<Rightarrow> (nat \<Rightarrow> string \<Rightarrow> string option) \<Rightarrow> (nat \<Rightarrow> time) \<Rightarrow> cluster" where
  "started cfg conn t = (\<lambda>k. snd (C_Start None (NewController (cfg k) (conn k) (t k))))"

lemma C_Start_returns: "C_Start None w = (None, snd (C_Start None w))"
  by (simp add: C_Start_def Let_def)

lemma started_iff:
  "(\<forall>k. C_Start None (NewController (cfg k) (conn k) (t k)) = (None, c k)) \<longleftrightarrow> c = started cfg conn t"
  unfolding started_def by (metis C_Start_returns snd_conv)

lemma run_event_step: "run_event e now c = Some c' \<Longrightarrow> cluster_step c now c'"
  by (cases e) (auto simp: bind_eq_Some_conv dest!: nth_opt_mem perform_step
      simp del: receive_datagram.simps intro: cluster_step.intros)

lemma run_event_others: "run_event e now c = Some c' \<Longrightarrow> k \<noteq> actor e \<Longrightarrow> c' k = c k"
  by (cases e) (auto simp: bind_eq_Some_conv simp del: receive_datagram.simps)

lemma step_run_event: "cluster_step c now c' \<Longrightarrow> \<exists>e. run_event e now c = Some c'"
proof (induction rule: cluster_step.induct)
  case (deliver addr x c j now k r src)
  then obtain i where "nth_opt i (nl_sent (network (c j))) = Some (addr, x)"
    by (blast dest: mem_nth_opt)
  then have "run_event (Deliver j i k r src) now c
      = Some (c(k := (c k)\<lparr>network := receive_datagram (Datagram r (Some x) src) (network (c k))\<rparr>))"
    by (simp del: receive_datagram.simps)
  then show ?case by blast
next
  case (act c k now w')
  then obtain a where "perform a now (c k) = Some w'" by (blast dest: step_perform)
  then have "run_event (Act k a) now c = Some (c(k := w'))" by simp
  then show ?case by blast
qed

lemma run_schedule_append:
  "run_schedule ok (es @ es') c = Option.bind (run_schedule ok es c) (run_schedule ok es')"
  by (induction ok es c rule: run_schedule.induct) (simp_all split: option.split)

lemma run_schedule_runs:
  assumes "run_schedule ok es c = Some c'" "cluster_run ok cfg conn c" "\<forall>k. ok (c k)"
  shows "cluster_run ok cfg conn c' \<and> (\<forall>k. ok (c' k))"
  using assms
proof (induction es arbitrary: c)
  case (Cons x es)
  obtain now e c1 where x: "x = (now, e)" "run_event e now c = Some c1" "ok (c1 (actor e))"
      "run_schedule ok es c1 = Some c'"
    using Cons.prems(1) by (cases x) (auto split: option.splits if_splits)
  have ok: "\<forall>k. ok (c1 k)" using Cons.prems(3) x(2,3) run_event_others by metis
  then have "cluster_run ok cfg conn c1"
    using cluster_run.step [OF Cons.prems(2) run_event_step [OF x(2)]] by blast
  then show ?case using Cons.IH [OF x(4)] ok by blast
qed simp

lemma schedule_iff_run:
  assumes "\<And>t k. ok (started cfg conn t k)"
  shows "cluster_run ok cfg conn c \<longleftrightarrow> (\<exists>t es. run_schedule ok es (started cfg conn t) = Some c)"
proof
  show "cluster_run ok cfg conn c \<Longrightarrow> \<exists>t es. run_schedule ok es (started cfg conn t) = Some c"
  proof (induction rule: cluster_run.induct)
    case (start t c)
    then have "c = started cfg conn t" using started_iff by blast
    then have "run_schedule ok [] (started cfg conn t) = Some c" by simp
    then show ?case by blast
  next
    case (step c now c')
    then obtain t es e where "run_schedule ok es (started cfg conn t) = Some c" "run_event e now c = Some c'"
      using step_run_event by blast
    with step.hyps(3) have "run_schedule ok (es @ [(now, e)]) (started cfg conn t) = Some c'"
      by (simp add: run_schedule_append)
    then show ?case by blast
  qed
next
  assume "\<exists>t es. run_schedule ok es (started cfg conn t) = Some c"
  moreover have "cluster_run ok cfg conn (started cfg conn t)" for t
    by (rule cluster_run.start) (use started_iff in blast)
  ultimately show "cluster_run ok cfg conn c" using run_schedule_runs assms by blast
qed

section \<open>A failure without suspicion\<close>

text \<open>
  Three processes in ping/ack mode; 1 and 2 join through 0, then 1 falls silent: a protocol
  period of 0 probes it directly and through 2, both in vain, and removes it. The next
  period sends the news to 2.
\<close>

definition three_nodes :: "nat \<Rightarrow> Config" where
  "three_nodes k = \<lparr>cfg_NodeID = node_at (of_nat k), cfg_IntroducerAddr = [], cfg_IsIntroducer = False,
     cfg_Mode = PingAckMode, cfg_Timeouts = DefaultTimeoutConfig\<rparr>"

definition seconds :: "nat \<Rightarrow> time" where
  "seconds n = (62135596800 + of_nat n) * 1000000000"

abbreviation no_errors :: "nat \<Rightarrow> string \<Rightarrow> string option" where
  "no_errors \<equiv> \<lambda>_ _. None"

definition joining_schedule :: "(time \<times> event) list" where
  "joining_schedule = [
     (seconds 1, Act 1 (JoinRequest ''10.0.0.1:0'')), (seconds 1, Deliver 1 0 0 0 []),
     (seconds 1, Act 0 Dispatch),
     (seconds 2, Act 2 (JoinRequest ''10.0.0.1:0'')), (seconds 2, Deliver 2 0 0 0 []),
     (seconds 2, Act 0 Dispatch), (seconds 2, Deliver 0 1 2 0 []), (seconds 2, Act 2 Dispatch)]"

definition failing_schedule :: "(time \<times> event) list" where
  "failing_schedule = joining_schedule @ [
     (seconds 3, Act 0 (PingLoop Tick (\<lambda>_. 1))), (seconds 6, Act 0 (PeriodDirect 0 (\<lambda>_. 0))),
     (seconds 9, Act 0 (PeriodIndirect 0)), (seconds 9, Act 0 (PingLoop Tick (\<lambda>_. 0)))]"

text \<open>Process \<open>j\<close> has sent news of a failure of a member that process \<open>k\<close> lists as alive.\<close>

definition news_of_failure :: "nat \<Rightarrow> nat \<Rightarrow> cluster \<Rightarrow> bool" where
  "news_of_failure j k c \<longleftrightarrow> (\<exists>(addr, x) \<in> set (nl_sent (network (c j))). \<exists>u \<in> set (msg_Members x).
     up_Status u = Failed
     \<and> map_option mb_Status (lookup (membership (c k)) (NodeID_String (up_NodeID u))) = Some Alive)"

lemma started_calm: "no_suspicion (started cfg conn t k)"
  unfolding started_def by (rule started_no_suspicion [OF C_Start_returns])

lemma failing_run: "\<exists>c. cluster_run no_suspicion three_nodes no_errors c \<and> news_of_failure 0 2 c"
proof -
  have "case run_schedule no_suspicion failing_schedule (started three_nodes no_errors (\<lambda>_. 0)) of
      None \<Rightarrow> False | Some c \<Rightarrow> news_of_failure 0 2 c"
    by code_simp
  then show ?thesis
    using schedule_iff_run [where ok = no_suspicion, OF started_calm] by (auto split: option.splits)
qed

text \<open>
  C14: As long as no process enables suspicion, no incarnation number ever leaves zero: in
  every state of every run of a cluster, whatever is lost, duplicated or reordered, each
  process's own incarnation, those of the members it lists and those of the messages it has
  sent are zero, nobody is suspected, and the suspicion manager has no entry.
\<close>

theorem incarnations_stay_zero:
  assumes "cluster_run no_suspicion cfg conn c"
  shows "ml_Incarnation (membership (c k)) = 0
    \<and> (\<forall>(key, m) \<in> set (ml_Members (membership (c k))). mb_Incarnation m = 0 \<and> mb_Status m \<noteq> Suspected)
    \<and> (\<forall>(addr, x) \<in> set (nl_sent (network (c k))). msg_Incarnation x = 0)
    \<and> sm_entries (suspicion (c k)) = []"
  using calm_cluster [OF assms, of k]
  by (auto simp: calm_def calm_ml_def calm_mb_def calm_net_def calm_msg_def)

theorem incarnations_stay_zero_witness:
  "\<exists>c. news_of_failure 0 2 c \<and> ml_Incarnation (membership (c 0)) = 0 \<and> sm_entries (suspicion (c 0)) = []"
proof -
  obtain c where "cluster_run no_suspicion three_nodes no_errors c" "news_of_failure 0 2 c"
    using failing_run by blast
  then show ?thesis using incarnations_stay_zero [of three_nodes no_errors c 0] by blast
qed

lemma calm_failure_ignored:
  assumes "calm w" "calm_up u" "up_Status u = Failed" "lookup (membership w) (NodeID_String (up_NodeID u)) = Some m"
  shows "PA_processUpdate u r now w = w \<and> GM_processUpdate u r now w = w"
  using assms calm_lookup [OF calm_parts(1) [OF assms(1)] assms(4)]
  by (simp add: PA_processUpdate_eq GM_processUpdate_eq apply_update_def calm_merge store_same
      notify_def Let_def calm_parts)

text \<open>
  C15: Without suspicion the news of a failure does not spread among those it matters to: in
  every run of such a cluster, an update that announces a failure, in any message any process
  has sent, changes nothing at a process that lists the member, under either detector. Each
  process that knows a failed member has to find out by itself.
\<close>

theorem failures_do_not_spread:
  assumes "cluster_run no_suspicion cfg conn c"
    "(addr, x) \<in> set (nl_sent (network (c j)))" "u \<in> set (msg_Members x)" "up_Status u = Failed"
    "lookup (membership (c k)) (NodeID_String (up_NodeID u)) = Some m"
  shows "PA_processUpdate u reporter now (c k) = c k \<and> GM_processUpdate u reporter now (c k) = c k"
proof -
  have "calm (c j)" "calm (c k)" using calm_cluster [OF assms(1)] by blast+
  moreover from this have "calm_up u" using assms(2,3) by (auto simp: calm_def calm_net_def calm_msg_def)
  ultimately show ?thesis using assms(4,5) calm_failure_ignored by blast
qed

theorem failures_do_not_spread_witness:
  "\<exists>c u m. lookup (membership (c 2)) (NodeID_String (up_NodeID u)) = Some m \<and> mb_Status m = Alive
    \<and> up_Status u = Failed \<and> news_of_failure 0 2 c \<and> PA_processUpdate u (node_at 0) (seconds 10) (c 2) = c 2"
proof -
  obtain c where c: "cluster_run no_suspicion three_nodes no_errors c" "news_of_failure 0 2 c"
    using failing_run by blast
  then obtain addr x u m where "(addr, x) \<in> set (nl_sent (network (c 0)))" "u \<in> set (msg_Members x)"
      "up_Status u = Failed" "lookup (membership (c 2)) (NodeID_String (up_NodeID u)) = Some m" "mb_Status m = Alive"
    by (auto simp: news_of_failure_def)
  with c failures_do_not_spread [OF c(1), of addr x 0 u 2 m "node_at 0" "seconds 10"] show ?thesis by blast
qed

end
