(* ===== verification/Identities.thy ===== *)
theory Identities
  imports Schedule
begin

text \<open>
  Where the identities come from. Whatever a process lists, remembers or sends is named after a
  process of the cluster: no loss, duplication or reordering of messages, no callback that runs
  late and no timer makes a member up. The theory follows a set of identities that is closed
  under new timestamps, as a process that joins again takes one, through every operation.
\<close>

section \<open>Identities of a set\<close>

named_theorems named_intros \<open>what keeps the identities of a state in a set\<close>

definition named_ml :: "(NodeID \<Rightarrow> bool) \<Rightarrow> MembershipList \<Rightarrow> bool" where
  "named_ml P ml \<longleftrightarrow> P (ml_LocalNode ml) \<and> (\<forall>(k, m) \<in> set (ml_Members ml). P (mb_ID m))
     \<and> (\<forall>u \<in> set (ml_recentUpdates ml). P (up_NodeID u))"

definition named_msg :: "(NodeID \<Rightarrow> bool) \<Rightarrow> Message \<Rightarrow> bool" where
  "named_msg P x \<longleftrightarrow> P (msg_Sender x) \<and> (\<forall>u \<in> set (msg_Members x). P (up_NodeID u))"

definition named_net :: "(NodeID \<Rightarrow> bool) \<Rightarrow> NetworkLayer \<Rightarrow> bool" where
  "named_net P n \<longleftrightarrow> (\<forall>(a, x) \<in> set (nl_sent n). named_msg P x)
     \<and> (\<forall>q \<in> set (nl_messageQueue n). named_msg P (rm_Message q))"

definition named_pa :: "(NodeID \<Rightarrow> bool) \<Rightarrow> PingAckManager \<Rightarrow> bool" where
  "named_pa P p \<longleftrightarrow> (\<forall>d \<in> set (pa_periods p). P (pd_target d) \<and> (\<forall>u \<in> set (pd_updates d). P (up_NodeID u)))"

definition named :: "(NodeID \<Rightarrow> bool) \<Rightarrow> node \<Rightarrow> bool" where
  "named P w \<longleftrightarrow> named_ml P (membership w) \<and> named_net P (network w) \<and> named_pa P (pingack w)"

subsection \<open>The membership list\<close>

lemma named_store [named_intros]: "named_ml P ml \<Longrightarrow> P (mb_ID m) \<Longrightarrow> named_ml P (store k m ml)"
  using set_update_subset [of k m "ml_Members ml"] by (fastforce simp: named_ml_def)

lemma named_discard [named_intros]: "named_ml P ml \<Longrightarrow> named_ml P (discard k ml)"
  using set_delete_subset [of k "ml_Members ml"] by (fastforce simp: named_ml_def)

lemma named_recent [named_intros]:
  "named_ml P ml \<Longrightarrow> P (mb_ID m) \<Longrightarrow> named_ml P (AddRecentUpdate now m ml)"
  "named_ml P ml \<Longrightarrow> P (mb_ID m) \<Longrightarrow> named_ml P (AddRecentUpdateSafe now m ml)"
  by (auto simp: named_ml_def AddRecentUpdate_def AddRecentUpdateSafe_def)

lemma named_recents [named_intros]:
  "named_ml P ml \<Longrightarrow> (\<forall>m \<in> set ms. P (mb_ID (f m)))
    \<Longrightarrow> named_ml P (fold (\<lambda>m. AddRecentUpdateSafe now (f m)) ms ml)"
  by (induction ms arbitrary: ml) (auto intro: named_intros)

lemma named_discards [named_intros]: "named_ml P ml \<Longrightarrow> named_ml P (fold (\<lambda>m. discard (f m)) ms ml)"
  by (induction ms arbitrary: ml) (auto intro: named_intros)

lemma named_incarnation [simp]: "named_ml P (ml\<lparr>ml_Incarnation := i\<rparr>) = named_ml P ml"
  by (simp add: named_ml_def)

lemma named_lookup: "named_ml P ml \<Longrightarrow> lookup ml k = Some m \<Longrightarrow> P (mb_ID m)"
  using map_of_SomeD [of "ml_Members ml" k m] by (auto simp: named_ml_def)

lemma named_LocalNode: "named_ml P ml \<Longrightarrow> P (ml_LocalNode ml)"
  by (simp add: named_ml_def)

lemma failed_member_ID [simp]: "mb_ID (failed_member m) = mb_ID m"
  by (simp add: failed_member_def zero_Member_def)

lemma new_member_ID [simp]: "mb_ID (PA_new_member u now) = up_NodeID u"
  by (simp add: PA_new_member_def zero_Member_def Let_def)

lemma merge_ID [simp]: "mb_ID (fst (PA_merge en u now m)) = mb_ID m"
  by (simp add: PA_merge_def Let_def)

lemma named_GetRecentUpdates:
  "GetRecentUpdates now l ml = Some (us, ml') \<Longrightarrow> named_ml P ml
    \<Longrightarrow> named_ml P ml' \<and> (\<forall>u \<in> set us. P (up_NodeID u))"
  by (auto simp: GetRecentUpdates_def named_ml_def Let_def split: if_splits dest!: in_set_takeD)

lemma named_GetRandomMembers:
  assumes "GetRandomMembers rnd n ex ml = Some ms" "named_ml P ml"
  shows "\<forall>m \<in> set ms. P (mb_ID m)"
proof
  fix m assume "m \<in> set ms"
  then have "m \<in> set (shuffle rnd (candidates ex ml))"
    using assms(1) by (auto simp: GetRandomMembers_def Let_def split: if_splits dest: in_set_takeD)
  then have "m \<in> set (candidates ex ml)" by (simp add: set_shuffle)
  with assms(2) show "P (mb_ID m)" by (auto simp: candidates_def named_ml_def)
qed

lemma named_sender_members [named_intros]:
  assumes "named_ml P ml"
  shows "P (msg_Sender x) \<Longrightarrow> named_ml P (PA_note_sender x now ml)"
    "named_ml P (alive_members x now ml)" "named_ml P (indirect_ack_members x now ml)"
    "named_ml P (leave_members x now ml)" "named_ml P (mark_suspected now k ml)"
    "named_ml P (clear_member k i ml)"
  using assms
  by (auto simp: PA_note_sender_def alive_members_def indirect_ack_members_def leave_members_def
      mark_suspected_def clear_member_def Let_def intro!: named_intros split: option.split
      dest: named_lookup)

lemma named_confirm_members: "named_ml P ml \<Longrightarrow> named_ml P (fst (confirm_members cs ml))"
proof (induction cs arbitrary: ml)
  case (Cons c cs)
  then show ?case
    by (auto simp: case_prod_beta Let_def intro!: named_intros Cons.IH split: option.split dest: named_lookup)
qed simp

lemma named_remove_old:
  "named_ml P ml \<Longrightarrow> named_ml P (fst (remove_old ks ml)) \<and> (\<forall>m \<in> set (snd (remove_old ks ml)). P (mb_ID m))"
proof (induction ks arbitrary: ml)
  case (Cons k ks)
  then show ?case
    using Cons.IH [OF named_discard [OF Cons.prems, of k]]
    by (auto simp: case_prod_beta split: option.split dest: named_lookup)
qed simp

lemma named_join_members:
  assumes "named_ml P ml" "P (msg_Sender x)"
  shows "named_ml P (fst (join_members x now ml))
    \<and> (\<forall>u \<in> set (snd (join_members x now ml)). P (up_NodeID u))"
proof -
  let ?r = "remove_old (old_entries (msg_Sender x) ml) ml"
  let ?m = "zero_Member\<lparr>mb_ID := msg_Sender x, mb_Incarnation := msg_Incarnation x,
      mb_Status := Alive, mb_LastHeartbeat := now\<rparr>"
  let ?ml = "store (NodeID_String (msg_Sender x)) ?m (fst ?r)"
  let ?ml' = "fold (AddRecentUpdateSafe now) (snd ?r) ?ml"
  have eq: "join_members x now ml = (AddRecentUpdateSafe now ?m ?ml', membership_updates now ?ml)"
    by (simp add: join_members_def case_prod_beta Let_def)
  have ml: "named_ml P ?ml" using named_remove_old [OF assms(1)] assms(2) by (intro named_store) simp_all
  have "named_ml P ?ml'"
    using named_recents [OF ml, of "snd ?r" "\<lambda>m. m" now] named_remove_old [OF assms(1)] by simp
  then have "named_ml P (AddRecentUpdateSafe now ?m ?ml')" using assms(2) by (intro named_recent) simp_all
  moreover have "P (up_NodeID u)" if "u \<in> set (membership_updates now ?ml)" for u
    using that ml unfolding membership_updates_def named_ml_def by auto
  ultimately show ?thesis by (simp add: eq)
qed

lemma named_join_response_step: "named_ml P (fst s) \<Longrightarrow> P (up_NodeID u) \<Longrightarrow> named_ml P (fst (join_response_step now u s))"
  by (auto simp: join_response_step_def case_prod_beta Let_def intro!: named_intros
      split: option.split dest: named_lookup)

lemma named_join_responses:
  "named_ml P (fst s) \<Longrightarrow> \<forall>u \<in> set us. P (up_NodeID u) \<Longrightarrow> named_ml P (fst (fold (join_response_step now) us s))"
  by (induction us arbitrary: s) (simp_all add: named_join_response_step)

subsection \<open>The network and the ping/ack manager\<close>

lemma named_stamped [simp]: "named_msg P (stamped now x) = named_msg P x"
  by (simp add: named_msg_def)

lemma named_Send [named_intros]: "named_net P n \<Longrightarrow> named_msg P x \<Longrightarrow> named_net P (snd (Send now x a n))"
  by (auto simp: Send_def Let_def named_net_def named_msg_def split: option.split)

lemma named_sends [named_intros]:
  "named_net P n \<Longrightarrow> named_msg P x \<Longrightarrow> named_net P (fold (\<lambda>m n. snd (Send now x (f m) n)) ms n)"
  by (induction ms arbitrary: n) (auto intro: named_intros)

lemma named_send_all [named_intros]:
  "named_net P n \<Longrightarrow> named_msg P x \<Longrightarrow> named_net P (send_all now x as n)"
  unfolding send_all_def using named_sends [of P n x now "\<lambda>a. a" as] by simp

lemma named_registered [simp]:
  "named_net P (n\<lparr>nl_handlers := h\<rparr>) = named_net P n"
  "named_net P (n\<lparr>nl_dropRate := d\<rparr>) = named_net P n"
  "named_net P (n\<lparr>nl_closed := b\<rparr>) = named_net P n"
  "named_net P (RegisterHandler t g n) = named_net P n"
  by (simp_all add: named_net_def RegisterHandler_def)

lemma named_receive [named_intros]:
  "named_net P n \<Longrightarrow> named_msg P x \<Longrightarrow> named_net P (receive_datagram (Datagram r (Some x) src) n)"
  by (auto simp: named_net_def)

lemma named_msgI [named_intros]:
  "P (msg_Sender x) \<Longrightarrow> \<forall>u \<in> set (msg_Members x). P (up_NodeID u) \<Longrightarrow> named_msg P x"
  by (simp add: named_msg_def)

lemma named_pa_periods: "pa_periods p' = pa_periods p \<Longrightarrow> named_pa P p \<Longrightarrow> named_pa P p'"
  by (simp add: named_pa_def)

lemma periods_kept [simp]:
  "pa_periods (PA_signal_pending x p) = pa_periods p" "pa_periods (PA_signal_indirect x p) = pa_periods p"
  "pa_periods (PA_signal_waiter x p) = pa_periods p" "pa_periods (cancel_waiter a p) = pa_periods p"
  "pa_periods (relay_finish r p) = pa_periods p" "pa_periods (cleanup_step k p) = pa_periods p"
  by (simp_all add: PA_signal_pending_def PA_signal_indirect_def PA_signal_waiter_def cancel_waiter_def
      relay_finish_def cleanup_step_def Let_def split: option.split)

lemma named_period_finish [named_intros]: "named_pa P p \<Longrightarrow> named_pa P (period_finish d p)"
  by (auto simp: period_finish_def drop_pending_def named_pa_def dest: notin_set_remove1
      set_mp [OF set_remove1_subset])

lemma named_with [named_intros]:
  "named P w \<Longrightarrow> named_ml P ml \<Longrightarrow> named P (w\<lparr>membership := ml\<rparr>)"
  "named P w \<Longrightarrow> named_net P n \<Longrightarrow> named P (w\<lparr>network := n\<rparr>)"
  "named P w \<Longrightarrow> named_pa P p \<Longrightarrow> named P (w\<lparr>pingack := p\<rparr>)"
  by (simp_all add: named_def)

lemma named_unseen [simp]:
  "named P (w\<lparr>suspicion := s\<rparr>) = named P w" "named P (w\<lparr>spawned := ts\<rparr>) = named P w"
  "named P (w\<lparr>gossip := g\<rparr>) = named P w" "named P (w\<lparr>mode := m\<rparr>) = named P w"
  by (simp_all add: named_def)

lemma named_parts:
  assumes "named P w"
  shows "named_ml P (membership w)" "named_net P (network w)" "named_pa P (pingack w)"
    "P (ml_LocalNode (membership w))"
  using assms by (simp_all add: named_def named_ml_def)

section \<open>The suspicion manager and the callbacks\<close>

lemma named_refutation [named_intros]: "named P w \<Longrightarrow> named P (handleSelfRefutation i now w)"
  by (auto simp: handleSelfRefutation_def Let_def named_parts intro!: named_intros)

lemma named_Process [named_intros]: "named P w \<Longrightarrow> named P (ProcessSuspicion r t i now w)"
  by (auto simp: ProcessSuspicion_def Let_def named_parts intro!: named_intros split: option.split)

lemma named_Clear [named_intros]: "named P w \<Longrightarrow> named P (ClearSuspect t i w)"
  by (auto simp: ClearSuspect_def Let_def named_parts intro!: named_intros split: option.split)

lemma named_notify [named_intros]:
  "named P w \<Longrightarrow> named P (notify (\<lambda>r t i. ProcessSuspicion r t i now) ClearSuspect en u r w)"
  by (auto simp: notify_def Let_def intro!: named_intros)

interpretation nc: keeping "named P" "\<lambda>u. ClearSuspect (up_NodeID u) (up_Incarnation u)" for P
  by unfold_locales (rule named_Clear)

lemma named_check: "named P w \<Longrightarrow> named P (check now w)"
  using named_confirm_members [OF named_parts(1)]
  by (auto simp: check_def Let_def case_prod_beta intro!: named_intros)

lemma named_change:
  "named_ml P ml \<Longrightarrow> (\<And>m. P (mb_ID m) \<Longrightarrow> named_ml P (f m))
    \<Longrightarrow> named_ml P (case lookup ml k of None \<Rightarrow> ml | Some m \<Rightarrow> f m)"
  by (simp add: named_lookup split: option.split)

lemma named_run_task: "named P w \<Longrightarrow> named P (run_task t now w)"
  by (cases t) (auto simp: C_OnSuspect_def C_OnConfirm_def C_OnClear_def Let_def named_parts
      intro!: named_intros named_change named_LocalNode [of P])

section \<open>Messages\<close>

lemma named_apply_update [named_intros]:
  assumes "named P w" "P (up_NodeID u)"
  shows "named P (apply_update en u r now w)"
  using assms
  by (auto simp: apply_update_def Let_def named_parts intro!: named_intros split: option.split
      dest: named_lookup [OF named_parts(1)])

lemma named_updates [named_intros]:
  assumes "named P w" "\<forall>u \<in> set us. P (up_NodeID u)"
  shows "named P (PA_processUpdates us r now w)" "named P (GM_processUpdates us r now w)"
proof -
  have "named P (fold (\<lambda>u. PA_processUpdate u r now) us w) \<and> named P (fold (\<lambda>u. GM_processUpdate u r now) us w')"
    if "named P w" "named P w'" for w w'
    using that assms(2)
    by (induction us arbitrary: w w') (simp_all add: PA_processUpdate_eq GM_processUpdate_eq named_apply_update)
  with assms(1) show "named P (PA_processUpdates us r now w)" "named P (GM_processUpdates us r now w)"
    by (simp_all add: PA_processUpdates_def GM_processUpdates_def)
qed

lemma named_handlers:
  assumes "named P w" "named_msg P x"
  shows "named P (PA_handlePing x now w)" "named P (PA_handleAck x now w)" "named P (PA_handleIndirectAck x now w)"
    "named P (PA_handleAliveMessage x now w)" "named P (PA_handleSuspectMessage x now w)"
    "named P (PA_handleLeave x now w)" "named P (GM_handleHeartbeat x now w)"
    "named P (GM_handleSuspectMessage x now w)" "named P (GM_handleAliveMessage x now w)"
    "named P (GM_handleConfirmMessage x now w)" "named P (GM_handleLeave x now w)"
proof -
  have x: "P (msg_Sender x)" "\<forall>u \<in> set (msg_Members x). P (up_NodeID u)"
    using assms(2) by (simp_all add: named_msg_def)
  note parts = named_parts [OF assms(1)]
  have same: "pa_periods p' = pa_periods (pingack w) \<Longrightarrow> named_pa P p'" for p'
    using parts(3) by (rule named_pa_periods [rotated])
  show "named P (PA_handlePing x now w)"
    using assms(1) x parts by (auto simp: PA_handlePing_def Let_def intro!: named_intros)
  show "named P (PA_handleAck x now w)" "named P (PA_handleIndirectAck x now w)"
    using assms(1) x parts
    by (auto simp: PA_handleAck_def PA_handleIndirectAck_def Let_def intro!: named_intros same)
  show "named P (PA_handleAliveMessage x now w)" "named P (GM_handleAliveMessage x now w)"
    using assms(1) x parts
    by (auto simp: PA_handleAliveMessage_def GM_handleAliveMessage_def intro!: named_intros)
  show "named P (PA_handleSuspectMessage x now w)" "named P (GM_handleSuspectMessage x now w)"
    using assms(1) by (auto simp: PA_handleSuspectMessage_def GM_handleSuspectMessage_def intro!: named_intros)
  show "named P (PA_handleLeave x now w)" "named P (GM_handleLeave x now w)"
    using assms(1) parts by (auto simp: PA_handleLeave_def GM_handleLeave_def intro!: named_intros)
  show "named P (GM_handleHeartbeat x now w)"
    using assms(1) x parts by (auto simp: GM_handleHeartbeat_def GM_note_sender_eq intro!: named_intros)
  show "named P (GM_handleConfirmMessage x now w)"
    using assms(1) x parts
    by (auto simp: GM_handleConfirmMessage_def Let_def intro!: named_intros split: option.split
        dest: named_lookup)
qed

lemma named_joins:
  assumes "named P w" "named_msg P x"
  shows "named P (PA_handleJoin x now w)" "named P (GM_handleJoin x now w)"
    "named P (PA_handleJoinResponse x now w)" "named P (GM_handleJoinResponse x now w)"
proof -
  have x: "P (msg_Sender x)" "\<forall>u \<in> set (msg_Members x). P (up_NodeID u)"
    using assms(2) by (simp_all add: named_msg_def)
  note parts = named_parts [OF assms(1)]
  have members: "named_ml P (fst (join_members x now (membership w)))"
      "\<forall>u \<in> set (snd (join_members x now (membership w))). P (up_NodeID u)"
    using named_join_members [OF parts(1) x(1), of now] by simp_all
  with assms(1) parts show "named P (PA_handleJoin x now w)" "named P (GM_handleJoin x now w)"
    by (auto simp: PA_handleJoin_def GM_handleJoin_def case_prod_beta Let_def
        intro!: named_intros named_LocalNode [of P])
  have "named_ml P (fst (fold (join_response_step now) (msg_Members x) (membership w, [])))"
    using x(2) parts(1) by (intro named_join_responses) simp_all
  with assms(1) show "named P (PA_handleJoinResponse x now w)" "named P (GM_handleJoinResponse x now w)"
    by (auto simp: PA_handleJoinResponse_def GM_handleJoinResponse_def case_prod_beta
        intro!: named_intros nc.loop_keeps)
qed

lemma named_handleIndirectPing:
  assumes "named P w" "named_msg P x" "PA_handleIndirectPing x now w = Some w'"
  shows "named P w'"
proof (cases "pa_active (pingack w)")
  case True
  have x: "P (msg_Sender x)" "\<forall>u \<in> set (msg_Members x). P (up_NodeID u)"
    using assms(2) by (simp_all add: named_msg_def)
  note parts = named_parts [OF assms(1)]
  let ?k = "NodeID_String (msg_Sender x)"
  let ?ml = "case lookup (membership w) ?k of None \<Rightarrow> membership w
    | Some m \<Rightarrow> if sint (mb_Incarnation m) \<le> sint (msg_Incarnation x)
        then store ?k (m\<lparr>mb_LastHeartbeat := now\<rparr>) (membership w) else membership w"
  let ?p = "(pingack w)\<lparr>pa_heap := (pa_heap (pingack w))(pa_next (pingack w) \<mapsto>
      \<lparr>iw_requester = msg_Sender x, iw_ch = None, iw_cancelled = False, iw_createdTime = now\<rparr>),
    pa_next := Suc (pa_next (pingack w)), pa_pendingIndirect := AList.update
      (indirect_key (msg_SeqNum x) (msg_Target x)) (pa_next (pingack w)) (pa_pendingIndirect (pingack w))\<rparr>"
  let ?w1 = "PA_processUpdates (msg_Members x) (msg_Sender x) now (w\<lparr>membership := ?ml, pingack := ?p\<rparr>)"
  have "named_ml P ?ml"
    using parts(1) named_lookup [OF parts(1), of ?k] by (auto intro!: named_intros split: option.split)
  moreover have "named_pa P ?p" using parts(3) by (simp add: named_pa_def)
  ultimately have w1: "named P ?w1" using assms(1) x(2) by (intro named_intros)
  obtain us ml where us: "GetRecentUpdates now 5 (membership ?w1) = Some (us, ml)"
    using assms(3) True by (auto simp: PA_handleIndirectPing_def Let_def split: option.splits)
  have "named_ml P ml" "\<forall>u \<in> set us. P (up_NodeID u)"
    using named_GetRecentUpdates [OF us named_parts(1) [OF w1]] by simp_all
  moreover have "named_pa P (pingack ?w1\<lparr>pa_relays := rs\<rparr>)" for rs
    using named_parts(3) [OF w1] by (simp add: named_pa_def)
  ultimately show ?thesis
    using assms(3) True us w1
    by (auto simp: PA_handleIndirectPing_def Let_def named_parts intro!: named_intros named_LocalNode [of P])
qed (use assms in \<open>simp add: PA_handleIndirectPing_def\<close>)

lemma named_run_handler:
  "named P w \<Longrightarrow> named_msg P x \<Longrightarrow> run_handler h x now w = Some w' \<Longrightarrow> named P w'"
  by (cases h) (auto simp: named_handlers named_joins intro: named_handleIndirectPing)

lemma named_process_message:
  assumes "named P w" "process_message now w = Some w'"
  shows "named P w'"
proof -
  obtain q rest where q: "nl_messageQueue (network w) = q # rest"
    using assms(2) by (cases "nl_messageQueue (network w)") (auto simp: process_message_def processQueue_step_def)
  have "named_msg P (rm_Message q)" "named_net P ((network w)\<lparr>nl_messageQueue := rest\<rparr>)"
    using named_parts(2) [OF assms(1)] q by (simp_all add: named_net_def)
  moreover from this have "named P (w\<lparr>network := (network w)\<lparr>nl_messageQueue := rest\<rparr>\<rparr>)"
    using assms(1) by (intro named_intros)
  ultimately show ?thesis
    using assms(2) q by (auto simp: process_message_def processQueue_step_def Let_def
        split: option.splits intro: named_run_handler)
qed

section \<open>Timers\<close>

lemma named_declare [named_intros]: "named P w \<Longrightarrow> P n \<Longrightarrow> named P (PA_declareSuspicion n now w)"
  using named_lookup [OF named_parts(1), of P w]
  by (auto simp: PA_declareSuspicion_def Let_def named_parts intro!: named_intros split: option.split)

lemma named_period_begin:
  assumes "named P w" "PA_period_begin rnd now w = Some w'"
  shows "named P w'"
proof (cases "w' = w")
  case False
  note parts = named_parts [OF assms(1)]
  have begun: "named_pa P ((pingack w)\<lparr>pa_seqNum := s, pa_pendingAcks := q, pa_periods := pa_periods (pingack w) @ [d]\<rparr>)"
    if "P (pd_target d)" "\<forall>u \<in> set (pd_updates d). P (up_NodeID u)" for s q d
    using parts(3) that by (auto simp: named_pa_def)
  obtain m ms us ml where run:
      "GetRandomMembers rnd 1 [NodeID_String (ml_LocalNode (membership w))] (membership w) = Some (m # ms)"
      "GetRecentUpdates now 5 (membership w) = Some (us, ml)"
    using assms(2) False by (auto simp: PA_period_begin_def Let_def split: option.splits list.splits)
  then have "named_ml P ml" "\<forall>u \<in> set us. P (up_NodeID u)" "P (mb_ID m)"
    using named_GetRecentUpdates [OF run(2) parts(1)] named_GetRandomMembers [OF run(1) parts(1)] by simp_all
  then show ?thesis
    using assms parts run
    by (auto simp: PA_period_begin_def Let_def intro!: named_intros begun named_LocalNode [of P])
qed (use assms(1) in simp)

lemma named_period_steps:
  assumes "named P w" "d \<in> set (pa_periods (pingack w))"
  shows "PA_period_ack d w = Some w' \<Longrightarrow> named P w'"
    "PA_period_direct_timeout rnd d now w = Some w' \<Longrightarrow> named P w'"
    "PA_period_indirect_timeout d now w = Some w' \<Longrightarrow> named P w'"
proof -
  note parts = named_parts [OF assms(1)]
  have d: "P (pd_target d)" "\<forall>u \<in> set (pd_updates d). P (up_NodeID u)"
    using parts(3) assms(2) by (auto simp: named_pa_def)
  have moved: "named_pa P ((pingack w)\<lparr>pa_periods := remove1 d (pa_periods (pingack w)) @ [d\<lparr>pd_phase := f, pd_deadline := t\<rparr>]\<rparr>)"
    for f t
    using parts(3) d set_remove1_subset [of d "pa_periods (pingack w)"] by (auto simp: named_pa_def)
  show "PA_period_ack d w = Some w' \<Longrightarrow> named P w'"
    "PA_period_direct_timeout rnd d now w = Some w' \<Longrightarrow> named P w'"
    "PA_period_indirect_timeout d now w = Some w' \<Longrightarrow> named P w'"
    using assms(1) parts d
    by (auto simp: PA_period_ack_def PA_period_direct_timeout_def PA_period_indirect_timeout_def Let_def
        intro!: named_intros moved split: option.splits if_splits)
qed

lemma named_relay_steps:
  assumes "named P w"
  shows "PA_relay_ack r now w = Some w' \<Longrightarrow> named P w'"
    "PA_relay_timeout r now w = Some w' \<Longrightarrow> named P w'" "PA_relay_cancelled r w = Some w' \<Longrightarrow> named P w'"
proof -
  note parts = named_parts [OF assms]
  have same: "pa_periods p' = pa_periods (pingack w) \<Longrightarrow> named_pa P p'" for p'
    using parts(3) by (rule named_pa_periods [rotated])
  show "PA_relay_ack r now w = Some w' \<Longrightarrow> named P w'"
    "PA_relay_timeout r now w = Some w' \<Longrightarrow> named P w'" "PA_relay_cancelled r w = Some w' \<Longrightarrow> named P w'"
    using assms parts
    by (auto simp: PA_relay_ack_def PA_relay_timeout_def PA_relay_cancelled_def Let_def
        intro!: named_intros same split: option.splits if_splits)
qed

interpretation cleaned: framing pa_periods cleanup_step
  by unfold_locales simp

lemma named_PA_checks:
  assumes "named P w"
  shows "named P (PA_cleanupOrphanedEntries now w)" "named P (PA_checkFailures now w)"
proof -
  note parts = named_parts [OF assms]
  have same: "pa_periods p' = pa_periods (pingack w) \<Longrightarrow> named_pa P p'" for p'
    using parts(3) by (rule named_pa_periods [rotated])
  show "named P (PA_cleanupOrphanedEntries now w)"
    using assms by (auto simp: PA_cleanupOrphanedEntries_def Let_def cleaned.loop_frames intro!: named_intros same)
  have "\<forall>m \<in> set (map snd (filter f (ml_Members (membership w)))). P (mb_ID m)" for f
    using parts(1) by (auto simp: named_ml_def)
  with assms show "named P (PA_checkFailures now w)"
    by (auto simp: PA_checkFailures_def Let_def named_parts intro!: named_intros)
qed

lemma named_report_suspect: "named P w \<Longrightarrow> P (mb_ID m) \<Longrightarrow> named P (report_suspect now m w)"
  by (auto simp: report_suspect_def Let_def named_parts intro!: named_intros)

lemma named_report_suspects:
  "named P w \<Longrightarrow> \<forall>m \<in> set ms. P (mb_ID m) \<Longrightarrow> named P (fold (report_suspect now) ms w)"
  by (induction ms arbitrary: w) (simp_all add: named_report_suspect)

lemma named_GM_check:
  assumes "named P w"
  shows "named P (GM_checkFailures now w)"
proof -
  note parts = named_parts [OF assms]
  let ?en = "gm_enableSuspicion (gossip w)" and ?to = "gm_timeouts (gossip w)"
    and ?lk = "NodeID_String (ml_LocalNode (membership w))"
  have listed: "(k, m) \<in> set (ml_Members (membership w)) \<Longrightarrow> P (mb_ID m)" for k m
    using parts(1) by (auto simp: named_ml_def)
  let ?scan = "failure_scan ?en ?to now ?lk (ml_Members (membership w))"
  let ?ml = "fold (\<lambda>m. discard (NodeID_String (mb_ID m))) (snd (snd ?scan)) ((membership w)\<lparr>ml_Members := fst ?scan\<rparr>)"
  have found: "\<forall>m \<in> set (fst (snd ?scan)). P (mb_ID m)" "\<forall>m \<in> set (snd (snd ?scan)). P (mb_ID m)"
    by (auto simp: failure_scan_eq suspect_now_def dest: listed)
  have "named_ml P ((membership w)\<lparr>ml_Members := fst ?scan\<rparr>)"
    using parts(1,4) listed by (auto simp: failure_scan_eq suspect_now_def named_ml_def)
  then have "named_ml P ?ml" by (rule named_discards)
  with assms found(1) have "named P (fold (report_suspect now) (fst (snd ?scan)) (w\<lparr>membership := ?ml\<rparr>))"
    by (intro named_report_suspects named_with(1))
  with found(2) show ?thesis
    by (auto simp: GM_checkFailures_def Let_def case_prod_beta named_parts intro!: named_intros)
qed

lemma named_gossip_round:
  assumes "named P w" "GM_performGossipRound rnd1 rnd2 now w = Some w'"
  shows "named P w'"
proof (cases "w' = w")
  case False
  note parts = named_parts [OF assms(1)]
  let ?ml = "membership w" and ?lk = "NodeID_String (ml_LocalNode (membership w))"
  let ?ml1 = "case lookup ?ml ?lk of None \<Rightarrow> ?ml | Some s \<Rightarrow> AddRecentUpdateSafe now s ?ml"
  obtain ts es us ml3 where run: "GetRandomMembers rnd1 (sint (gm_fanout (gossip w))) [?lk] ?ml = Some ts" "ts \<noteq> []"
      "GetRandomMembers rnd2 2 [?lk] (fold (AddRecentUpdateSafe now) ts ?ml1) = Some es"
      "GetRecentUpdates now 10 (fold (AddRecentUpdateSafe now) es (fold (AddRecentUpdateSafe now) ts ?ml1)) = Some (us, ml3)"
    using assms(2) False by (auto simp: GM_performGossipRound_def Let_def split: option.splits if_splits)
  have "named_ml P ?ml1" using parts(1) by (intro named_change named_intros)
  then have two: "named_ml P (fold (AddRecentUpdateSafe now) ts ?ml1)"
    using named_recents [of P ?ml1 ts "\<lambda>m. m" now] named_GetRandomMembers [OF run(1) parts(1)] by simp
  then have "named_ml P (fold (AddRecentUpdateSafe now) es (fold (AddRecentUpdateSafe now) ts ?ml1))"
    using named_recents [OF two, of es "\<lambda>m. m" now] named_GetRandomMembers [OF run(3) two] by simp
  then have "named_ml P ml3" "\<forall>u \<in> set us. P (up_NodeID u)"
    using named_GetRecentUpdates [OF run(4), of P] by simp_all
  then show ?thesis
    using assms parts run
    by (auto simp: GM_performGossipRound_def Let_def intro!: named_intros named_LocalNode [of P])
qed (use assms(1) in simp)

lemma named_loops:
  assumes "named P w"
  shows "PA_pingLoop wakeup rnd now w = Some w' \<Longrightarrow> named P w'"
    "PA_failureDetectionLoop wakeup now w = Some w' \<Longrightarrow> named P w'"
    "PA_cleanupLoop wakeup now w = Some w' \<Longrightarrow> named P w'"
    "GM_gossipLoop wakeup rnd1 rnd2 now w = Some w' \<Longrightarrow> named P w'"
    "GM_failureDetectionLoop wakeup now w = Some w' \<Longrightarrow> named P w'"
proof -
  have same: "pa_periods p' = pa_periods (pingack w) \<Longrightarrow> named_pa P p'" for p'
    using named_parts(3) [OF assms] by (rule named_pa_periods [rotated])
  show "PA_pingLoop wakeup rnd now w = Some w' \<Longrightarrow> named P w'"
    "PA_failureDetectionLoop wakeup now w = Some w' \<Longrightarrow> named P w'"
    "PA_cleanupLoop wakeup now w = Some w' \<Longrightarrow> named P w'"
    "GM_gossipLoop wakeup rnd1 rnd2 now w = Some w' \<Longrightarrow> named P w'"
    "GM_failureDetectionLoop wakeup now w = Some w' \<Longrightarrow> named P w'"
    using assms named_period_begin [OF assms] named_PA_checks [OF assms] named_GM_check [OF assms]
      named_gossip_round [OF assms]
    by (auto simp: PA_pingLoop_def PA_failureDetectionLoop_def PA_cleanupLoop_def GM_gossipLoop_def
        GM_failureDetectionLoop_def intro!: named_intros same split: Wakeup.splits if_splits)
qed

section \<open>Life cycle and requests\<close>

lemma named_life_cycle:
  assumes "named P w"
  shows "named P (PA_Start w)" "named P (snd (PA_Stop w))" "named P (GM_Start w)" "named P (snd (GM_Stop w))"
  using assms by (auto simp: named_def named_pa_def PA_Start_def PA_Stop_def GM_Start_def GM_Stop_def Let_def
      split: option.split bool.split)

lemma named_switch:
  assumes "named P w"
  shows "named P (snd (CS_handleSwitch mech susp w))"
proof -
  have mode: "named P (snd (C_SwitchMode m w))" for m
    using assms named_life_cycle [of P "w\<lparr>mode := m\<rparr>"]
    by (auto simp: C_SwitchMode_def Let_def case_prod_beta named_life_cycle
        split: DetectionMode.split Outcome.split)
  have flag: "named P (C_SetSuspicion b v) = named P v" for b v
    by (simp add: named_def named_pa_def C_SetSuspicion_def PA_SetSuspicion_def GM_SetSuspicion_def
        split: DetectionMode.split)
  have "named P (snd (case C_SwitchMode m w of (Panicked, w') \<Rightarrow> (None :: Response option, w')
      | (Returned, w') \<Rightarrow> (Some (200, t), C_SetSuspicion b w')))" for m b and t :: string
    using mode [of m] by (auto simp: case_prod_beta flag split: Outcome.split)
  with assms show ?thesis by (simp add: CS_handleSwitch_def Let_def)
qed

lemma named_Stop:
  assumes "named P w"
  shows "named P (snd (C_Stop w))"
proof -
  have "named P (snd (case mode w of GossipMode \<Rightarrow> GM_Stop w | PingAckMode \<Rightarrow> PA_Stop w))"
    using assms by (cases "mode w") (simp_all add: named_life_cycle)
  then show ?thesis
    by (auto simp: C_Stop_def case_prod_beta Let_def named_def Network_Stop_def
        split: Outcome.split option.split if_splits)
qed

text \<open>A process that joins again takes a new timestamp, so the set has to be closed under those.\<close>

definition restamped :: "(NodeID \<Rightarrow> bool) \<Rightarrow> bool" where
  "restamped P \<longleftrightarrow> (\<forall>n t. P n \<longrightarrow> P (n\<lparr>nid_Timestamp := t\<rparr>))"

lemma named_Refresh:
  assumes "restamped P" "named_ml P ml"
  shows "named_ml P (RefreshLocalNode now ml)"
proof -
  let ?n = "\<lparr>nid_IP = nid_IP (ml_LocalNode ml), nid_Port = nid_Port (ml_LocalNode ml), nid_Timestamp = time_Unix now\<rparr>"
  have "?n = (ml_LocalNode ml)\<lparr>nid_Timestamp := time_Unix now\<rparr>" by simp
  then have n: "P ?n" using assms by (metis restamped_def named_LocalNode)
  have "named_ml P ((discard k ml)\<lparr>ml_LocalNode := ?n\<rparr>)" for k
    using named_discard [OF assms(2), of k] n by (simp add: named_ml_def)
  with n show ?thesis by (auto simp: RefreshLocalNode_def Let_def intro!: named_store)
qed

lemma named_requests:
  assumes "restamped P" "named P w"
  shows "named P (snd (CS_handleJoin intro now w))" "named P (snd (CS_handleLeave now w))"
    "named P (C_SetDropRate rate w)"
proof -
  note parts = named_parts [OF assms(2)]
  have same: "pa_periods p' = pa_periods (pingack w) \<Longrightarrow> named_pa P p'" for p'
    using parts(3) by (rule named_pa_periods [rotated])
  have ml: "named_ml P (RefreshLocalNode now (membership w))" using assms(1) parts(1) by (rule named_Refresh)
  then have "named P (snd (PA_JoinGroup intro now w))" "named P (snd (GM_JoinGroup intro now w))"
    "named P (PA_LeaveGroup now w)" "named P (GM_LeaveGroup now w)"
    using assms(2) parts
    by (auto simp: PA_JoinGroup_def GM_JoinGroup_def PA_LeaveGroup_def GM_LeaveGroup_def
        Let_def case_prod_beta intro!: named_intros same named_LocalNode [of P])
  with assms(2) show "named P (snd (CS_handleJoin intro now w))" "named P (snd (CS_handleLeave now w))"
    by (auto simp: CS_handleJoin_def CS_handleLeave_def C_JoinGroup_def C_LeaveGroup_def
        case_prod_beta split: DetectionMode.split option.split)
  show "named P (C_SetDropRate rate w)"
    using assms(2) parts by (auto simp: C_SetDropRate_def SetDropRate_def intro!: named_intros)
qed

lemma named_status_log:
  assumes "named P w" "CLI_tick now w = Some (c, us, w')"
  shows "named P w'"
proof -
  obtain us' ml where run: "GetRecentUpdates now 10 (membership w) = Some (us', ml)"
    and w': "w' = w\<lparr>membership := ml\<rparr>"
    using assms(2) by (auto simp: CLI_tick_def Let_def split: option.splits)
  then show ?thesis
    using named_GetRecentUpdates [OF run named_parts(1) [OF assms(1)]] assms(1) by (simp add: named_with)
qed

lemma named_started:
  assumes "C_Start None (NewController config conn now) = (None, w)" "P (cfg_NodeID config)"
  shows "named P w"
proof -
  have "named P (NewController config conn now)"
    using assms(2) by (simp add: named_def NewController_def NewMembershipList_def NewNetworkLayer_def
        NewPingAckManager_def named_ml_def named_net_def named_pa_def)
  then show ?thesis
    using assms(1) by (auto simp: C_Start_def Let_def named_life_cycle split: DetectionMode.splits)
qed

section \<open>Runs\<close>

lemma named_local_step:
  "local_step w now w' \<Longrightarrow> restamped P \<Longrightarrow> named P w \<Longrightarrow> named P w'"
proof (induction rule: local_step.induct)
  case (dispatch now w w')
  then show ?case by (blast intro: named_process_message)
next
  case (callback w before t after now)
  then show ?case by (simp add: named_run_task)
next
  case (switch mech susp w response w')
  then show ?case by (metis named_switch snd_conv)
next
  case (status_log now w counts us w')
  then show ?case by (blast intro: named_status_log)
next
  case (stop w w')
  then show ?case by (metis named_Stop snd_conv)
next
  case (relay_ack r w now w')
  then show ?case by (blast intro: named_relay_steps)
next
  case (relay_timeout r w now w')
  then show ?case by (blast intro: named_relay_steps)
next
  case (relay_cancelled r w w')
  then show ?case by (blast intro: named_relay_steps)
next
  case (ping_loop w wakeup rnd now w')
  then show ?case by (blast intro: named_loops)
next
  case (period_ack d w w')
  then show ?case by (blast intro: named_period_steps)
next
  case (period_direct d w rnd now w')
  then show ?case by (blast intro: named_period_steps)
next
  case (period_indirect d w now w')
  then show ?case by (blast intro: named_period_steps)
next
  case (pingack_failures w wakeup now w')
  then show ?case by (blast intro: named_loops)
next
  case (pingack_cleanup w wakeup now w')
  then show ?case by (blast intro: named_loops)
next
  case (gossip_loop w wakeup rnd1 rnd2 now w')
  then show ?case by (blast intro: named_loops)
next
  case (gossip_failures w wakeup now w')
  then show ?case by (blast intro: named_loops)
qed (simp_all add: named_check named_requests)

lemma named_cluster_step:
  assumes "cluster_step c now c'" "restamped P" "\<And>k. named P (c k)"
  shows "named P (c' k)"
  using assms
proof (induction rule: cluster_step.induct)
  case (deliver addr x c j now i r src)
  have "named_msg P x" using named_parts(2) [OF deliver(3) [of j]] deliver(1) by (auto simp: named_net_def)
  then have "named_net P (receive_datagram (Datagram r (Some x) src) (network (c i)))"
    using named_parts(2) [OF deliver(3) [of i]] by (rule named_receive [rotated])
  then show ?case using deliver(3) named_with(2) by simp
next
  case (act c i now w')
  then show ?case using named_local_step by simp
qed

lemma named_cluster_run:
  assumes "cluster_run ok cfg conn c" "restamped P" "\<And>k. P (cfg_NodeID (cfg k))"
  shows "named P (c k)"
  using assms
proof (induction arbitrary: k rule: cluster_run.induct)
  case (start t c)
  then show ?case by (blast intro: named_started)
next
  case (step c now c')
  then show ?case by (blast intro: named_cluster_step)
qed

section \<open>No phantom members\<close>

definition address_of_process :: "(nat \<Rightarrow> Config) \<Rightarrow> NodeID \<Rightarrow> bool" where
  "address_of_process cfg n \<longleftrightarrow>
     (\<exists>j. nid_IP n = nid_IP (cfg_NodeID (cfg j)) \<and> nid_Port n = nid_Port (cfg_NodeID (cfg j)))"

lemma addresses_restamped: "restamped (address_of_process cfg)"
  by (simp add: restamped_def address_of_process_def)

text \<open>
  C13: No process ever makes a member up. In every state of every run of a cluster, with or
  without suspicion, whatever is lost, duplicated or reordered and however often the processes
  leave, join again or switch the detector: each member that a process lists, each that it
  probes, and each that a message it has sent comes from or tells of has the host and the port of
  one of the processes.
\<close>

theorem no_phantom_members:
  assumes "cluster_run ok cfg conn c"
  shows "(\<forall>(key, m) \<in> set (ml_Members (membership (c k))). address_of_process cfg (mb_ID m))
    \<and> (\<forall>d \<in> set (pa_periods (pingack (c k))). address_of_process cfg (pd_target d))
    \<and> (\<forall>(addr, x) \<in> set (nl_sent (network (c k))). address_of_process cfg (msg_Sender x)
        \<and> (\<forall>u \<in> set (msg_Members x). address_of_process cfg (up_NodeID u)))"
proof -
  have "address_of_process cfg (cfg_NodeID (cfg j))" for j by (auto simp: address_of_process_def)
  then have "named (address_of_process cfg) (c k)"
    using named_cluster_run [OF assms addresses_restamped] by blast
  then show ?thesis by (auto simp: named_def named_ml_def named_pa_def named_net_def named_msg_def)
qed

text \<open>After the joins of the sample schedule, process 2 lists three members.\<close>

lemma joined_run:
  "\<exists>c. cluster_run (\<lambda>_. True) three_nodes no_errors c \<and> length (ml_Members (membership (c 2))) = 3"
proof -
  have "case run_schedule (\<lambda>_. True) joining_schedule (started three_nodes no_errors (\<lambda>_. 0)) of
      None \<Rightarrow> False | Some c \<Rightarrow> length (ml_Members (membership (c 2))) = 3"
    by code_simp
  then show ?thesis
    using schedule_iff_run [where ok = "\<lambda>_. True"] by (auto split: option.splits)
qed

theorem no_phantom_members_witness:
  "\<exists>c :: cluster. length (ml_Members (membership (c 2))) = 3
    \<and> (\<forall>(key, m) \<in> set (ml_Members (membership (c 2))). nid_IP (mb_ID m) = ''10.0.0.1'')"
proof -
  obtain c where c: "cluster_run (\<lambda>_. True) three_nodes no_errors c" "length (ml_Members (membership (c 2))) = 3"
    using joined_run by blast
  have "address_of_process three_nodes n \<Longrightarrow> nid_IP n = ''10.0.0.1''" for n
    by (auto simp: address_of_process_def three_nodes_def node_at_def)
  then have "\<forall>(key, m) \<in> set (ml_Members (membership (c 2))). nid_IP (mb_ID m) = ''10.0.0.1''"
    using no_phantom_members [OF c(1), of 2] by blast
  with c(2) show ?thesis by blast
qed

end
