(* ===== verification/GoTime.thy ===== *)
theory GoTime
  imports Prelude
begin

text \<open>
  What the program uses of Go's \<^verbatim>\<open>time\<close> package on the wire: \<^verbatim>\<open>Time.MarshalJSON\<close> writes a
  time as RFC 3339 text with nanoseconds, in the local zone of the writer, and
  \<^verbatim>\<open>Time.UnmarshalJSON\<close> reads it. The calendar is the proleptic Gregorian one; a time is the
  number of nanoseconds since its year 1, as in the rest of the development. The zone is its
  offset from UTC in minutes.
\<close>

section \<open>The calendar\<close>

definition leap :: "int \<Rightarrow> bool" where
  "leap y \<longleftrightarrow> y mod 4 = 0 \<and> (y mod 100 \<noteq> 0 \<or> y mod 400 = 0)"

text \<open>The days from 1 January of year 1 to 1 January of year \<open>y\<close>.\<close>

definition year_start :: "int \<Rightarrow> int" where
  "year_start y = 365 * (y - 1) + (y - 1) div 4 - (y - 1) div 100 + (y - 1) div 400"

definition year_length :: "int \<Rightarrow> int" where
  "year_length y = (if leap y then 366 else 365)"

lemma div_step: "(y::int) div k - (y - 1) div k = (if y mod k = 0 then 1 else 0)" if "0 < k"
proof (cases "y mod k = 0")
  case True
  then obtain q where "y = k * q" by auto
  moreover have "(k * q - 1) div k = q - 1"
    using that int_div_pos_eq [of "k * q - 1" k "q - 1" "k - 1"] by (simp add: algebra_simps)
  ultimately show ?thesis using that by simp
next
  case False
  moreover have "0 \<le> y mod k" "y mod k < k" using that by simp_all
  ultimately have "y - 1 = k * (y div k) + (y mod k - 1)" "0 \<le> y mod k - 1" "y mod k - 1 < k"
    using mult_div_mod_eq [of k y] by linarith+
  then have "(y - 1) div k = y div k" by (rule int_div_pos_eq)
  with False show ?thesis by simp
qed

lemma year_start_step: "year_start (y + 1) = year_start y + year_length y"
proof -
  have nested: "y mod 400 = 0 \<Longrightarrow> y mod 100 = 0" "y mod 100 = 0 \<Longrightarrow> y mod 4 = 0"
    by presburger+
  have step: "year_start (y + 1) - year_start y
      = 365 + (y div 4 - (y - 1) div 4) - (y div 100 - (y - 1) div 100) + (y div 400 - (y - 1) div 400)"
    by (simp add: year_start_def)
  have "year_start (y + 1) - year_start y = year_length y"
    unfolding step div_step [of 4 y, simplified] div_step [of 100 y, simplified] div_step [of 400 y, simplified]
      year_length_def leap_def
    using nested by (cases "y mod 4 = 0"; cases "y mod 100 = 0"; cases "y mod 400 = 0") simp_all
  then show ?thesis by simp
qed

lemma year_length_pos: "365 \<le> year_length y" "year_length y \<le> 366"
  by (simp_all add: year_length_def)

text \<open>The year of a day, searched upwards from a year that is not too late.\<close>

function year_from :: "int \<Rightarrow> int \<Rightarrow> int" where
  "year_from y d = (if year_start (y + 1) \<le> d then year_from (y + 1) d else y)"
  by auto
termination
proof (relation "measure (\<lambda>(y, d). nat (d - year_start y))")
  fix y d :: int
  assume "year_start (y + 1) \<le> d"
  then show "((y + 1, d), (y, d)) \<in> measure (\<lambda>(y, d). nat (d - year_start y))"
    using year_start_step [of y] year_length_pos [of y] by simp
qed simp

declare year_from.simps [simp del]

definition year_of :: "int \<Rightarrow> int" where
  "year_of d = year_from (d div 366 + 1) d"

lemma year_from_spec:
  "year_start y \<le> d \<Longrightarrow> year_start (year_from y d) \<le> d \<and> d < year_start (year_from y d + 1)"
proof (induction y d rule: year_from.induct)
  case (1 y d)
  then show ?case by (cases "year_start (y + 1) \<le> d") (simp_all add: year_from.simps [of y d])
qed

lemma year_start_early: "- 1 \<le> n \<Longrightarrow> year_start (n + 1) \<le> 366 * n"
proof (cases "n = - 1")
  case False
  assume "- 1 \<le> n"
  with False have "0 \<le> n" by simp
  then have "n div 4 \<le> n" "n div 400 \<le> n div 100"
    by (simp_all add: zdiv_mono2 div_le_dividend)
  then show ?thesis by (simp add: year_start_def)
qed (simp add: year_start_def)

lemma year_of_spec:
  assumes "- 366 \<le> d"
  shows "year_start (year_of d) \<le> d \<and> d < year_start (year_of d + 1)"
proof -
  have "- 1 \<le> d div 366" using zdiv_mono1 [OF assms, of 366] by simp
  then have "year_start (d div 366 + 1) \<le> d"
    using year_start_early [of "d div 366"] mult_div_mod_eq [of 366 d] pos_mod_sign [of 366 d] by linarith
  then show ?thesis unfolding year_of_def by (rule year_from_spec)
qed

definition month_lengths :: "int \<Rightarrow> int list" where
  "month_lengths y = [31, if leap y then 29 else 28, 31, 30, 31, 30, 31, 31, 30, 31, 30, 31]"

text \<open>The month (from 0) of a day of the year, and the day (from 0) of the month.\<close>

fun month_of :: "int list \<Rightarrow> int \<Rightarrow> nat \<times> int" where
  "month_of [] d = (0, d)"
| "month_of (l # ls) d =
     (if d < l then (0, d) else let (m, r) = month_of ls (d - l) in (Suc m, r))"

lemma month_of_spec:
  assumes "0 \<le> d" "d < sum_list ls" "month_of ls d = (m, r)"
  shows "m < length ls \<and> 0 \<le> r \<and> r < ls ! m \<and> sum_list (take m ls) + r = d"
  using assms
proof (induction ls arbitrary: d m r)
  case (Cons l ls)
  show ?case
  proof (cases "d < l")
    case False
    obtain m' r' where "month_of ls (d - l) = (m', r')" by fastforce
    with False Cons.IH [of "d - l" m' r'] Cons.prems show ?thesis by auto
  qed (use Cons.prems in auto)
qed simp

lemma month_lengths_sum: "sum_list (month_lengths y) = year_length y" "length (month_lengths y) = 12"
  by (simp_all add: month_lengths_def year_length_def)

lemma month_lengths_bound: "l \<in> set (month_lengths y) \<Longrightarrow> l \<le> 31"
  by (auto simp: month_lengths_def split: if_splits)

section \<open>Numerals of fixed width\<close>

fun fixed :: "nat \<Rightarrow> nat \<Rightarrow> string" where
  "fixed 0 n = []"
| "fixed (Suc k) n = fixed k (n div 10) @ [digit (n mod 10)]"

definition is_digit :: "char \<Rightarrow> bool" where
  "is_digit c \<longleftrightarrow> 48 \<le> (of_char c :: nat) \<and> (of_char c :: nat) < 58"

lemma is_digit_digit [simp]: "n < 10 \<Longrightarrow> is_digit (digit n)"
  by (simp add: is_digit_def of_char_digit)

lemma length_fixed [simp]: "length (fixed k n) = k"
  by (induction k n rule: fixed.induct) simp_all

lemma fixed_digits: "list_all is_digit (fixed k n)"
  by (induction k n rule: fixed.induct) simp_all

lemma undec_append: "undec (s @ [c]) = undec s * 10 + (of_char c - 48)"
  by (simp add: undec_def)

lemma undec_fixed: "undec (fixed k n) = n mod 10 ^ k"
proof (induction k n rule: fixed.induct)
  case (2 k n)
  have "n mod (10 * 10 ^ k) = n div 10 mod 10 ^ k * 10 + n mod 10"
    by (simp add: mod_mult2_eq)
  with 2 show ?case by (simp add: undec_append of_char_digit)
qed (simp add: undec_def)

text \<open>\<open>take_digits k s\<close> reads \<open>k\<close> digits, \<open>take_char c s\<close> the character \<open>c\<close>.\<close>

definition take_digits :: "nat \<Rightarrow> string \<Rightarrow> (nat \<times> string) option" where
  "take_digits k s =
     (if k \<le> length s \<and> list_all is_digit (take k s) then Some (undec (take k s), drop k s) else None)"

definition take_char :: "char \<Rightarrow> string \<Rightarrow> string option" where
  "take_char c s = (case s of [] \<Rightarrow> None | d # s' \<Rightarrow> if d = c then Some s' else None)"

lemma take_digits_fixed [simp]: "n < 10 ^ k \<Longrightarrow> take_digits k (fixed k n @ s) = Some (n, s)"
  by (simp add: take_digits_def fixed_digits undec_fixed)

lemma take_char_Cons [simp]: "take_char c (d # s) = (if d = c then Some s else None)"
  by (simp add: take_char_def)

text \<open>
  The fraction of a second: written with nine digits less the trailing zeros, and not at all
  when it is zero; read from any number of digits, those beyond the ninth being dropped.
\<close>

definition strip_zeros :: "string \<Rightarrow> string" where
  "strip_zeros s = rev (dropWhile (\<lambda>c. c = CHR ''0'') (rev s))"

definition fraction :: "nat \<Rightarrow> string" where
  "fraction ns = (if ns = 0 then [] else CHR ''.'' # strip_zeros (fixed 9 ns))"

definition take_fraction :: "string \<Rightarrow> nat \<times> string" where
  "take_fraction s =
     (case s of
        c # d # _ \<Rightarrow>
          if c = CHR ''.'' \<and> is_digit d then
            let ds = takeWhile is_digit (tl s); ks = take 9 ds
            in (undec ks * 10 ^ (9 - length ks), dropWhile is_digit (tl s))
          else (0, s)
      | _ \<Rightarrow> (0, s))"

lemma undec_zeros: "undec (s @ replicate k (CHR ''0'')) = undec s * 10 ^ k"
proof (induction k)
  case (Suc k)
  have "s @ replicate (Suc k) (CHR ''0'') = (s @ replicate k (CHR ''0'')) @ [CHR ''0'']"
    by (simp add: replicate_append_same)
  then show ?case using Suc by (simp only: undec_append) simp
qed simp

lemma strip_zeros_append:
  "\<exists>k. s = strip_zeros s @ replicate k (CHR ''0'')"
proof -
  have "takeWhile (\<lambda>c. c = CHR ''0'') t = replicate (length (takeWhile (\<lambda>c. c = CHR ''0'') t)) (CHR ''0'')" for t
    by (induction t) simp_all
  then have "rev s = replicate (length (takeWhile (\<lambda>c. c = CHR ''0'') (rev s))) (CHR ''0'')
      @ dropWhile (\<lambda>c. c = CHR ''0'') (rev s)"
    by (metis takeWhile_dropWhile_id)
  then show ?thesis unfolding strip_zeros_def by (metis rev_append rev_replicate rev_swap)
qed

lemma take_fraction_fraction:
  assumes "ns < 10 ^ 9" "case s of [] \<Rightarrow> True | c # _ \<Rightarrow> \<not> is_digit c \<and> c \<noteq> CHR ''.''"
  shows "take_fraction (fraction ns @ s) = (ns, s)"
proof (cases "ns = 0")
  case True
  with assms(2) show ?thesis by (cases s) (auto simp: fraction_def take_fraction_def split: list.split)
next
  case False
  let ?t = "strip_zeros (fixed 9 ns)"
  obtain k where k: "fixed 9 ns = ?t @ replicate k (CHR ''0'')" using strip_zeros_append by blast
  then have len: "length ?t + k = 9" by (metis length_append length_fixed length_replicate)
  have val: "undec ?t * 10 ^ k = ns"
    using undec_zeros [of ?t k] undec_fixed [of 9 ns] assms(1) k by simp
  with False have "?t \<noteq> []" by (auto simp: undec_def)
  then obtain d ds where t: "?t = d # ds" by (cases ?t) auto
  have digits: "list_all is_digit ?t" using fixed_digits [of 9 ns] k by (metis list_all_append)
  have all: "\<forall>c \<in> set ?t. is_digit c" using digits by (simp add: list_all_iff)
  have first: "dropWhile is_digit s = s" "takeWhile is_digit s = []"
    using assms(2) by (cases s; simp)+
  have tw: "takeWhile is_digit (?t @ s) = ?t" "dropWhile is_digit (?t @ s) = s"
    using all first by (simp_all add: takeWhile_append dropWhile_append)
  have "9 - length ?t = k" "take 9 ?t = ?t" using len by simp_all
  with tw t val digits False show ?thesis
    by (simp add: fraction_def take_fraction_def Let_def del: takeWhile.simps dropWhile.simps)
qed

section \<open>RFC 3339\<close>

definition ns_per_day :: int where
  "ns_per_day = 86400000000000"

definition zone_ns :: "int \<Rightarrow> int" where
  "zone_ns zone = zone * 60000000000"

text \<open>A zone is less than a day, as the operating system's zones are.\<close>

definition zone_ok :: "int \<Rightarrow> bool" where
  "zone_ok zone \<longleftrightarrow> - 1440 < zone \<and> zone < 1440"

definition zone_text :: "int \<Rightarrow> string" where
  "zone_text zone =
     (if zone = 0 then ''Z''
      else (if zone < 0 then CHR ''-'' else CHR ''+'')
        # fixed 2 (nat (\<bar>zone\<bar> div 60)) @ CHR '':'' # fixed 2 (nat (\<bar>zone\<bar> mod 60)))"

definition date_text :: "int \<Rightarrow> string" where
  "date_text day =
     (let y = year_of day; (m, d) = month_of (month_lengths y) (day - year_start y)
      in fixed 4 (nat y) @ CHR ''-'' # fixed 2 (Suc m) @ CHR ''-'' # fixed 2 (nat (d + 1)))"

definition clock_text :: "nat \<Rightarrow> string" where
  "clock_text secs = fixed 2 (secs div 3600) @ CHR '':'' # fixed 2 (secs div 60 mod 60)
     @ CHR '':'' # fixed 2 (secs mod 60)"

definition year_in_range :: "int \<Rightarrow> time \<Rightarrow> bool" where
  "year_in_range zone t \<longleftrightarrow> year_start 0 \<le> (t + zone_ns zone) div ns_per_day
     \<and> (t + zone_ns zone) div ns_per_day < year_start 10000"

text \<open>\<^verbatim>\<open>MarshalJSON\<close> fails for a year that does not have four digits.\<close>

definition MarshalTime :: "int \<Rightarrow> time \<Rightarrow> string option" where
  "MarshalTime zone t =
     (if \<not> year_in_range zone t then None
      else
        let local = t + zone_ns zone; ns = local mod ns_per_day
        in Some (date_text (local div ns_per_day) @ CHR ''T'' # clock_text (nat (ns div 1000000000))
             @ fraction (nat (ns mod 1000000000)) @ zone_text zone))"

definition take_zone :: "string \<Rightarrow> int option" where
  "take_zone s =
     (case s of
        [] \<Rightarrow> None
      | c # s1 \<Rightarrow>
          if c = CHR ''Z'' then (if s1 = [] then Some 0 else None)
          else if c = CHR ''+'' \<or> c = CHR ''-'' then
            Option.bind (take_digits 2 s1) (\<lambda>(hh, s2).
            Option.bind (take_char CHR '':'' s2) (\<lambda>s3.
            Option.bind (take_digits 2 s3) (\<lambda>(mm, s4).
              if hh \<le> 23 \<and> mm \<le> 59 \<and> s4 = []
              then Some ((if c = CHR ''-'' then - 1 else 1) * (60 * int hh + int mm)) else None)))
          else None)"

definition take_date :: "string \<Rightarrow> (int \<times> string) option" where
  "take_date s =
     Option.bind (take_digits 4 s) (\<lambda>(y, s1).
     Option.bind (take_char CHR ''-'' s1) (\<lambda>s2.
     Option.bind (take_digits 2 s2) (\<lambda>(m, s3).
     Option.bind (take_char CHR ''-'' s3) (\<lambda>s4.
     Option.bind (take_digits 2 s4) (\<lambda>(d, s5).
       let ls = month_lengths (int y) in
       if 1 \<le> m \<and> m \<le> 12 \<and> 1 \<le> d \<and> int d \<le> ls ! (m - 1)
       then Some (year_start (int y) + sum_list (take (m - 1) ls) + int d - 1, s5) else None)))))"

definition take_clock :: "string \<Rightarrow> (nat \<times> string) option" where
  "take_clock s =
     Option.bind (take_digits 2 s) (\<lambda>(h, s1).
     Option.bind (take_char CHR '':'' s1) (\<lambda>s2.
     Option.bind (take_digits 2 s2) (\<lambda>(mi, s3).
     Option.bind (take_char CHR '':'' s3) (\<lambda>s4.
     Option.bind (take_digits 2 s4) (\<lambda>(sec, s5).
       if h \<le> 23 \<and> mi \<le> 59 \<and> sec \<le> 59 then Some (3600 * h + 60 * mi + sec, s5) else None)))))"

definition UnmarshalTime :: "string \<Rightarrow> time option" where
  "UnmarshalTime s =
     Option.bind (take_date s) (\<lambda>(day, s1).
     Option.bind (take_char CHR ''T'' s1) (\<lambda>s2.
     Option.bind (take_clock s2) (\<lambda>(secs, s3).
       let (ns, s4) = take_fraction s3 in
       map_option (\<lambda>zone. day * ns_per_day + int secs * 1000000000 + int ns - zone_ns zone)
         (take_zone s4))))"

subsection \<open>What is written is read back\<close>

lemma take_two: "n < 100 \<Longrightarrow> take_digits 2 (fixed 2 n) = Some (n, [])"
  using take_digits_fixed [of n 2 "[]"] by simp

lemma take_zone_signed:
  "h \<le> 23 \<Longrightarrow> m \<le> 59 \<Longrightarrow> take_zone (CHR ''+'' # fixed 2 h @ CHR '':'' # fixed 2 m) = Some (60 * int h + int m)"
  "h \<le> 23 \<Longrightarrow> m \<le> 59 \<Longrightarrow> take_zone (CHR ''-'' # fixed 2 h @ CHR '':'' # fixed 2 m) = Some (- (60 * int h + int m))"
  by (simp_all add: take_zone_def take_two)

lemma take_zone_text:
  assumes "zone_ok zone"
  shows "take_zone (zone_text zone) = Some zone"
proof -
  obtain h m where hm: "h = nat (\<bar>zone\<bar> div 60)" "m = nat (\<bar>zone\<bar> mod 60)" by blast
  have "\<bar>zone\<bar> div 60 < 24" using assms by (auto simp: zone_ok_def)
  then have le: "h \<le> 23" "m \<le> 59" and sum: "60 * int h + int m = \<bar>zone\<bar>" unfolding hm by auto
  have "zone < 0 \<Longrightarrow> zone_text zone = CHR ''-'' # fixed 2 h @ CHR '':'' # fixed 2 m"
    "0 < zone \<Longrightarrow> zone_text zone = CHR ''+'' # fixed 2 h @ CHR '':'' # fixed 2 m"
    unfolding zone_text_def hm by simp_all
  moreover have "take_zone (zone_text 0) = Some 0" by (simp add: take_zone_def zone_text_def)
  ultimately show ?thesis
    using take_zone_signed [OF le] sum by (cases zone "0 :: int" rule: linorder_cases) simp_all
qed

lemma year_of_range:
  assumes "year_start 0 \<le> day" "day < year_start 10000"
  shows "0 \<le> year_of day \<and> year_of day < 10000"
proof -
  have spec: "year_start (year_of day) \<le> day \<and> day < year_start (year_of day + 1)"
    using assms(1) by (intro year_of_spec) (simp add: year_start_def)
  have mono: "year_start y \<le> year_start z" if "y \<le> z" for y z
    using that
  proof (induction rule: int_ge_induct)
    case (step i)
    then show ?case using year_start_step [of i] year_length_pos [of i] by linarith
  qed simp
  show ?thesis
    using spec assms mono [of "year_of day + 1" 0] mono [of 10000 "year_of day"] by linarith
qed

lemma take_date_text:
  assumes "year_start 0 \<le> day" "day < year_start 10000"
  shows "take_date (date_text day @ s) = Some (day, s)"
proof -
  let ?y = "year_of day"
  have y: "0 \<le> ?y" "?y < 10000" using year_of_range [OF assms] by simp_all
  have "year_start ?y \<le> day \<and> day < year_start (?y + 1)"
    using assms(1) by (intro year_of_spec) (simp add: year_start_def)
  then have d: "0 \<le> day - year_start ?y" "day - year_start ?y < sum_list (month_lengths ?y)"
    by (simp_all add: year_start_step month_lengths_sum)
  obtain m r where md: "month_of (month_lengths ?y) (day - year_start ?y) = (m, r)" by fastforce
  note spec = month_of_spec [OF d md, unfolded month_lengths_sum]
  then have "month_lengths ?y ! m \<le> 31"
    using month_lengths_bound [of "month_lengths ?y ! m" ?y] month_lengths_sum(2) [of ?y] by simp
  with spec have "nat (r + 1) < 100" "Suc m < 100" "1 \<le> nat (r + 1)" "int (nat (r + 1)) \<le> month_lengths ?y ! m"
    by auto
  moreover have "nat ?y < 10 ^ 4" "int (nat ?y) = ?y" using y by auto
  ultimately show ?thesis
    using spec by (simp add: take_date_def date_text_def md Let_def)
qed

lemma clock_parts: "3600 * (s div 3600) + 60 * (s div 60 mod 60) + s mod 60 = s" for s :: nat
proof -
  have "s div 60 div 60 = s div 3600" using div_mult2_eq [of s 60 60] by simp
  then show ?thesis
    using mult_div_mod_eq [of 60 s] mult_div_mod_eq [of 60 "s div 60"] by linarith
qed

lemma take_clock_fixed:
  "h \<le> 23 \<Longrightarrow> m \<le> 59 \<Longrightarrow> n \<le> 59
    \<Longrightarrow> take_clock (fixed 2 h @ CHR '':'' # fixed 2 m @ CHR '':'' # fixed 2 n @ s) = Some (3600 * h + 60 * m + n, s)"
  by (simp add: take_clock_def)

lemma take_clock_text:
  assumes "secs < 86400"
  shows "take_clock (clock_text secs @ s) = Some (secs, s)"
proof -
  have "secs div 3600 < 24" using assms by (simp add: less_mult_imp_div_less)
  then have "secs div 3600 \<le> 23" "secs div 60 mod 60 \<le> 59" "secs mod 60 \<le> 59" by simp_all
  from take_clock_fixed [OF this] show ?thesis by (simp only: clock_parts clock_text_def append.simps append_assoc)
qed

lemma UnmarshalTime_MarshalTime:
  assumes "zone_ok zone" "MarshalTime zone t = Some s"
  shows "UnmarshalTime s = Some t"
proof -
  let ?l = "t + zone_ns zone"
  let ?day = "?l div ns_per_day" and ?ns = "?l mod ns_per_day"
  have range: "year_start 0 \<le> ?day" "?day < year_start 10000"
    and s: "s = date_text ?day @ CHR ''T'' # clock_text (nat (?ns div 1000000000))
      @ fraction (nat (?ns mod 1000000000)) @ zone_text zone"
    using assms(2) by (auto simp: MarshalTime_def year_in_range_def Let_def split: if_splits)
  have ns: "0 \<le> ?ns" "?ns < 86400000000000" by (simp_all add: ns_per_day_def)
  then have secs: "nat (?ns div 1000000000) < 86400" "int (nat (?ns div 1000000000)) = ?ns div 1000000000"
    and frac: "nat (?ns mod 1000000000) < 10 ^ 9" "int (nat (?ns mod 1000000000)) = ?ns mod 1000000000"
    by (auto simp: nat_less_iff)
  have "case zone_text zone of [] \<Rightarrow> True | c # _ \<Rightarrow> \<not> is_digit c \<and> c \<noteq> CHR ''.''"
    by (auto simp: zone_text_def is_digit_def)
  note rest = take_fraction_fraction [OF frac(1) this]
  have "?day * ns_per_day + ?ns = ?l" by simp
  then have "?day * ns_per_day + ?ns div 1000000000 * 1000000000 + ?ns mod 1000000000 = ?l" by simp
  then show ?thesis
    unfolding UnmarshalTime_def s take_date_text [OF range]
    using take_clock_text [OF secs(1)] rest take_zone_text [OF assms(1)] secs(2) frac(2) by simp
qed

end
