(* ===== verification/GoJson.thy ===== *)
theory GoJson
  imports GoText GoTime
begin

text \<open>
  JSON as \<^verbatim>\<open>encoding/json\<close> reads and writes it. A value keeps the text of its numbers and the
  text between the quotes of its strings; the conversion into a Go value comes later, when the
  type it is read into is known. Reading is a scanner that cuts the text into tokens and a
  machine that consumes them with the stack of the open arrays and objects, as the library's
  own scanner does, with its limit on the depth of the stack.
\<close>

section \<open>Values and their text\<close>

datatype json =
    JNull
  | JBool bool
  | JNum string
  | JStr string
  | JArr "json list"
  | JObj "(string \<times> json) list"

fun commas :: "string list \<Rightarrow> string" where
  "commas [] = []"
| "commas [s] = s"
| "commas (s # t # ss) = s @ CHR '','' # commas (t # ss)"

definition quote_raw :: "string \<Rightarrow> string" where
  "quote_raw raw = dquote # raw @ [dquote]"

primrec print_json :: "json \<Rightarrow> string" where
  "print_json JNull = ''null''"
| "print_json (JBool b) = (if b then ''true'' else ''false'')"
| "print_json (JNum lit) = lit"
| "print_json (JStr raw) = quote_raw raw"
| "print_json (JArr js) = CHR ''['' # commas (map print_json js) @ '']''"
| "print_json (JObj kvs) = CHR 0x7B # commas (map (\<lambda>(k, s). quote_raw k @ CHR '':'' # s)
     (map (map_prod id print_json) kvs)) @ [CHR 0x7D]"

text \<open>The text that \<^const>\<open>json_string\<close> puts between the quotes.\<close>

definition escape :: "string \<Rightarrow> string" where
  "escape s = concat (map json_char s)"

lemma json_string_escape: "json_string s = quote_raw (escape s)"
  by (simp add: json_string_def quote_raw_def escape_def)

section \<open>Tokens\<close>

datatype token = TNull | TTrue | TFalse | TNum string | TStr string | TComma | TColon
  | TOpenArr | TCloseArr | TOpenObj | TCloseObj

definition is_hex :: "char \<Rightarrow> bool" where
  "is_hex c \<longleftrightarrow> is_digit c \<or> 97 \<le> (of_char c :: nat) \<and> (of_char c :: nat) < 103
     \<or> 65 \<le> (of_char c :: nat) \<and> (of_char c :: nat) < 71"

text \<open>A string up to its closing quote, which may be escaped on the way.\<close>

fun scan_string :: "string \<Rightarrow> (string \<times> string) option" where
  "scan_string [] = None"
| "scan_string (c # cs) =
     (if c = dquote then Some ([], cs)
      else if (of_char c :: nat) < 32 then None
      else if c \<noteq> backslash then map_option (\<lambda>(raw, rest). (c # raw, rest)) (scan_string cs)
      else case cs of
        [] \<Rightarrow> None
      | e # es \<Rightarrow>
          if e \<in> {dquote, backslash, CHR ''/'', CHR ''b'', CHR ''f'', CHR ''n'', CHR ''r'', CHR ''t''} then
            map_option (\<lambda>(raw, rest). (c # e # raw, rest)) (scan_string es)
          else if e = CHR ''u'' then
            (case es of
               h1 # h2 # h3 # h4 # hs \<Rightarrow>
                 if is_hex h1 \<and> is_hex h2 \<and> is_hex h3 \<and> is_hex h4
                 then map_option (\<lambda>(raw, rest). (c # e # h1 # h2 # h3 # h4 # raw, rest)) (scan_string hs)
                 else None
             | _ \<Rightarrow> None)
          else None)"

definition number_char :: "char \<Rightarrow> bool" where
  "number_char c \<longleftrightarrow> is_digit c \<or> c \<in> set ''+-.eE''"

text \<open>The grammar of a number: sign, integer part without leading zeros, fraction, exponent.\<close>

definition skip_digits :: "string \<Rightarrow> string option" where
  "skip_digits s = (case s of [] \<Rightarrow> None | c # _ \<Rightarrow> if is_digit c then Some (dropWhile is_digit s) else None)"

definition valid_exponent :: "string \<Rightarrow> bool" where
  "valid_exponent s =
     (case s of
        [] \<Rightarrow> True
      | c # s1 \<Rightarrow> c \<in> {CHR ''e'', CHR ''E''}
          \<and> skip_digits (case s1 of d # s2 \<Rightarrow> if d \<in> {CHR ''+'', CHR ''-''} then s2 else s1 | [] \<Rightarrow> s1) = Some [])"

definition valid_number :: "string \<Rightarrow> bool" where
  "valid_number s =
     (let s1 = (case s of c # t \<Rightarrow> if c = CHR ''-'' then t else s | [] \<Rightarrow> s) in
      case s1 of
        [] \<Rightarrow> False
      | c # t \<Rightarrow>
          case (if c = CHR ''0'' then Some t else skip_digits s1) of
            None \<Rightarrow> False
          | Some s2 \<Rightarrow>
              (case s2 of
                 d # s3 \<Rightarrow> if d = CHR ''.'' then
                     (case skip_digits s3 of None \<Rightarrow> False | Some s4 \<Rightarrow> valid_exponent s4)
                   else valid_exponent s2
               | [] \<Rightarrow> True))"

lemma scan_string_splits: "scan_string s = Some (raw, rest) \<Longrightarrow> s = raw @ dquote # rest"
proof (induction s arbitrary: raw rule: scan_string.induct)
  case (2 c cs)
  consider "c = dquote" | "c \<noteq> dquote" "c \<noteq> backslash" | "c \<noteq> dquote" "c = backslash" by blast
  then show ?case
  proof cases
    case 1
    with "2.prems" show ?thesis by simp
  next
    case 2
    with "2.prems" "2.IH"(1) show ?thesis by (auto split: if_splits)
  next
    case 3
    with "2.prems" obtain e es where cs: "cs = e # es" by (cases cs) (simp_all split: if_splits)
    show ?thesis
    proof (cases "e = CHR ''u''")
      case True
      with 3 cs "2.prems" obtain h1 h2 h3 h4 hs raw' where
        "es = h1 # h2 # h3 # h4 # hs" "is_hex h1 \<and> is_hex h2 \<and> is_hex h3 \<and> is_hex h4"
        "scan_string hs = Some (raw', rest)" "raw = c # e # h1 # h2 # h3 # h4 # raw'"
        by (auto simp: dquote_def backslash_def split: if_splits list.splits)
      with "2.IH"(3) [OF 3(1) _ _ cs] True 3 cs "2.prems" show ?thesis
        by (simp add: dquote_def backslash_def)
    next
      case False
      with 3 cs "2.prems" obtain raw' where "scan_string es = Some (raw', rest)" "raw = c # e # raw'"
        by (auto split: if_splits)
      with "2.IH"(2) [OF 3(1) _ _ cs] False 3 cs "2.prems" show ?thesis by (auto split: if_splits)
    qed
  qed
qed simp

lemma scan_string_shorter: "scan_string s = Some (raw, rest) \<Longrightarrow> length rest < length s"
  using scan_string_splits by fastforce

function scan :: "string \<Rightarrow> token list option" where
  "scan [] = Some []"
| "scan (c # cs) =
     (if c \<in> {CHR '' '', CHR 0x09, CHR 0x0A, CHR 0x0D} then scan cs
      else if c = CHR '','' then map_option (Cons TComma) (scan cs)
      else if c = CHR '':'' then map_option (Cons TColon) (scan cs)
      else if c = CHR ''['' then map_option (Cons TOpenArr) (scan cs)
      else if c = CHR '']'' then map_option (Cons TCloseArr) (scan cs)
      else if c = CHR 0x7B then map_option (Cons TOpenObj) (scan cs)
      else if c = CHR 0x7D then map_option (Cons TCloseObj) (scan cs)
      else if c = dquote then
        (case scan_string cs of
           None \<Rightarrow> None
         | Some (raw, rest) \<Rightarrow> map_option (Cons (TStr raw)) (scan rest))
      else if c = CHR ''n'' then
        (if take 3 cs = ''ull'' then map_option (Cons TNull) (scan (drop 3 cs)) else None)
      else if c = CHR ''t'' then
        (if take 3 cs = ''rue'' then map_option (Cons TTrue) (scan (drop 3 cs)) else None)
      else if c = CHR ''f'' then
        (if take 4 cs = ''alse'' then map_option (Cons TFalse) (scan (drop 4 cs)) else None)
      else if valid_number (takeWhile number_char (c # cs)) then
        map_option (Cons (TNum (takeWhile number_char (c # cs)))) (scan (dropWhile number_char cs))
      else None)"
  by pat_completeness auto
termination
  by (relation "measure length")
    (auto simp: scan_string_shorter less_Suc_eq_le length_dropWhile_le intro: less_imp_le)

declare scan.simps(2) [simp del]

section \<open>The machine\<close>

text \<open>
  \<open>Want close\<close>: a value comes next, or the end of an array that has just been opened;
  \<open>WantKey close kvs\<close>: a key comes next, or the end of an object that has just been opened;
  \<open>WantColon kvs k\<close>: the colon after a key; \<open>Have v\<close>: a value has just been read.
\<close>

datatype expectation =
    Want bool
  | WantKey bool "(string \<times> json) list"
  | WantColon "(string \<times> json) list" string
  | Have json

datatype frame = InArr "json list" | InObj "(string \<times> json) list" string

type_synonym pstate = "expectation \<times> frame list"

definition max_depth :: nat where
  "max_depth = 10000"

fun consume :: "token \<Rightarrow> pstate \<Rightarrow> pstate option" where
  "consume t (Want close, st) =
     (case t of
        TNull \<Rightarrow> Some (Have JNull, st)
      | TTrue \<Rightarrow> Some (Have (JBool True), st)
      | TFalse \<Rightarrow> Some (Have (JBool False), st)
      | TNum lit \<Rightarrow> Some (Have (JNum lit), st)
      | TStr raw \<Rightarrow> Some (Have (JStr raw), st)
      | TOpenArr \<Rightarrow> if length st < max_depth then Some (Want True, InArr [] # st) else None
      | TOpenObj \<Rightarrow> if length st < max_depth then Some (WantKey True [], st) else None
      | TCloseArr \<Rightarrow>
          (case st of
             InArr [] # st' \<Rightarrow> if close then Some (Have (JArr []), st') else None
           | _ \<Rightarrow> None)
      | _ \<Rightarrow> None)"
| "consume t (WantKey close kvs, st) =
     (case t of
        TStr k \<Rightarrow> Some (WantColon kvs k, st)
      | TCloseObj \<Rightarrow> if close then Some (Have (JObj []), st) else None
      | _ \<Rightarrow> None)"
| "consume t (WantColon kvs k, st) = (if t = TColon then Some (Want False, InObj kvs k # st) else None)"
| "consume t (Have v, st) =
     (case st of
        [] \<Rightarrow> None
      | InArr vs # st' \<Rightarrow>
          if t = TComma then Some (Want False, InArr (v # vs) # st')
          else if t = TCloseArr then Some (Have (JArr (rev (v # vs))), st')
          else None
      | InObj kvs k # st' \<Rightarrow>
          if t = TComma then Some (WantKey False ((k, v) # kvs), st')
          else if t = TCloseObj then Some (Have (JObj (rev ((k, v) # kvs))), st')
          else None)"

fun consume_all :: "token list \<Rightarrow> pstate \<Rightarrow> pstate option" where
  "consume_all [] s = Some s"
| "consume_all (t # ts) s = Option.bind (consume t s) (consume_all ts)"

definition parse_json :: "string \<Rightarrow> json option" where
  "parse_json s =
     (case scan s of
        None \<Rightarrow> None
      | Some ts \<Rightarrow>
          (case consume_all ts (Want False, []) of
             Some (Have v, []) \<Rightarrow> Some v
           | _ \<Rightarrow> None))"

section \<open>What is written is read back\<close>

fun sep :: "token list list \<Rightarrow> token list" where
  "sep [] = []"
| "sep [ts] = ts"
| "sep (ts # us # tss) = ts @ TComma # sep (us # tss)"

primrec tokens :: "json \<Rightarrow> token list" where
  "tokens JNull = [TNull]"
| "tokens (JBool b) = [if b then TTrue else TFalse]"
| "tokens (JNum lit) = [TNum lit]"
| "tokens (JStr raw) = [TStr raw]"
| "tokens (JArr js) = TOpenArr # sep (map tokens js) @ [TCloseArr]"
| "tokens (JObj kvs) = TOpenObj # sep (map (\<lambda>(k, ts). TStr k # TColon # ts)
     (map (map_prod id tokens) kvs)) @ [TCloseObj]"

primrec depth :: "json \<Rightarrow> nat" where
  "depth JNull = 0"
| "depth (JBool b) = 0"
| "depth (JNum lit) = 0"
| "depth (JStr raw) = 0"
| "depth (JArr js) = Suc (Max (insert 0 (set (map depth js))))"
| "depth (JObj kvs) = Suc (Max (insert 0 (set (map snd (map (map_prod id depth) kvs)))))"

lemma depth_element: "j \<in> set js \<Longrightarrow> depth j < depth (JArr js)"
  by (simp add: less_Suc_eq_le)

lemma depth_field: "(k, j) \<in> set kvs \<Longrightarrow> depth j < depth (JObj kvs)"
proof -
  assume "(k, j) \<in> set kvs"
  then have "depth j \<in> set (map snd (map (map_prod id depth) kvs))" by force
  then show ?thesis by (simp add: less_Suc_eq_le)
qed

lemma consume_all_append:
  "consume_all (ts @ us) s = Option.bind (consume_all ts s) (consume_all us)"
proof (induction ts arbitrary: s)
  case (Cons t ts)
  then show ?case by (cases "consume t s") simp_all
qed simp

lemma consume_elements:
  assumes "\<And>j b st. j \<in> set js \<Longrightarrow> length st \<le> n \<Longrightarrow> consume_all (tokens j) (Want b, st) = Some (Have j, st)"
    "js \<noteq> []" "Suc (length st) \<le> n"
  shows "consume_all (sep (map tokens js) @ [TCloseArr]) (Want b, InArr vs # st)
    = Some (Have (JArr (rev vs @ js)), st)"
  using assms
proof (induction js arbitrary: vs b)
  case (Cons j js)
  have j: "consume_all (tokens j) (Want b, InArr vs # st) = Some (Have j, InArr vs # st)"
    using Cons.prems(1,3) by simp
  show ?case
  proof (cases js)
    case Nil
    with j show ?thesis by (simp add: consume_all_append)
  next
    case (Cons j' js')
    then show ?thesis
      using j Cons.IH [of False "j # vs"] Cons.prems(1,3) by (simp add: consume_all_append)
  qed
qed simp

lemma consume_fields:
  assumes "\<And>k j b st. (k, j) \<in> set kvs \<Longrightarrow> length st \<le> n
      \<Longrightarrow> consume_all (tokens j) (Want b, st) = Some (Have j, st)"
    "kvs \<noteq> []" "Suc (length st) \<le> n"
  shows "consume_all (sep (map (\<lambda>(k, ts). TStr k # TColon # ts) (map (map_prod id tokens) kvs)) @ [TCloseObj])
      (WantKey b acc, st) = Some (Have (JObj (rev acc @ kvs)), st)"
  using assms
proof (induction kvs arbitrary: acc b)
  case (Cons kv kvs)
  obtain k j where kv: "kv = (k, j)" by fastforce
  have j: "consume_all (tokens j) (Want False, InObj acc k # st) = Some (Have j, InObj acc k # st)"
    using Cons.prems(1) [of k j] Cons.prems(3) kv by simp
  show ?case
  proof (cases kvs)
    case Nil
    with j kv show ?thesis by (simp add: consume_all_append)
  next
    case (Cons kv' kvs')
    then show ?thesis
      using j kv Cons.IH [of False "(k, j) # acc"] Cons.prems(1,3)
      by (simp add: consume_all_append case_prod_beta) force
  qed
qed simp

lemma consume_tokens:
  "length st + depth j \<le> max_depth \<Longrightarrow> consume_all (tokens j) (Want b, st) = Some (Have j, st)"
proof (induction j arbitrary: b st)
  case (JArr js)
  show ?case
  proof (cases "js = []")
    case True
    with JArr.prems show ?thesis by simp
  next
    case False
    have "consume_all (tokens j) (Want b, st') = Some (Have j, st')"
      if "j \<in> set js" "length st' \<le> Suc (length st)" for j b st'
      using JArr.IH [OF that(1)] depth_element [OF that(1)] that(2) JArr.prems by simp
    from consume_elements [OF this False, where st = st and b = True and vs = "[]"] JArr.prems show ?thesis by simp
  qed
next
  case (JObj kvs)
  show ?case
  proof (cases "kvs = []")
    case True
    with JObj.prems show ?thesis by simp
  next
    case False
    have "consume_all (tokens j) (Want b, st') = Some (Have j, st')"
      if "(k, j) \<in> set kvs" "length st' \<le> Suc (length st)" for k j b st'
      using JObj.IH [OF that(1), of j] depth_field [OF that(1)] that(2) JObj.prems by simp
    from consume_fields [OF this False, where st = st and b = True and acc = "[]"] JObj.prems show ?thesis by simp
  qed
qed simp_all

text \<open>The values that the program writes.\<close>

primrec writable :: "json \<Rightarrow> bool" where
  "writable JNull = True"
| "writable (JBool b) = True"
| "writable (JNum lit) = (valid_number lit \<and> list_all number_char lit)"
| "writable (JStr raw) = (\<exists>s. raw = escape s)"
| "writable (JArr js) = list_all id (map writable js)"
| "writable (JObj kvs) = list_all (\<lambda>(k, b). (\<exists>s. k = escape s) \<and> b) (map (map_prod id writable) kvs)"

definition ends :: "string \<Rightarrow> bool" where
  "ends rest \<longleftrightarrow> (case rest of [] \<Rightarrow> True | c # _ \<Rightarrow> \<not> number_char c)"

lemma ends_simps [simp]: "ends []" "ends (c # s) = (\<not> number_char c)"
  by (simp_all add: ends_def)

lemma scan_punctuation [simp]:
  "scan (CHR '','' # cs) = map_option (Cons TComma) (scan cs)"
  "scan (CHR '':'' # cs) = map_option (Cons TColon) (scan cs)"
  "scan (CHR ''['' # cs) = map_option (Cons TOpenArr) (scan cs)"
  "scan (CHR '']'' # cs) = map_option (Cons TCloseArr) (scan cs)"
  "scan (CHR 0x7B # cs) = map_option (Cons TOpenObj) (scan cs)"
  "scan (CHR 0x7D # cs) = map_option (Cons TCloseObj) (scan cs)"
  by (simp_all add: scan.simps(2))

lemma append_single: "(@) [x] = (#) x"
  by (simp add: fun_eq_iff)

lemma scan_words:
  "scan (''null'' @ s) = map_option (Cons TNull) (scan s)"
  "scan (''true'' @ s) = map_option (Cons TTrue) (scan s)"
  "scan (''false'' @ s) = map_option (Cons TFalse) (scan s)"
  by (simp_all add: scan.simps(2) dquote_def)

lemma is_hex_digit: "n < 16 \<Longrightarrow> is_hex (hex_digit n)"
  by (auto simp: is_hex_def is_digit_def hex_digit_def)

lemma scan_string_char:
  "scan_string (json_char c @ t) = map_option (\<lambda>(raw, rest). (json_char c @ raw, rest)) (scan_string t)"
proof (cases c rule: json_char_cases)
  case quoted
  then show ?thesis by (auto simp: dquote_def backslash_def)
next
  case (named e)
  then show ?thesis by (auto simp: dquote_def backslash_def)
next
  case numbered
  have "is_hex (hex_digit (of_char c div 16))" "is_hex (hex_digit (of_char c mod 16))" "is_hex (CHR ''0'')"
    by (simp_all add: is_hex_digit less_mult_imp_div_less) (simp add: is_hex_def is_digit_def)
  with numbered show ?thesis by (simp add: backslash_def dquote_def)
next
  case copied
  then show ?thesis by simp
qed

lemma scan_string_escape: "scan_string (escape s @ dquote # t) = Some (escape s, t)"
  unfolding escape_def by (induction s) (simp_all add: scan_string_char)

lemma scan_quoted: "scan (quote_raw (escape s) @ t) = map_option (Cons (TStr (escape s))) (scan t)"
proof -
  have "scan (dquote # u) = (case scan_string u of None \<Rightarrow> None
      | Some (raw, rest) \<Rightarrow> map_option (Cons (TStr raw)) (scan rest))" for u
    by (simp add: scan.simps(2) dquote_def)
  then show ?thesis by (simp add: quote_raw_def scan_string_escape)
qed

lemma number_char_others: "number_char c \<Longrightarrow> c \<notin> {CHR '' '', CHR 0x09, CHR 0x0A, CHR 0x0D, CHR '','',
    CHR '':'', CHR ''['', CHR '']'', CHR 0x7B, CHR 0x7D, dquote, CHR ''n'', CHR ''t'', CHR ''f''}"
  by (auto simp: number_char_def is_digit_def dquote_def)

lemma scan_number:
  assumes "valid_number lit" "list_all number_char lit" "ends rest"
  shows "scan (lit @ rest) = map_option (Cons (TNum lit)) (scan rest)"
proof -
  obtain c cs where lit: "lit = c # cs" using assms(1) by (cases lit) (auto simp: valid_number_def)
  have stop: "takeWhile number_char rest = []" "dropWhile number_char rest = rest"
    using assms(3) by (cases rest; simp)+
  have "\<forall>d \<in> set (c # cs). number_char d" using assms(2) lit by (simp add: list_all_iff)
  then have "takeWhile number_char (c # cs @ rest) = c # cs" "dropWhile number_char (cs @ rest) = rest"
    using stop by (simp_all add: takeWhile_append dropWhile_append)
  moreover have "number_char c" using assms(2) lit by simp
  note number_char_others [OF this]
  ultimately show ?thesis
    using assms(1) lit by (simp add: scan.simps(2) del: takeWhile.simps dropWhile.simps)
qed

lemma scan_print:
  assumes "writable j" "ends rest"
  shows "scan (print_json j @ rest) = map_option ((@) (tokens j)) (scan rest)"
  using assms
proof (induction j arbitrary: rest)
  case (JArr js)
  have "scan (commas (map print_json js) @ CHR '']'' # rest)
      = map_option ((@) (sep (map tokens js))) (scan (CHR '']'' # rest))"
    using JArr.IH JArr.prems(1)
  proof (induction js rule: induct_list012)
    case (3 j j' js)
    then show ?case
      by (auto simp: number_char_def is_digit_def option.map_comp o_def)
  qed (auto simp: number_char_def is_digit_def option.map_comp o_def)
  then show ?case by (simp add: option.map_comp o_def)
next
  case (JObj kvs)
  have IH: "scan (print_json j @ t) = map_option ((@) (tokens j)) (scan t)"
    if "(k, j) \<in> set kvs" "writable j" "ends t" for k j t
    using JObj.IH [OF that(1), of j t] that(2,3) by simp
  have W: "\<forall>(k, j) \<in> set kvs. (\<exists>s. k = escape s) \<and> writable j"
    using JObj.prems(1) by (fastforce simp: list_all_iff)
  have fields: "scan (commas (map (\<lambda>(k, j). quote_raw k @ CHR '':'' # print_json j) kvs) @ CHR 0x7D # rest)
      = map_option ((@) (sep (map (\<lambda>(k, j). TStr k # TColon # tokens j) kvs))) (scan (CHR 0x7D # rest))"
    using IH W
  proof (induction kvs rule: induct_list012)
    case (2 kv)
    obtain k j where kv: "kv = (k, j)" by fastforce
    with 2 show ?case
      by (auto simp: number_char_def is_digit_def option.map_comp o_def scan_quoted)
  next
    case (3 kv kv' kvs)
    let ?t = "commas (map (\<lambda>(k, j). quote_raw k @ CHR '':'' # print_json j) (kv' # kvs)) @ CHR 0x7D # rest"
    obtain k j s where kv: "kv = (k, j)" "k = escape s" "writable j" using "3.prems"(2) by auto
    have "scan (print_json j @ CHR '','' # ?t) = map_option ((@) (tokens j)) (scan (CHR '','' # ?t))"
      using kv "3.prems"(1) [of k j] by (simp add: number_char_def is_digit_def)
    moreover have "scan ?t = map_option ((@) (sep (map (\<lambda>(k, j). TStr k # TColon # tokens j) (kv' # kvs))))
        (scan (CHR 0x7D # rest))"
    proof (rule "3.IH"(2))
      show "scan (print_json j @ t) = map_option ((@) (tokens j)) (scan t)"
        if "(k, j) \<in> set (kv' # kvs)" "writable j" "ends t" for k j t
        using that "3.prems"(1) [of k j t] by simp
    qed (use "3.prems"(2) in simp)
    ultimately show ?case
      using kv by (simp add: option.map_comp o_def scan_quoted)
  qed (simp add: option.map_comp o_def)
  have eqs: "map (\<lambda>(k, s). quote_raw k @ CHR '':'' # s) (map (map_prod id print_json) kvs)
      = map (\<lambda>(k, j). quote_raw k @ CHR '':'' # print_json j) kvs"
    "map (\<lambda>(k, ts). TStr k # TColon # ts) (map (map_prod id tokens) kvs)
      = map (\<lambda>(k, j). TStr k # TColon # tokens j) kvs"
    by (simp_all add: case_prod_beta)
  from fields show ?case
    unfolding print_json.simps tokens.simps eqs by (simp add: option.map_comp o_def)
next
  case (JNum lit)
  then show ?case by (simp add: scan_number append_single)
next
  case (JStr raw)
  then show ?case by (auto simp: scan_quoted append_single)
qed (auto simp: scan_words [simplified] append_single)

lemma parse_print:
  assumes "writable j" "depth j \<le> max_depth"
  shows "parse_json (print_json j) = Some j"
  using scan_print [OF assms(1), of "[]"] consume_tokens [of "[]" j False] assms(2)
  by (simp add: parse_json_def)

section \<open>Strings and numbers\<close>

text \<open>
  The bytes that an escaped text stands for. A surrogate pair is one character, and half a
  pair is replaced by U+FFFD. Bytes above 127 are copied: texts are taken to be valid UTF-8.
\<close>

definition byte :: "nat \<Rightarrow> char" where
  "byte n = char_of n"

definition utf8 :: "nat \<Rightarrow> string" where
  "utf8 r =
     (if r < 128 then [byte r]
      else if r < 2048 then [byte (192 + r div 64), byte (128 + r mod 64)]
      else if r < 65536 then [byte (224 + r div 4096), byte (128 + r div 64 mod 64), byte (128 + r mod 64)]
      else [byte (240 + r div 262144), byte (128 + r div 4096 mod 64), byte (128 + r div 64 mod 64),
        byte (128 + r mod 64)])"

definition hex_val :: "char \<Rightarrow> nat" where
  "hex_val c = (let n = of_char c :: nat in if n < 58 then n - 48 else if n < 71 then n - 55 else n - 87)"

definition hex4 :: "char \<Rightarrow> char \<Rightarrow> char \<Rightarrow> char \<Rightarrow> nat" where
  "hex4 a b c d = ((hex_val a * 16 + hex_val b) * 16 + hex_val c) * 16 + hex_val d"

definition simple_escape :: "char \<Rightarrow> char" where
  "simple_escape e =
     (if e = CHR ''b'' then CHR 0x08 else if e = CHR ''f'' then CHR 0x0C
      else if e = CHR ''n'' then CHR 0x0A else if e = CHR ''r'' then CHR 0x0D
      else if e = CHR ''t'' then CHR 0x09 else e)"

definition low_surrogate :: "string \<Rightarrow> nat option" where
  "low_surrogate s =
     (case s of
        b # u # g1 # g2 # g3 # g4 # _ \<Rightarrow>
          if b = backslash \<and> u = CHR ''u'' \<and> 0xDC00 \<le> hex4 g1 g2 g3 g4 \<and> hex4 g1 g2 g3 g4 < 0xE000
          then Some (hex4 g1 g2 g3 g4) else None
      | _ \<Rightarrow> None)"

function unquote :: "string \<Rightarrow> string" where
  "unquote [] = []"
| "unquote (c # cs) =
     (if c \<noteq> backslash then c # unquote cs
      else case cs of
        [] \<Rightarrow> []
      | e # es \<Rightarrow>
          if e \<noteq> CHR ''u'' then simple_escape e # unquote es
          else case es of
            h1 # h2 # h3 # h4 # hs \<Rightarrow>
              let r = hex4 h1 h2 h3 h4 in
              if r < 0xD800 \<or> 0xE000 \<le> r then utf8 r @ unquote hs
              else if 0xDC00 \<le> r then utf8 0xFFFD @ unquote hs
              else (case low_surrogate hs of
                  None \<Rightarrow> utf8 0xFFFD @ unquote hs
                | Some r2 \<Rightarrow> utf8 (0x10000 + (r - 0xD800) * 1024 + (r2 - 0xDC00)) @ unquote (drop 6 hs))
          | _ \<Rightarrow> [])"
  by pat_completeness auto
termination by (relation "measure length") auto

declare unquote.simps(2) [simp del]

lemma hex_val_digit [simp]: "n < 16 \<Longrightarrow> hex_val (hex_digit n) = n"
  by (simp add: hex_val_def hex_digit_def)

lemma hex_val_0: "hex_val (CHR ''0'') = 0"
  by (simp add: hex_val_def)

lemma unquote_char: "unquote (json_char c @ t) = c # unquote t"
proof (cases c rule: json_char_cases)
  case quoted
  then show ?thesis by (auto simp: unquote.simps(2) simple_escape_def dquote_def backslash_def)
next
  case (named e)
  then show ?thesis by (auto simp: unquote.simps(2) simple_escape_def backslash_def)
next
  case numbered
  then have six: "length (json_char c) = 6" by simp
  have low: "(of_char c :: nat) < 64"
  proof (rule ccontr)
    assume "\<not> (of_char c :: nat) < 64"
    then have "\<not> (of_char c :: nat) < 32" "c \<notin> {CHR ''<'', CHR ''>'', CHR ''&''}" by auto
    then have "length (json_char c) \<le> 2" by (simp add: json_char_def)
    with six show False by simp
  qed
  from low have "hex4 (CHR ''0'') (CHR ''0'') (hex_digit (of_char c div 16)) (hex_digit (of_char c mod 16)) = of_char c"
    by (simp add: hex4_def hex_val_0 less_mult_imp_div_less)
  with numbered low show ?thesis
    by (simp add: unquote.simps(2) utf8_def byte_def backslash_def)
next
  case copied
  then show ?thesis by (simp add: unquote.simps(2))
qed

lemma unquote_escape [simp]: "unquote (escape s) = s"
  unfolding escape_def by (induction s) (simp_all add: unquote_char)

text \<open>\<^verbatim>\<open>strconv.ParseInt\<close> and \<^verbatim>\<open>ParseUint\<close> on the text of a number, before the range check.\<close>

definition parse_uint :: "string \<Rightarrow> nat option" where
  "parse_uint s = (if s \<noteq> [] \<and> list_all is_digit s then Some (undec s) else None)"

definition parse_int :: "string \<Rightarrow> int option" where
  "parse_int s =
     (case s of
        [] \<Rightarrow> None
      | c # t \<Rightarrow> if c = CHR ''-'' then map_option (\<lambda>n. - int n) (parse_uint t)
                else map_option int (parse_uint s))"

lemma dec_nat_digits: "list_all is_digit (dec_nat n)"
  using digit_in_dec_nat by (auto simp: list_all_iff is_digit_def)

lemma dec_nat_nonempty: "dec_nat n \<noteq> []"
  by (subst dec_nat.simps) simp

lemma parse_uint_dec: "parse_uint (dec_nat n) = Some n"
  by (simp add: parse_uint_def dec_nat_nonempty dec_nat_digits undec_dec_nat)

lemma parse_int_dec: "parse_int (dec_int i) = Some i"
proof (cases "i < 0")
  case False
  obtain c s where cs: "dec_nat (nat i) = c # s" using dec_nat_nonempty by (cases "dec_nat (nat i)") auto
  then have "c \<noteq> CHR ''-''" using minus_notin_dec_nat [of "nat i"] by auto
  with False cs parse_uint_dec [of "nat i"] show ?thesis by (simp add: parse_int_def dec_int_def)
qed (simp add: parse_int_def dec_int_def parse_uint_dec)

text \<open>A decimal numeral is a number of the grammar: it has no leading zero.\<close>

lemma dec_nat_first: "dec_nat n = c # s \<Longrightarrow> c = CHR ''0'' \<Longrightarrow> s = []"
proof (induction n arbitrary: s rule: dec_nat.induct)
  case (1 n)
  show ?case
  proof (cases "n < 10")
    case False
    then have eq: "dec_nat n = dec_nat (n div 10) @ [digit (n mod 10)]" by (simp add: dec_nat.simps [of n])
    obtain d t where dt: "dec_nat (n div 10) = d # t" using dec_nat_nonempty by (cases "dec_nat (n div 10)") auto
    with eq "1.prems" have "d = CHR ''0''" by simp
    with False "1.IH" [of t] dt "1.prems"(2) have "t = []" by simp
    with dt \<open>d = CHR ''0''\<close> have "undec (dec_nat (n div 10)) = 0" by (simp add: undec_def)
    then have "n div 10 = 0" by (simp add: undec_dec_nat)
    with False show ?thesis by simp
  qed (use "1.prems" in \<open>simp add: dec_nat.simps [of n]\<close>)
qed

lemma valid_number_dec: "valid_number (dec_int i) \<and> list_all number_char (dec_int i)"
proof -
  have nat: "valid_number (dec_nat n)" "valid_number (CHR ''-'' # dec_nat n)" "list_all number_char (dec_nat n)" for n
  proof -
    obtain c s where cs: "dec_nat n = c # s" using dec_nat_nonempty by (cases "dec_nat n") auto
    have all: "list_all is_digit (c # s)" using dec_nat_digits [of n] cs by simp
    then have skip: "skip_digits (c # s) = Some []" by (simp add: skip_digits_def list_all_iff)
    have "c \<noteq> CHR ''-''" using minus_notin_dec_nat [of n] cs by auto
    moreover have "c = CHR ''0'' \<Longrightarrow> s = []" using dec_nat_first cs by blast
    ultimately show "valid_number (dec_nat n)" "valid_number (CHR ''-'' # dec_nat n)"
      unfolding cs using skip by (auto simp: valid_number_def)
    show "list_all number_char (dec_nat n)"
      using dec_nat_digits [of n] by (auto simp: list_all_iff number_char_def)
  qed
  then show ?thesis by (simp add: dec_int_def number_char_def)
qed

end
