(* ===== verification/Wire.thy ===== *)
theory Wire
  imports Network GoJson
begin

text \<open>
  The JSON form of the messages of \<^verbatim>\<open>src/utils/types.go\<close>, as the field tags there lay it
  down, written by \<^verbatim>\<open>json.Marshal\<close> in \<^verbatim>\<open>Send\<close> and read by \<^verbatim>\<open>json.Unmarshal\<close> in
  \<^verbatim>\<open>receiveLoop\<close> (\<^verbatim>\<open>src/utils/network.go\<close>). The rest of the development passes messages as
  values; this theory shows that the bytes in between carry them faithfully, and how many
  bytes there are.
\<close>

section \<open>Writing\<close>

fun type_int :: "MessageType \<Rightarrow> int" where
  "type_int Heartbeat = 0"
| "type_int Ping = 1"
| "type_int Ack = 2"
| "type_int IndirectPing = 3"
| "type_int IndirectAck = 4"
| "type_int Join = 5"
| "type_int JoinResponse = 6"
| "type_int Leave = 7"
| "type_int Suspect = 8"
| "type_int AliveMsg = 9"
| "type_int Confirm = 10"
| "type_int (UnknownType k) = (if k < 0 then k else k + 11)"

definition type_of_int :: "int \<Rightarrow> MessageType" where
  "type_of_int i =
     (if i < 0 then UnknownType i
      else if i < 11 then [Heartbeat, Ping, Ack, IndirectPing, IndirectAck, Join, JoinResponse, Leave,
        Suspect, AliveMsg, Confirm] ! nat i
      else UnknownType (i - 11))"

lemma type_of_type_int [simp]: "type_of_int (type_int t) = t"
  by (cases t) (auto simp: type_of_int_def)

definition json_int :: "int \<Rightarrow> json" where
  "json_int i = JNum (dec_int i)"

definition json_text :: "string \<Rightarrow> json" where
  "json_text s = JStr (escape s)"

definition NodeID_json :: "NodeID \<Rightarrow> json" where
  "NodeID_json n = JObj [(''ip'', json_text (nid_IP n)), (''port'', json_int (sint (nid_Port n))),
     (''timestamp'', json_int (sint (nid_Timestamp n)))]"

text \<open>The text of a time is put between quotes as it is.\<close>

definition MemberUpdate_json :: "int \<Rightarrow> MemberUpdate \<Rightarrow> json option" where
  "MemberUpdate_json zone u = map_option (\<lambda>t. JObj [(''node_id'', NodeID_json (up_NodeID u)),
     (''incarnation'', json_int (sint (up_Incarnation u))),
     (''status'', json_int (status_int (up_Status u))),
     (''timestamp'', JStr t)]) (MarshalTime zone (up_Timestamp u))"

text \<open>
  \<^verbatim>\<open>omitempty\<close> leaves out a sequence number of zero and an empty list of updates; it has no
  effect on the struct \<^verbatim>\<open>Target\<close>.
\<close>

definition Message_json :: "int \<Rightarrow> Message \<Rightarrow> json option" where
  "Message_json zone m = map_option (\<lambda>us. JObj (
     [(''type'', json_int (type_int (msg_Type m))), (''sender'', NodeID_json (msg_Sender m)),
      (''target'', NodeID_json (msg_Target m)), (''incarnation'', json_int (sint (msg_Incarnation m)))]
     @ (if msg_SeqNum m = 0 then [] else [(''seq_num'', json_int (uint (msg_SeqNum m)))])
     @ (if us = [] then [] else [(''members'', JArr us)])
     @ [(''timestamp'', json_int (sint (msg_Timestamp m)))]))
     (those (map (MemberUpdate_json zone) (msg_Members m)))"

definition Marshal_Message :: "int \<Rightarrow> Message \<Rightarrow> string option" where
  "Marshal_Message zone m = map_option print_json (Message_json zone m)"

section \<open>Reading\<close>

text \<open>
  \<^verbatim>\<open>Unmarshal\<close> reads a value into a variable that has a value already: \<^verbatim>\<open>null\<close> leaves it as it
  is (and empties a slice), a field of an object is found by its name in any letter case, an
  unknown field is skipped, and a value of the wrong kind or out of range is an error.
\<close>

definition into_int :: "int \<Rightarrow> int \<Rightarrow> json \<Rightarrow> int \<Rightarrow> int option" where
  "into_int lo hi j old =
     (case j of
        JNull \<Rightarrow> Some old
      | JNum lit \<Rightarrow>
          (case parse_int lit of
             None \<Rightarrow> None
           | Some i \<Rightarrow> if lo \<le> i \<and> i < hi then Some i else None)
      | _ \<Rightarrow> None)"

definition into_int32 :: "json \<Rightarrow> int32 \<Rightarrow> int32 option" where
  "into_int32 j old = map_option word_of_int (into_int (- (2 ^ 31)) (2 ^ 31) j (sint old))"

definition into_int64 :: "json \<Rightarrow> int64 \<Rightarrow> int64 option" where
  "into_int64 j old = map_option word_of_int (into_int (- (2 ^ 63)) (2 ^ 63) j (sint old))"

text \<open>\<^verbatim>\<open>ParseUint\<close> does not accept a sign.\<close>

definition into_uint64 :: "json \<Rightarrow> uint64 \<Rightarrow> uint64 option" where
  "into_uint64 j old =
     (case j of
        JNull \<Rightarrow> Some old
      | JNum lit \<Rightarrow>
          (case parse_uint lit of
             None \<Rightarrow> None
           | Some n \<Rightarrow> if int n < 2 ^ 64 then Some (of_nat n) else None)
      | _ \<Rightarrow> None)"

definition into_string :: "json \<Rightarrow> string \<Rightarrow> string option" where
  "into_string j old = (case j of JNull \<Rightarrow> Some old | JStr raw \<Rightarrow> Some (unquote raw) | _ \<Rightarrow> None)"

definition into_time :: "json \<Rightarrow> time \<Rightarrow> time option" where
  "into_time j old = (case j of JNull \<Rightarrow> Some old | JStr raw \<Rightarrow> UnmarshalTime raw | _ \<Rightarrow> None)"

fun into_fields :: "(string \<Rightarrow> json \<Rightarrow> 'a \<Rightarrow> 'a option) \<Rightarrow> (string \<times> json) list \<Rightarrow> 'a \<Rightarrow> 'a option" where
  "into_fields field [] x = Some x"
| "into_fields field ((k, j) # kvs) x =
     Option.bind (field (ToLower (unquote k)) j x) (into_fields field kvs)"

definition into_struct :: "(string \<Rightarrow> json \<Rightarrow> 'a \<Rightarrow> 'a option) \<Rightarrow> json \<Rightarrow> 'a \<Rightarrow> 'a option" where
  "into_struct field j x =
     (case j of JNull \<Rightarrow> Some x | JObj kvs \<Rightarrow> into_fields field kvs x | _ \<Rightarrow> None)"

definition NodeID_field :: "string \<Rightarrow> json \<Rightarrow> NodeID \<Rightarrow> NodeID option" where
  "NodeID_field k j n =
     (if k = ''ip'' then map_option (\<lambda>v. n\<lparr>nid_IP := v\<rparr>) (into_string j (nid_IP n))
      else if k = ''port'' then map_option (\<lambda>v. n\<lparr>nid_Port := v\<rparr>) (into_int64 j (nid_Port n))
      else if k = ''timestamp'' then
        map_option (\<lambda>v. n\<lparr>nid_Timestamp := v\<rparr>) (into_int64 j (nid_Timestamp n))
      else Some n)"

definition into_status :: "json \<Rightarrow> MemberStatus \<Rightarrow> MemberStatus option" where
  "into_status j old = map_option status_of_int (into_int (- (2 ^ 63)) (2 ^ 63) j (status_int old))"

definition MemberUpdate_field :: "string \<Rightarrow> json \<Rightarrow> MemberUpdate \<Rightarrow> MemberUpdate option" where
  "MemberUpdate_field k j u =
     (if k = ''node_id'' then
        map_option (\<lambda>v. u\<lparr>up_NodeID := v\<rparr>) (into_struct NodeID_field j (up_NodeID u))
      else if k = ''incarnation'' then
        map_option (\<lambda>v. u\<lparr>up_Incarnation := v\<rparr>) (into_int32 j (up_Incarnation u))
      else if k = ''status'' then map_option (\<lambda>v. u\<lparr>up_Status := v\<rparr>) (into_status j (up_Status u))
      else if k = ''timestamp'' then map_option (\<lambda>v. u\<lparr>up_Timestamp := v\<rparr>) (into_time j (up_Timestamp u))
      else Some u)"

definition zero_MemberUpdate :: MemberUpdate where
  "zero_MemberUpdate = \<lparr>up_NodeID = zero_NodeID, up_Incarnation = 0, up_Status = Alive, up_Timestamp = 0\<rparr>"

definition into_updates :: "json \<Rightarrow> MemberUpdate list option" where
  "into_updates j =
     (case j of
        JNull \<Rightarrow> Some []
      | JArr js \<Rightarrow> those (map (\<lambda>j. into_struct MemberUpdate_field j zero_MemberUpdate) js)
      | _ \<Rightarrow> None)"

definition into_type :: "json \<Rightarrow> MessageType \<Rightarrow> MessageType option" where
  "into_type j old = map_option type_of_int (into_int (- (2 ^ 63)) (2 ^ 63) j (type_int old))"

definition Message_field :: "string \<Rightarrow> json \<Rightarrow> Message \<Rightarrow> Message option" where
  "Message_field k j m =
     (if k = ''type'' then map_option (\<lambda>v. m\<lparr>msg_Type := v\<rparr>) (into_type j (msg_Type m))
      else if k = ''sender'' then
        map_option (\<lambda>v. m\<lparr>msg_Sender := v\<rparr>) (into_struct NodeID_field j (msg_Sender m))
      else if k = ''target'' then
        map_option (\<lambda>v. m\<lparr>msg_Target := v\<rparr>) (into_struct NodeID_field j (msg_Target m))
      else if k = ''incarnation'' then
        map_option (\<lambda>v. m\<lparr>msg_Incarnation := v\<rparr>) (into_int32 j (msg_Incarnation m))
      else if k = ''seq_num'' then
        map_option (\<lambda>v. m\<lparr>msg_SeqNum := v\<rparr>) (into_uint64 j (msg_SeqNum m))
      else if k = ''members'' then map_option (\<lambda>v. m\<lparr>msg_Members := v\<rparr>) (into_updates j)
      else if k = ''timestamp'' then
        map_option (\<lambda>v. m\<lparr>msg_Timestamp := v\<rparr>) (into_int64 j (msg_Timestamp m))
      else Some m)"

text \<open>\<^verbatim>\<open>var msg Message; json.Unmarshal(buffer, &msg)\<close>; \<^term>\<open>None\<close> is the error.\<close>

definition Unmarshal_Message :: "string \<Rightarrow> Message option" where
  "Unmarshal_Message bytes =
     Option.bind (parse_json bytes) (\<lambda>j. into_struct Message_field j (message Heartbeat))"

section \<open>What is written is read back\<close>

lemma into_int_json [simp]:
  "into_int lo hi (json_int i) old = (if lo \<le> i \<and> i < hi then Some i else None)"
  by (simp add: into_int_def json_int_def parse_int_dec)

lemma into_words_json [simp]:
  "into_int32 (json_int (sint a)) old = Some a" "into_int64 (json_int (sint b)) old' = Some b"
  using sint32_bounds [of a] sint64_bounds [of b] by (simp_all add: into_int32_def into_int64_def)

lemma into_uint64_json [simp]: "into_uint64 (json_int (uint s)) old = Some s"
proof -
  have "uint s < 2 ^ 64" "0 \<le> uint s" using uint_lt2p [of s] by simp_all
  then show ?thesis by (simp add: into_uint64_def json_int_def dec_int_def parse_uint_dec)
qed

lemma into_string_json [simp]: "into_string (json_text s) old = Some s"
  by (simp add: into_string_def json_text_def)

definition key_ok :: "string \<Rightarrow> bool" where
  "key_ok k \<longleftrightarrow> ToLower (unquote k) = k \<and> escape k = k"

lemma field_names [simp]:
  "key_ok ''ip''" "key_ok ''port''" "key_ok ''timestamp''" "key_ok ''node_id''" "key_ok ''incarnation''"
  "key_ok ''status''" "key_ok ''type''" "key_ok ''sender''" "key_ok ''target''" "key_ok ''seq_num''"
  "key_ok ''members''"
  by (simp_all add: key_ok_def unquote.simps(2) ToLower_def lower_char_def escape_def json_char_def
      backslash_def dquote_def)

lemma into_fields_key: "key_ok k \<Longrightarrow>
    into_fields field ((k, j) # kvs) x = Option.bind (field k j x) (into_fields field kvs)"
  by (simp add: key_ok_def)

lemma into_struct_JObj: "into_struct field (JObj kvs) x = into_fields field kvs x"
  by (simp add: into_struct_def)

lemma into_NodeID_json [simp]: "into_struct NodeID_field (NodeID_json n) old = Some n"
  by (simp add: into_struct_def NodeID_json_def into_fields_key NodeID_field_def del: into_fields.simps(2))

text \<open>\<open>update_fits\<close>, \<open>message_fits\<close>: the enumerations are within a Go \<^verbatim>\<open>int\<close>.\<close>

definition update_fits :: "MemberUpdate \<Rightarrow> bool" where
  "update_fits u \<longleftrightarrow> - (2 ^ 63) \<le> status_int (up_Status u) \<and> status_int (up_Status u) < 2 ^ 63"

definition message_fits :: "Message \<Rightarrow> bool" where
  "message_fits m \<longleftrightarrow> - (2 ^ 63) \<le> type_int (msg_Type m) \<and> type_int (msg_Type m) < 2 ^ 63
     \<and> list_all update_fits (msg_Members m)"

lemma into_MemberUpdate_json:
  assumes "zone_ok zone" "MemberUpdate_json zone u = Some j" "update_fits u"
  shows "into_struct MemberUpdate_field j old = Some u"
proof -
  obtain t where t: "MarshalTime zone (up_Timestamp u) = Some t"
    and j: "j = JObj [(''node_id'', NodeID_json (up_NodeID u)), (''incarnation'', json_int (sint (up_Incarnation u))),
      (''status'', json_int (status_int (up_Status u))), (''timestamp'', JStr t)]"
    using assms(2) by (auto simp: MemberUpdate_json_def)
  have "into_time (JStr t) old' = Some (up_Timestamp u)" for old'
    using UnmarshalTime_MarshalTime [OF assms(1) t] by (simp add: into_time_def)
  moreover have "into_status (json_int (status_int (up_Status u))) old' = Some (up_Status u)" for old'
    using assms(3) by (simp add: into_status_def update_fits_def status_of_status_int)
  ultimately show ?thesis
    by (simp add: j into_struct_JObj into_fields_key MemberUpdate_field_def del: into_fields.simps(2))
qed

lemma into_updates_json:
  assumes "zone_ok zone"
  shows "those (map (MemberUpdate_json zone) us) = Some js \<Longrightarrow> list_all update_fits us
    \<Longrightarrow> those (map (\<lambda>j. into_struct MemberUpdate_field j zero_MemberUpdate) js) = Some us"
proof (induction us arbitrary: js)
  case (Cons u us)
  then show ?case
    using into_MemberUpdate_json [OF assms] by (auto split: option.splits)
qed simp

lemma into_Message_json:
  assumes "zone_ok zone" "Message_json zone m = Some j" "message_fits m"
  shows "into_struct Message_field j (message Heartbeat) = Some m"
proof -
  obtain us where us: "those (map (MemberUpdate_json zone) (msg_Members m)) = Some us"
    using assms(2) by (auto simp: Message_json_def)
  have upd: "into_updates (JArr us) = Some (msg_Members m)"
    using into_updates_json [OF assms(1) us] assms(3) by (simp add: into_updates_def message_fits_def)
  have empty: "us = [] \<Longrightarrow> msg_Members m = []" using upd by (simp add: into_updates_def)
  have type: "into_type (json_int (type_int (msg_Type m))) t = Some (msg_Type m)" for t
    using assms(3) by (simp add: into_type_def message_fits_def)
  show ?thesis
    using assms(2) us upd type empty
    by (auto simp: Message_json_def into_struct_JObj into_fields_key Message_field_def message_def
        simp del: into_fields.simps(2) intro!: Message.equality)
qed

text \<open>The characters that are written as they are.\<close>

definition plain :: "char \<Rightarrow> bool" where
  "plain c \<longleftrightarrow> json_char c = [c]"

lemma plain_escape: "list_all plain s \<Longrightarrow> escape s = s"
  by (induction s) (simp_all add: escape_def plain_def)

lemma plain_marks [simp]:
  "plain (CHR ''-'')" "plain (CHR '':'')" "plain (CHR ''T'')" "plain (CHR ''Z'')" "plain (CHR ''+'')"
  "plain (CHR ''.'')"
  by (simp_all add: plain_def json_char_def dquote_def backslash_def)

lemma digits_plain: "list_all is_digit s \<Longrightarrow> list_all plain s"
proof -
  have "plain c" if "is_digit c" for c
  proof -
    have "c \<notin> {dquote, backslash, CHR ''<'', CHR ''>'', CHR ''&'', CHR 0x08, CHR 0x09, CHR 0x0A, CHR 0x0C, CHR 0x0D}"
      using that by (auto simp: is_digit_def dquote_def backslash_def)
    with that show ?thesis by (simp add: plain_def json_char_def is_digit_def)
  qed
  then show "list_all is_digit s \<Longrightarrow> list_all plain s" by (simp add: list_all_iff)
qed

lemma strip_zeros_digits: "list_all is_digit s \<Longrightarrow> list_all is_digit (strip_zeros s)"
  by (auto simp: strip_zeros_def list_all_iff dest: set_dropWhileD)

lemma time_plain:
  assumes "MarshalTime zone t = Some s"
  shows "escape s = s"
proof -
  have fixed: "list_all plain (fixed k n)" for k n
    by (rule digits_plain [OF fixed_digits])
  have "list_all plain (strip_zeros (fixed 9 n))" for n
    by (rule digits_plain [OF strip_zeros_digits [OF fixed_digits]])
  then have fraction: "list_all plain (fraction n)" for n by (simp add: fraction_def)
  have date: "list_all plain (date_text d)" for d
    by (simp add: date_text_def Let_def fixed split: prod.split)
  have clock: "list_all plain (clock_text n)" for n by (simp add: clock_text_def fixed)
  have zone: "list_all plain (zone_text zone)" by (simp add: zone_text_def fixed)
  have "list_all plain s"
    using assms date clock fraction zone by (auto simp: MarshalTime_def Let_def split: if_splits)
  then show ?thesis by (rule plain_escape)
qed

lemma depth_JObj_le: "\<forall>(k, j) \<in> set kvs. depth j \<le> n \<Longrightarrow> depth (JObj kvs) \<le> Suc n"
  by (force simp: Max_le_iff)

lemma depth_JArr_le: "\<forall>j \<in> set js. depth j \<le> n \<Longrightarrow> depth (JArr js) \<le> Suc n"
  by (auto simp: Max_le_iff)

lemma leaf_depth [simp]: "depth (json_int i) = 0" "depth (json_text s) = 0"
  by (simp_all add: json_int_def json_text_def)

lemma leaf_writable [simp]: "writable (json_int i)" "writable (json_text s)"
  by (auto simp: json_int_def json_text_def valid_number_dec)

lemma key_writable: "key_ok k \<Longrightarrow> \<exists>s. k = escape s"
  by (metis key_ok_def)

lemma writable_JObj: "writable (JObj kvs) \<longleftrightarrow> (\<forall>(k, j) \<in> set kvs. (\<exists>s. k = escape s) \<and> writable j)"
  by (force simp: list_all_iff)

lemma NodeID_json_ok: "writable (NodeID_json n) \<and> depth (NodeID_json n) \<le> 1"
proof -
  have "depth (NodeID_json n) \<le> Suc 0"
    unfolding NodeID_json_def by (rule depth_JObj_le) simp
  then show ?thesis
    by (simp add: NodeID_json_def writable_JObj key_writable del: writable.simps(6) depth.simps)
qed

lemma MemberUpdate_json_ok:
  assumes "MemberUpdate_json zone u = Some j"
  shows "writable j \<and> depth j \<le> 2"
proof -
  obtain t where t: "MarshalTime zone (up_Timestamp u) = Some t"
    and j: "j = JObj [(''node_id'', NodeID_json (up_NodeID u)), (''incarnation'', json_int (sint (up_Incarnation u))),
      (''status'', json_int (status_int (up_Status u))), (''timestamp'', JStr t)]"
    using assms by (auto simp: MemberUpdate_json_def)
  have "depth j \<le> Suc 1"
    unfolding j by (rule depth_JObj_le) (use NodeID_json_ok in simp)
  moreover have "writable (JStr t)" using time_plain [OF t] by (metis writable.simps(4))
  ultimately show ?thesis
    using NodeID_json_ok by (simp add: j writable_JObj key_writable del: writable.simps(4,6) depth.simps)
qed

lemma those_elements: "those (map f xs) = Some ys \<Longrightarrow> y \<in> set ys \<Longrightarrow> \<exists>x \<in> set xs. f x = Some y"
  by (induction xs arbitrary: ys) (auto split: option.splits)

lemma those_length: "those xs = Some ys \<Longrightarrow> length ys = length xs"
  by (induction xs arbitrary: ys) (auto split: option.splits)

lemma Message_json_ok:
  assumes "Message_json zone m = Some j"
  shows "writable j \<and> depth j \<le> 4"
proof -
  obtain us where us: "those (map (MemberUpdate_json zone) (msg_Members m)) = Some us"
    using assms by (auto simp: Message_json_def)
  let ?kvs = "[(''type'', json_int (type_int (msg_Type m))), (''sender'', NodeID_json (msg_Sender m)),
      (''target'', NodeID_json (msg_Target m)), (''incarnation'', json_int (sint (msg_Incarnation m)))]
     @ (if msg_SeqNum m = 0 then [] else [(''seq_num'', json_int (uint (msg_SeqNum m)))])
     @ (if us = [] then [] else [(''members'', JArr us)])
     @ [(''timestamp'', json_int (sint (msg_Timestamp m)))]"
  have j: "j = JObj ?kvs" using assms us by (simp add: Message_json_def)
  have each: "\<forall>u \<in> set us. writable u \<and> depth u \<le> 2"
    using those_elements [OF us] MemberUpdate_json_ok by blast
  then have arr: "writable (JArr us)" "depth (JArr us) \<le> 3"
    using depth_JArr_le [of us 2] by (auto simp: list_all_iff)
  have node: "writable (NodeID_json n)" "depth (NodeID_json n) \<le> 3" for n
    using NodeID_json_ok [of n] by simp_all
  have "depth j \<le> Suc 3"
    unfolding j by (rule depth_JObj_le) (use arr node in \<open>auto simp del: depth.simps\<close>)
  moreover have "writable j"
    unfolding j writable_JObj using arr node by (auto simp: key_writable simp del: writable.simps(5,6))
  ultimately show ?thesis by simp
qed

lemma Marshal_Unmarshal:
  assumes "zone_ok zone" "Marshal_Message zone m = Some bytes" "message_fits m"
  shows "Unmarshal_Message bytes = Some m"
proof -
  obtain j where j: "Message_json zone m = Some j" "bytes = print_json j"
    using assms(2) by (auto simp: Marshal_Message_def)
  then have "parse_json bytes = Some j"
    using Message_json_ok [OF j(1)] by (simp add: parse_print max_depth_def)
  then show ?thesis
    using into_Message_json [OF assms(1) j(1) assms(3)] by (simp add: Unmarshal_Message_def)
qed

section \<open>The size of a message\<close>

lemma commas_length: "length (commas ss) = sum_list (map length ss) + (length ss - 1)"
  by (induction ss rule: commas.induct) simp_all

lemma dec_nat_length_pos: "1 \<le> length (dec_nat n)"
  using dec_nat_nonempty [of n] by (cases "dec_nat n") simp_all

lemma dec_int_length_pos: "1 \<le> length (dec_int i)"
  using dec_nat_length_pos [of "nat i"] dec_nat_length_pos [of "nat (- i)"] by (simp add: dec_int_def)

lemma dec_nat_length: "n < 10 ^ k \<Longrightarrow> length (dec_nat n) \<le> max 1 k"
proof (induction n arbitrary: k rule: dec_nat.induct)
  case (1 n)
  show ?case
  proof (cases "n < 10")
    case False
    then obtain k' where k: "k = Suc k'" "n div 10 < 10 ^ k'"
      using "1.prems" by (cases k) auto
    moreover have "k' \<noteq> 0" using k(2) False by (cases k') auto
    ultimately show ?thesis using "1.IH" [OF False k(2)] False by (simp add: dec_nat.simps [of n])
  qed (simp add: dec_nat.simps [of n])
qed

lemma dec_int_length: "\<bar>i\<bar> < 10 ^ k \<Longrightarrow> 1 \<le> k \<Longrightarrow> length (dec_int i) \<le> Suc k"
  using dec_nat_length [of "nat i" k] dec_nat_length [of "nat (- i)" k]
  by (auto simp: dec_int_def nat_less_iff)

lemma escape_length: "length s \<le> length (escape s) \<and> length (escape s) \<le> 6 * length s"
  using json_string_length [of s] by (simp add: json_string_escape quote_raw_def)

lemma print_int: "print_json (json_int i) = dec_int i"
  by (simp add: json_int_def)

lemma int64_length: "length (dec_int (sint (a :: int64))) \<le> 20"
  using dec_int_length [of "sint a" 19] sint64_bounds [of a] by auto

lemma int32_length: "length (dec_int (sint (a :: int32))) \<le> 11"
  using dec_int_length [of "sint a" 10] sint32_bounds [of a] by auto

lemma uint64_length: "length (dec_int (uint (a :: uint64))) \<le> 21"
  using dec_int_length [of "uint a" 20] uint_lt2p [of a] by simp

lemma print_NodeID_length:
  "32 + length (nid_IP n) \<le> length (print_json (NodeID_json n))
   \<and> length (print_json (NodeID_json n)) \<le> 70 + 6 * length (nid_IP n)"
  using escape_length [of "nid_IP n"] int64_length [of "nid_Port n"] int64_length [of "nid_Timestamp n"]
    dec_int_length_pos [of "sint (nid_Port n)"] dec_int_length_pos [of "sint (nid_Timestamp n)"]
  by (simp add: NodeID_json_def print_int json_text_def quote_raw_def)

lemma time_length: "MarshalTime zone t = Some s \<Longrightarrow> 20 \<le> length s \<and> length s \<le> 35"
proof -
  assume s: "MarshalTime zone t = Some s"
  have "length (strip_zeros (fixed 9 n)) \<le> 9" for n
    using length_dropWhile_le [of "\<lambda>c. c = CHR ''0''" "rev (fixed 9 n)"] by (simp add: strip_zeros_def)
  then have frac: "length (fraction n) \<le> 10" for n by (simp add: fraction_def)
  have "length (date_text d) = 10" for d by (simp add: date_text_def Let_def split: prod.split)
  moreover have "length (clock_text n) = 8" for n by (simp add: clock_text_def)
  moreover have "1 \<le> length (zone_text zone)" "length (zone_text zone) \<le> 6" by (simp_all add: zone_text_def)
  ultimately show ?thesis
    using s frac [of "nat ((t + zone_ns zone) mod ns_per_day mod 1000000000)"]
    by (auto simp: MarshalTime_def Let_def split: if_splits)
qed

lemma status_length: "update_fits u \<Longrightarrow> length (dec_int (status_int (up_Status u))) \<le> 20"
  using dec_int_length [of "status_int (up_Status u)" 19] by (auto simp: update_fits_def)

lemma print_update_length:
  assumes "MemberUpdate_json zone u = Some j"
  shows "106 + length (nid_IP (up_NodeID u)) \<le> length (print_json j)"
    "update_fits u \<Longrightarrow> length (print_json j) \<le> 188 + 6 * length (nid_IP (up_NodeID u))"
proof -
  obtain t where t: "MarshalTime zone (up_Timestamp u) = Some t"
    and j: "j = JObj [(''node_id'', NodeID_json (up_NodeID u)), (''incarnation'', json_int (sint (up_Incarnation u))),
      (''status'', json_int (status_int (up_Status u))), (''timestamp'', JStr t)]"
    using assms by (auto simp: MemberUpdate_json_def)
  have len: "length (print_json j) = 52 + length (print_json (NodeID_json (up_NodeID u)))
      + length (dec_int (sint (up_Incarnation u))) + length (dec_int (status_int (up_Status u))) + length t"
    by (simp add: j print_int quote_raw_def del: print_json.simps(6)) (simp add: print_int quote_raw_def)
  show "106 + length (nid_IP (up_NodeID u)) \<le> length (print_json j)"
    using len print_NodeID_length [of "up_NodeID u"] time_length [OF t]
      dec_int_length_pos [of "sint (up_Incarnation u)"] dec_int_length_pos [of "status_int (up_Status u)"]
    by linarith
  show "update_fits u \<Longrightarrow> length (print_json j) \<le> 188 + 6 * length (nid_IP (up_NodeID u))"
    using len print_NodeID_length [of "up_NodeID u"] time_length [OF t] status_length [of u]
      int32_length [of "up_Incarnation u"] by linarith
qed

lemma print_updates_length:
  assumes "those (map (MemberUpdate_json zone) us) = Some js"
  shows "106 * length us \<le> sum_list (map (length \<circ> print_json) js)"
    "list_all update_fits us \<Longrightarrow> \<forall>u \<in> set us. length (nid_IP (up_NodeID u)) \<le> l
      \<Longrightarrow> sum_list (map (length \<circ> print_json) js) \<le> (188 + 6 * l) * length us"
  using assms
proof (induction us arbitrary: js)
  case (Cons u us)
  { case 1
    then obtain j js' where js: "js = j # js'" "MemberUpdate_json zone u = Some j"
        "those (map (MemberUpdate_json zone) us) = Some js'"
      by (auto split: option.splits)
    then show ?case using Cons.IH(1) [OF js(3)] print_update_length(1) [OF js(2)] by simp
  next
    case 2
    then obtain j js' where js: "js = j # js'" "MemberUpdate_json zone u = Some j"
        "those (map (MemberUpdate_json zone) us) = Some js'"
      by (auto split: option.splits)
    have "sum_list (map (length \<circ> print_json) js') \<le> (188 + 6 * l) * length us"
      by (rule Cons.IH(2) [OF _ _ js(3)]) (use 2(1,2) in simp_all)
    moreover have "length (print_json j) \<le> 188 + 6 * length (nid_IP (up_NodeID u))"
      using print_update_length(2) [OF js(2)] 2(1) by simp
    moreover have "length (nid_IP (up_NodeID u)) \<le> l" using 2(2) by simp
    ultimately show ?case by (simp add: js(1) comp_def)
  }
qed simp_all

lemma Marshal_length:
  assumes "Marshal_Message zone m = Some bytes"
  shows "107 * length (msg_Members m) \<le> length bytes"
    "message_fits m \<Longrightarrow> \<forall>n \<in> {msg_Sender m, msg_Target m} \<union> up_NodeID ` set (msg_Members m). length (nid_IP n) \<le> l
      \<Longrightarrow> length bytes \<le> 350 + 12 * l + (189 + 6 * l) * length (msg_Members m)"
proof -
  obtain us where us: "those (map (MemberUpdate_json zone) (msg_Members m)) = Some us"
    and bytes: "bytes = print_json (the (Message_json zone m))" "Message_json zone m \<noteq> None"
    using assms by (auto simp: Marshal_Message_def Message_json_def)
  have n: "length us = length (msg_Members m)" using those_length [OF us] by simp
  define arr where "arr = sum_list (map (length \<circ> print_json) us) + (length us - 1)"
  have arr: "length (print_json (JArr us)) = 2 + arr"
    by (simp add: arr_def commas_length comp_def)
  define rest where "rest = length (dec_int (type_int (msg_Type m))) + length (dec_int (sint (msg_Incarnation m)))
    + length (dec_int (sint (msg_Timestamp m))) + length (print_json (NodeID_json (msg_Sender m)))
    + length (print_json (NodeID_json (msg_Target m)))"
  have len: "length bytes = 57 + rest + (if msg_SeqNum m = 0 then 0 else 11 + length (dec_int (uint (msg_SeqNum m))))
      + (if us = [] then 0 else 13 + arr)"
    using arr us by (simp add: bytes Message_json_def print_int quote_raw_def rest_def)
  show "107 * length (msg_Members m) \<le> length bytes"
    using len print_updates_length(1) [OF us] n unfolding arr_def by (cases us) auto
  assume fits: "message_fits m"
    and hosts: "\<forall>n \<in> {msg_Sender m, msg_Target m} \<union> up_NodeID ` set (msg_Members m). length (nid_IP n) \<le> l"
  have "\<bar>type_int (msg_Type m)\<bar> < 10 ^ 19" using fits by (auto simp: message_fits_def)
  then have "length (dec_int (type_int (msg_Type m))) \<le> 20"
    using dec_int_length [of "type_int (msg_Type m)" 19] by simp
  then have "rest \<le> 20 + 11 + 20 + (70 + 6 * l) + (70 + 6 * l)"
    using int32_length [of "msg_Incarnation m"]
      int64_length [of "msg_Timestamp m"] print_NodeID_length [of "msg_Sender m"]
      print_NodeID_length [of "msg_Target m"] hosts
    by (auto simp: rest_def)
  moreover have "arr \<le> (189 + 6 * l) * length (msg_Members m)"
    using print_updates_length(2) [OF us, of l] fits hosts n
    by (auto simp: arr_def message_fits_def algebra_simps)
  ultimately show "length bytes \<le> 350 + 12 * l + (189 + 6 * l) * length (msg_Members m)"
    using len uint64_length [of "msg_SeqNum m"] by auto
qed

section \<open>Sending and receiving bytes\<close>

text \<open>
  \<^verbatim>\<open>Send\<close> and one pass of \<^verbatim>\<open>receiveLoop\<close> with their bytes. The socket is a parameter: \<open>net\<close>
  gives the error of resolving a target or of writing a datagram to it, if there is one. A
  read stores at most the buffer's length of a datagram.
\<close>

definition read_buffer :: nat where
  "read_buffer = 65536"

definition Send_bytes ::
  "int \<Rightarrow> (string \<Rightarrow> string \<Rightarrow> string option) \<Rightarrow> time \<Rightarrow> Message \<Rightarrow> string
    \<Rightarrow> (string \<times> string) list \<Rightarrow> string option \<times> (string \<times> string) list" where
  "Send_bytes zone net now msg target sent =
     (let msg1 = msg\<lparr>msg_Timestamp := time_Unix now\<rparr> in
      case Marshal_Message zone msg1 of
        None \<Rightarrow> (Some ''json: error calling MarshalJSON'', sent)
      | Some data \<Rightarrow>
          (case net target data of
             Some err \<Rightarrow> (Some err, sent)
           | None \<Rightarrow> (None, sent @ [(target, data)])))"

definition receive_bytes :: "rat \<Rightarrow> string \<Rightarrow> string \<Rightarrow> NetworkLayer \<Rightarrow> NetworkLayer" where
  "receive_bytes r bytes addr n =
     receive_datagram (Datagram r (Unmarshal_Message (take read_buffer bytes)) addr) n"

lemma Marshal_succeeds:
  "Marshal_Message zone m \<noteq> None \<longleftrightarrow> (\<forall>u \<in> set (msg_Members m). year_in_range zone (up_Timestamp u))"
proof -
  have "those (map (MemberUpdate_json zone) us) \<noteq> None \<longleftrightarrow> (\<forall>u \<in> set us. year_in_range zone (up_Timestamp u))" for us
    by (induction us) (auto simp: MemberUpdate_json_def MarshalTime_def Let_def split: option.splits)
  then show ?thesis by (simp add: Marshal_Message_def Message_json_def)
qed

text \<open>
  C17: Communication over bytes: when \<^verbatim>\<open>Send\<close> has written a message, whatever the writer's
  time zone and whatever characters the host names contain, the bytes it has put on the wire
  are read back by the receive loop as the very message, with the time stamp it was given;
  provided they fit into the receiver's buffer.
\<close>

theorem message_round_trip:
  assumes "zone_ok zone" "message_fits msg" "Send_bytes zone net now msg target sent = (None, sent')"
  shows "\<exists>bytes. sent' = sent @ [(target, bytes)] \<and> (length bytes \<le> read_buffer
    \<longrightarrow> receive_bytes r bytes src n = receive_datagram (Datagram r (Some (stamped now msg)) src) n)"
proof -
  obtain bytes where bytes: "Marshal_Message zone (stamped now msg) = Some bytes" "sent' = sent @ [(target, bytes)]"
    using assms(3) by (auto simp: Send_bytes_def stamped_def Let_def split: option.splits)
  have "message_fits (stamped now msg)" using assms(2) by (simp add: message_fits_def)
  then have "Unmarshal_Message bytes = Some (stamped now msg)"
    by (rule Marshal_Unmarshal [OF assms(1) bytes(1)])
  then show ?thesis using bytes(2) by (simp add: receive_bytes_def del: receive_datagram.simps)
qed

definition sample_update :: MemberUpdate where
  "sample_update = \<lparr>up_NodeID = \<lparr>nid_IP = ''10.0.0.1'', nid_Port = 8080, nid_Timestamp = 1709210096\<rparr>,
     up_Incarnation = 3, up_Status = Failed, up_Timestamp = 63844806896120450000\<rparr>"

definition sample_ping :: Message where
  "sample_ping = (message Ping)\<lparr>msg_Sender := up_NodeID sample_update, msg_SeqNum := 7, msg_Members := [sample_update]\<rparr>"

lemma sample_ping_fits: "message_fits sample_ping"
  by (simp add: sample_ping_def message_fits_def update_fits_def sample_update_def message_def)

lemma sample_ping_marshals: "\<exists>bytes. Marshal_Message 330 (stamped 5 sample_ping) = Some bytes"
proof -
  have "year_in_range 330 (up_Timestamp sample_update)"
    by (simp add: year_in_range_def year_start_def ns_per_day_def zone_ns_def sample_update_def)
  then show ?thesis
    using Marshal_succeeds [of 330 "stamped 5 sample_ping"] by (auto simp: sample_ping_def)
qed

theorem message_round_trip_witness:
  "\<exists>bytes. length bytes \<le> read_buffer
    \<and> nl_messageQueue (receive_bytes 1 bytes ''a'' (NewNetworkLayer (\<lambda>_. None)))
      = [\<lparr>rm_Message = stamped 5 sample_ping, rm_From = ''a''\<rparr>]"
proof -
  obtain bytes where bytes: "Marshal_Message 330 (stamped 5 sample_ping) = Some bytes"
    using sample_ping_marshals by blast
  have "length bytes \<le> read_buffer"
    using Marshal_length(2) [OF bytes, of 8] sample_ping_fits
    by (simp add: sample_ping_def message_fits_def sample_update_def message_def zero_NodeID_def read_buffer_def)
  moreover have "Send_bytes 330 (\<lambda>_ _. None) 5 sample_ping ''b'' [] = (None, [(''b'', bytes)])"
    using bytes by (simp add: Send_bytes_def stamped_def)
  ultimately show ?thesis
    using message_round_trip [of 330 sample_ping "\<lambda>_ _. None" 5 "''b''" "[]" _ 1 "''a''" "NewNetworkLayer (\<lambda>_. None)"]
      sample_ping_fits
    by (intro exI [of _ bytes]) (auto simp: zone_ok_def NewNetworkLayer_def queue_capacity_def)
qed

text \<open>
  C29: Size: with hosts of at most 45 characters (the longest text of an address) a message
  with at most ten updates, as heartbeats and pings have them, takes at most 6000 bytes;
  a message with 613 updates or more does not fit into the receiver's buffer of 65536 bytes,
  nor into any UDP datagram.
\<close>

theorem message_size:
  assumes "Marshal_Message zone m = Some bytes" "message_fits m"
    "\<forall>n \<in> {msg_Sender m, msg_Target m} \<union> up_NodeID ` set (msg_Members m). length (nid_IP n) \<le> 45"
  shows "(length (msg_Members m) \<le> 10 \<longrightarrow> length bytes \<le> 6000)
    \<and> (613 \<le> length (msg_Members m) \<longrightarrow> read_buffer < length bytes)"
  using Marshal_length(1) [OF assms(1)] Marshal_length(2) [OF assms]
  by (auto simp: read_buffer_def)

theorem message_size_witness:
  "\<exists>bytes. Marshal_Message 330 (stamped 5 sample_ping) = Some bytes \<and> length bytes \<le> 6000"
proof -
  obtain bytes where bytes: "Marshal_Message 330 (stamped 5 sample_ping) = Some bytes"
    using sample_ping_marshals by blast
  moreover have "message_fits (stamped 5 sample_ping)"
    using sample_ping_fits by (simp add: message_fits_def)
  moreover have "length (msg_Members (stamped 5 sample_ping)) \<le> 10" by (simp add: sample_ping_def)
  moreover have "\<forall>n \<in> {msg_Sender (stamped 5 sample_ping), msg_Target (stamped 5 sample_ping)}
      \<union> up_NodeID ` set (msg_Members (stamped 5 sample_ping)). length (nid_IP n) \<le> 45"
    by (simp add: sample_ping_def sample_update_def message_def zero_NodeID_def)
  ultimately show ?thesis
    using message_size [of 330 "stamped 5 sample_ping" bytes] by blast
qed

end
