(* ===== verification/Spec2Isabelle.thy ===== *)
theory Spec2Isabelle
  imports Probing Command Identities Wire
begin

text \<open>
  A verification of a distributed group membership service written in Go: nodes that watch
  each other with one of two failure detectors (SWIM-style ping/ack, or gossip), a suspicion
  manager between them and the membership list, a control server, and a distributed log
  query tool. This theory imports all others and holds the properties of whole nodes and of
  messages that travel between them.

  \<^bold>\<open>The program and its model.\<close> One process is one value of the record \<open>node\<close> (\<open>Node\<close>): the
  components that the process shares between its goroutines (membership list, network layer,
  suspicion manager, callbacks that were started and have not run yet), the two detectors and
  the mode. Every method of the source is a function from this state to the next, named like
  the method, with the time as an argument; a panic is \<^term>\<open>None\<close> or \<open>Panicked\<close>.

  \<^item> \<open>Prelude\<close>: machine integers, the clock, decimal printing and Go maps, and the locales
    \<open>go_map\<close>, \<open>keeping\<close>, \<open>framing\<close> and \<open>growing\<close> for what a loop of the program keeps.
  \<^item> \<open>Types\<close>: \<^verbatim>\<open>src/utils/types.go\<close>. Identities, members, messages, modes, timeout tables.
  \<^item> \<open>Membership\<close>: \<^verbatim>\<open>src/utils/membership.go\<close>. The list, its recent updates and the random
    choice of members, for every outcome of the shuffle.
  \<^item> \<open>Network\<close>: \<^verbatim>\<open>src/utils/network.go\<close>. The bounded queue, the receive and dispatch loops, the
    handlers, and sending, as a log of what was sent.
  \<^item> \<open>Suspicion\<close>: \<^verbatim>\<open>src/utils/suspicion.go\<close>; \<open>SuspicionSpec\<close>: the abstract machine of four
    phases per target (unsuspected, collecting reports, suspected, confirmed) that it refines.
  \<^item> \<open>PingAck\<close>, \<open>PingAck_Keeps\<close>: \<^verbatim>\<open>src/detectors/pingack.go\<close>. A protocol period blocks twice, so
    it is split at its waits: \<open>PA_period_begin\<close>, then one function per branch of each
    \<^verbatim>\<open>select\<close>; likewise the goroutine that serves a ping request.
  \<^item> \<open>Gossip\<close>, \<open>Gossip_Keeps\<close>: \<^verbatim>\<open>src/detectors/gossip.go\<close>.
  \<^item> \<open>Controller\<close>: \<^verbatim>\<open>src/main.go\<close>. The controller with its three callbacks, the status log and
    the handlers of the control server; \<open>Detector\<close>: the interface that both detectors offer
    the controller, as the locale \<open>detector\<close>, with joining and leaving.
  \<^item> \<open>System\<close>: the process as the inductive relation \<open>node_step\<close>, one rule per thing that can
    happen to it (a datagram, a dispatched message, a callback, a timer, a branch of a wait, a
    control request), and the states \<open>reachable\<close> from the start of the program;
    \<open>Probing\<close>: probes as conversations of two or three nodes.
  \<^item> \<open>Cluster\<close>: many processes, between which messages are lost, duplicated, reordered and
    misdirected but not forged, as the relation \<open>cluster_run\<close>, and what holds of all of them when
    suspicion is never enabled; \<open>Schedule\<close>: the same relation computed by lists of actions, so
    that a run can be evaluated; \<open>Identities\<close>: where the identities come from that travel
    through a cluster.
  \<^item> \<open>GoTime\<close>, \<open>GoJson\<close>, \<open>Wire\<close>: the bytes of a message. RFC 3339 times with the calendar, JSON
    as \<^verbatim>\<open>encoding/json\<close> scans and writes it, and the JSON form that the field tags of
    \<^verbatim>\<open>src/utils/types.go\<close> give to messages, with sending and receiving bytes.
  \<^item> \<open>GoText\<close>, \<open>LogServer\<close>, \<open>LogClient\<close>: \<^verbatim>\<open>src/logquerier\<close>. What the tool uses of Go's string,
    path, line and JSON packages; the server, which runs \<^verbatim>\<open>grep\<close>; the client, which merges the
    answers of all hosts in any order (the relation \<open>fanIn\<close>).
  \<^item> \<open>Command\<close>: \<^verbatim>\<open>src/main.go\<close>. The command-line client with the query strings it writes, the
    control server's paths, and \<^verbatim>\<open>main\<close> with its daemon, start and shutdown.

  \<^bold>\<open>What is shown.\<close> The invariant of all reachable states (bounded queue, stores filed by
  identity, quorate suspicions, no orphaned probe); the refinement of the abstract suspicion
  machine, and from it that an unrefuted suspicion fails its target at the first check after
  the timeout while one refuted in time never does; that refutations reach the suspecter;
  direct and indirect probes as round trips, and that every wait of a probe ends; the outcome
  of every update, failure check and join; equivalence of the two detectors' merging; bounds
  of queue, choices and messages; that bytes carry messages faithfully, and how many they are;
  that no process of a cluster ever makes a member up, and that in one without suspicion no
  incarnation ever leaves zero, so that news of a failure changes nothing at those who know
  the member; the log query from request to report;
  the round trip of a command's arguments; and what starting and shutting down the program
  does. Some theorems state behaviour that the code hardly intends: a
  failure announced at the stored incarnation is ignored, a failed member can be revived, a
  ping does not clear a suspicion, the message that announces a cleared suspicion makes its
  receivers deaf to the announcer, a refutation at the largest incarnation wraps around, a
  leaver comes back, a second switch to gossip panics, nobody can join a group of 613, a long
  line cuts an answer short.

  \<^bold>\<open>Choices.\<close> A handler, timer or callback runs as one step: the interleavings inside it, at
  the points where it gives up a lock, are not modelled, and neither are data races on fields
  read without one. A \<^verbatim>\<open>select\<close> takes any branch that is ready, so a loop that was told to stop may
  still run once more. Messages between nodes are the values that were sent, which \<open>Wire\<close>
  justifies; an error of sending depends on the target alone. Datagrams may be lost, duplicated
  and reordered, as \<open>receive\<close> takes any datagram at any time. A Go map is an
  association list in any order. The order of merged channels, the shuffle, the drop test's
  random numbers, the clock, the time zone and the answers of the operating system are
  arguments, quantified in the theorems. A drop rate is a rational number. No definition uses
  fuel: every loop over data is structural or has a proved measure, and the endless loops are
  the step relation.
  Strings are bytes, taken to be valid UTF-8; white space and letter case are those of ASCII.
  The nesting of JSON is limited to 10000, as in Go; messages need 4.

  \<^bold>\<open>Not modelled.\<close> The sockets themselves (what opening them returns is an argument), the HTTP
  server and client around the handlers, flag parsing, the delivery of signals, and the text
  of log messages: these are calls into the operating system or the library. \<^verbatim>\<open>ChangeType\<close> is
  unused. The scripts under \<^verbatim>\<open>src/scripts\<close> deploy and start the program.
\<close>

section \<open>Lemmas on the composition\<close>

lemma handleAlive_refutes:
  assumes "pa_active (pingack a)" "msg_Sender x = n" "target_phase a n = Suspecting i t"
    "lookup (membership a) (NodeID_String n) = Some m" "sint (mb_Incarnation m) \<le> sint (msg_Incarnation x)"
    "sint i \<le> sint (msg_Incarnation x)"
  shows "target_phase (PA_handleAliveMessage x now a) n = Unsuspected
    \<and> map_option mb_Status (lookup (membership (PA_handleAliveMessage x now a)) (NodeID_String n)) = Some Alive
    \<and> map_option mb_Incarnation (lookup (membership (PA_handleAliveMessage x now a)) (NodeID_String n))
      = Some (msg_Incarnation x)"
proof -
  let ?a = "a\<lparr>membership := alive_members x now (membership a)\<rparr>"
  have eq: "PA_handleAliveMessage x now a = ClearSuspect n (msg_Incarnation x) ?a"
    using assms by (simp add: PA_handleAliveMessage_def)
  obtain m1 where m1: "lookup (membership ?a) (NodeID_String n) = Some m1"
    "sint (mb_Incarnation m1) \<le> sint (msg_Incarnation x)"
    using assms by (cases "mb_Status m = Alive \<longrightarrow> sint (mb_Incarnation m) < sint (msg_Incarnation x)")
      (auto simp: alive_members_def Let_def)
  have phase: "target_phase ?a n = Suspecting i t"
    using assms(3) by (simp add: target_phase_def)
  have "lookup (membership (ClearSuspect n (msg_Incarnation x) ?a)) (NodeID_String n)
      = Some (m1\<lparr>mb_Status := Alive, mb_Incarnation := msg_Incarnation x\<rparr>)"
    using phase assms(6) m1 by (intro clear_member_lookup) auto
  then show ?thesis
    using phase assms(6) by (simp add: eq clear_phase)
qed

lemma map_IDs_update:
  "map_of al k = Some m \<Longrightarrow> mb_ID m' = mb_ID m \<Longrightarrow>
    map (\<lambda>(k, mm). mb_ID mm) (filter (\<lambda>(k, mm). P (mb_ID mm)) (AList.update k m' al))
      = map (\<lambda>(k, mm). mb_ID mm) (filter (\<lambda>(k, mm). P (mb_ID mm)) al)"
  by (induction al) (auto split: if_splits)

lemma recipients_store:
  "lookup ml k = Some m \<Longrightarrow> mb_ID m' = mb_ID m
    \<Longrightarrow> callback_recipients target (store k m' ml) = callback_recipients target ml"
  using map_IDs_update [of "ml_Members ml" k m m'] by (simp add: callback_recipients_def)

section \<open>Properties\<close>

text \<open>
  C1: In every state that a process can reach from its start, by any interleaving of
  received datagrams, dispatched messages, callbacks, timers and control requests: members
  and suspicions are filed once, under the key of their identity; a suspicion has started
  only with its quorum of distinct reporters and is confirmed only after it has started;
  the message queue holds at most 1000 messages; and every pending acknowledgement and
  every filed ping request belongs to a probe that is still in progress.
\<close>

theorem reachable_invariant:
  assumes "reachable config conn w"
  shows "keyed member_key (ml_Members (membership w))
    \<and> keyed entry_key (sm_entries (suspicion w))
    \<and> list_all (\<lambda>(k, e). wf_entry controller_options e) (sm_entries (suspicion w))
    \<and> length (nl_messageQueue (network w)) \<le> 1000
    \<and> dom (pa_pendingAcks (pingack w)) \<subseteq> pd_seqNum ` set (pa_periods (pingack w))
    \<and> dom (map_of (pa_pendingIndirect (pingack w))) \<subseteq> rl_key ` set (pa_relays (pingack w))"
proof -
  have ok: "node_ok conn w" using assms by (rule reachable_ok)
  then have sm: "wf_sm (suspicion w)" "sm_opts (suspicion w) = controller_options"
    by (simp_all add: node_ok_def wf_shared_def)
  then have "list_all (\<lambda>(k, e). wf_entry controller_options e) (sm_entries (suspicion w))"
    using keyed_update_iff_mem [of entry_key "sm_entries (suspicion w)"]
    by (fastforce simp: wf_sm_def list_all_iff)
  with ok show ?thesis
    by (simp add: node_ok_def wf_shared_def wf_ml_def wf_sm_def queue_ok_def queue_capacity_def
        pingack_ok_def periods_ok_def relays_ok_def)
qed

lemma started: "C_Start None w = (None, snd (C_Start None w))"
  by (simp add: C_Start_def Let_def)

theorem reachable_invariant_witness:
  "length (nl_messageQueue (network (snd (CS_handleLeave 9 (snd (C_Start None joiner)))))) \<le> 1000"
proof -
  have "reachable \<lparr>cfg_NodeID = node_at 3, cfg_IntroducerAddr = [], cfg_IsIntroducer = False,
     cfg_Mode = PingAckMode, cfg_Timeouts = DefaultTimeoutConfig\<rparr> (\<lambda>_. None)
     (snd (CS_handleLeave 9 (snd (C_Start None joiner))))"
    by (rule reachable.step [OF reachable.start node_step.internal [OF local_step.leave]], unfold joiner_def) (rule started)
  from reachable_invariant [OF this] show ?thesis by blast
qed

text \<open>
  C5: A refutation reaches the suspecter: when an active node, with suspicion enabled, is
  told that it is suspected, it sends one Alive message to every other member it can reach,
  and a node that holds the suspicion and the member at an incarnation not above the
  reported one clears the suspicion and holds the member alive when it handles that message.
\<close>

theorem refutation_reaches_suspecter:
  assumes "pa_active (pingack b)" "pa_enableSuspicion (pingack b)"
    "msg_Target s = ml_LocalNode (membership b)" "sint (msg_Incarnation s) < 2 ^ 31 - 1"
    "sint (ml_Incarnation (membership b)) < 2 ^ 31 - 1"
    "pa_active (pingack a)" "target_phase a (msg_Target s) = Suspecting i t"
    "lookup (membership a) (NodeID_String (msg_Target s)) = Some m"
    "sint i \<le> sint (msg_Incarnation s)" "sint (mb_Incarnation m) \<le> sint (msg_Incarnation s)"
  shows "\<exists>x. msg_Type x = AliveMsg
    \<and> nl_sent (network (PA_handleSuspectMessage s now b)) = nl_sent (network b) @
        map (\<lambda>addr. (addr, x)) (filter (\<lambda>addr. nl_conn (network b) addr = None)
          (other_addresses (membership b)))
    \<and> target_phase (PA_handleAliveMessage x now' a) (msg_Target s) = Unsuspected
    \<and> map_option mb_Status (lookup (membership (PA_handleAliveMessage x now' a))
        (NodeID_String (msg_Target s))) = Some Alive"
proof -
  let ?new = "if sint (msg_Incarnation s) \<ge> sint (ml_Incarnation (membership b))
    then msg_Incarnation s + 1 else ml_Incarnation (membership b) + 1"
  let ?x = "stamped now ((message AliveMsg)\<lparr>msg_Sender := ml_LocalNode (membership b),
    msg_Incarnation := ?new\<rparr>)"
  have above: "sint (msg_Incarnation s) < sint ?new"
    using sint_plus1_32 [OF assms(4)] sint_plus1_32 [OF assms(5)] by simp
  have "nl_sent (network (PA_handleSuspectMessage s now b)) = nl_sent (network b) @
      map (\<lambda>addr. (addr, ?x)) (filter (\<lambda>addr. nl_conn (network b) addr = None)
        (other_addresses (membership b)))"
    using assms(1-3) by (simp add: PA_handleSuspectMessage_def ProcessSuspicion_def
        handleSelfRefutation_def other_addresses_def send_all_sent Let_def)
  moreover have "target_phase (PA_handleAliveMessage ?x now' a) (msg_Target s) = Unsuspected
    \<and> map_option mb_Status (lookup (membership (PA_handleAliveMessage ?x now' a))
        (NodeID_String (msg_Target s))) = Some Alive"
    using handleAlive_refutes [OF assms(6) _ assms(7,8), of ?x now'] assms(3,9,10) above by simp
  ultimately show ?thesis by (intro exI [of _ ?x]) (simp add: message_def)
qed

definition suspecting_node :: node where
  "suspecting_node = (sample_node 1)\<lparr>
     suspicion := suspicion (ProcessSuspicion (node_at 0) (node_at 1) 0 7 (sample_shared 1)),
     membership := membership (ProcessSuspicion (node_at 0) (node_at 1) 0 7 (sample_shared 1))\<rparr>"

lemma suspecting_node_simps [simp]:
  "target_phase suspecting_node (node_at 1) = Suspecting 0 7" "suspicion_ok suspecting_node"
  "lookup (membership suspecting_node) (NodeID_String (node_at 1))
    = Some ((alive_at 1)\<lparr>mb_Status := Suspected, mb_SuspicionStart := 7\<rparr>)"
  "ml_LocalNode (membership suspecting_node) = node_at 0"
  "pingack suspecting_node = NewPingAckManager" "manager_timeout suspecting_node = 2000000000"
proof -
  let ?v = "ProcessSuspicion (node_at 0) (node_at 1) 0 7 (sample_shared 1)"
  have v: "suspicion suspecting_node = suspicion ?v" "membership suspecting_node = membership ?v"
    by (simp_all add: suspecting_node_def)
  have "target_phase ?v (node_at 1) = Suspecting 0 7" "suspicion_ok ?v"
    by (simp_all add: pm.ok_report report_phase spec_fresh_def)
  then show "target_phase suspecting_node (node_at 1) = Suspecting 0 7" "suspicion_ok suspecting_node"
    by (simp_all add: target_phase_def suspicion_ok_def v)
  show "lookup (membership suspecting_node) (NodeID_String (node_at 1))
    = Some ((alive_at 1)\<lparr>mb_Status := Suspected, mb_SuspicionStart := 7\<rparr>)"
    by (simp add: v fresh_report_member mark_suspected_def)
  show "ml_LocalNode (membership suspecting_node) = node_at 0"
    "pingack suspecting_node = NewPingAckManager" "manager_timeout suspecting_node = 2000000000"
    by (simp_all add: v service_frames) (simp add: suspecting_node_def)
qed

theorem refutation_reaches_suspecter_witness:
  "\<exists>x. target_phase (PA_handleAliveMessage x 9 suspecting_node) (node_at 1) = Unsuspected"
proof -
  let ?b = "(sample_node 1)\<lparr>membership := (membership (sample_node 1))\<lparr>ml_LocalNode := node_at 1\<rparr>,
    pingack := NewPingAckManager\<lparr>pa_enableSuspicion := True\<rparr>\<rparr>"
  let ?s = "(message Suspect)\<lparr>msg_Sender := node_at 0, msg_Target := node_at 1\<rparr>"
  have "ml_Incarnation (membership ?b) = 0" by (simp add: sample_shared_def)
  with refutation_reaches_suspecter [of ?b ?s suspecting_node 0 7
      "(alive_at 1)\<lparr>mb_Status := Suspected, mb_SuspicionStart := 7\<rparr>" 8 9]
  show ?thesis by (auto simp: NewPingAckManager_def message_def)
qed

text \<open>
  C35: A ping from a suspected member, even with a newer incarnation, makes it alive in the
  membership list but leaves the suspicion of it on file: the first check after the timeout
  fails the member that has just been heard of.
\<close>

theorem ping_does_not_clear_suspicion:
  assumes "suspicion_ok w" "pa_active (pingack w)" "msg_Members ping = []"
    "target_phase w (msg_Sender ping) = Suspecting i t"
    "lookup (membership w) (NodeID_String (msg_Sender ping)) = Some m"
    "sint (mb_Incarnation m) < sint (msg_Incarnation ping)" "t + manager_timeout w \<le> late"
  shows "map_option mb_Status (lookup (membership (PA_handlePing ping now w))
        (NodeID_String (msg_Sender ping))) = Some Alive
    \<and> map_option mb_Status (lookup (membership (check late (PA_handlePing ping now w)))
        (NodeID_String (msg_Sender ping))) = Some Failed"
proof -
  let ?w = "PA_handlePing ping now w"
  have "suspicion ?w = suspicion w"
    using assms(2,3) by (simp add: PA_handlePing_def PA_processUpdates_def Let_def)
  then have phase: "suspicion_ok ?w" "target_phase ?w (msg_Sender ping) = Suspecting i t"
    "manager_timeout ?w = manager_timeout w"
    using assms(1,4) by (simp_all add: suspicion_ok_def target_phase_def)
  have "map_option mb_Status (lookup (membership ?w) (NodeID_String (msg_Sender ping))) = Some Alive"
    using assms(2,3,5,6) by (simp add: PA_handlePing_def PA_processUpdates_def PA_note_sender_def Let_def)
  with phase assms(7) show ?thesis by (auto simp: check_member)
qed

theorem ping_does_not_clear_suspicion_witness:
  "map_option mb_Status (lookup (membership (check 3000000000 (PA_handlePing ((message Ping)\<lparr>
      msg_Sender := node_at 1, msg_Incarnation := 1\<rparr>) 9 suspecting_node))) (NodeID_String (node_at 1)))
    = Some Failed"
  using ping_does_not_clear_suspicion [of suspecting_node "(message Ping)\<lparr>msg_Sender := node_at 1,
      msg_Incarnation := 1\<rparr>" 0 7 "(alive_at 1)\<lparr>mb_Status := Suspected, mb_SuspicionStart := 7\<rparr>"
      3000000000 9]
  by (simp add: NewPingAckManager_def message_def)



text \<open>
  Each callback of the suspicion manager sends its one message (Suspect, Confirm or
  Alive, with the callback's incarnation) to every member other than the local node and the
  target. The message of the clear callback names the local node as its sender and carries
  the target's incarnation: a receiver takes it for news about the announcing node.
\<close>

theorem callbacks_announce:
  "\<exists>msg. nl_sent (network (run_task task now w)) = nl_sent (network w) @ map (\<lambda>a. (a, msg))
       (filter (\<lambda>a. nl_conn (network w) a = None) (map NodeID_Address
         (callback_recipients (case task of OnSuspect t _ _ \<Rightarrow> t | OnConfirm t _ \<Rightarrow> t | OnClear t _ \<Rightarrow> t)
           (membership w))))
    \<and> msg_Sender msg = ml_LocalNode (membership w)
    \<and> (case task of OnSuspect t i _ \<Rightarrow> msg_Type msg = Suspect \<and> msg_Target msg = t \<and> msg_Incarnation msg = i
       | OnConfirm t i \<Rightarrow> msg_Type msg = Confirm \<and> msg_Target msg = t \<and> msg_Incarnation msg = i
       | OnClear t i \<Rightarrow> msg_Type msg = AliveMsg \<and> msg_Target msg = zero_NodeID \<and> msg_Incarnation msg = i)"
proof -
  have kept: "callback_recipients t (case lookup ml (NodeID_String t) of None \<Rightarrow> ml
      | Some m \<Rightarrow> store (NodeID_String t) (f m) ml) = callback_recipients t ml"
    "ml_LocalNode (case lookup ml (NodeID_String t) of None \<Rightarrow> ml
      | Some m \<Rightarrow> store (NodeID_String t) (f m) ml) = ml_LocalNode ml"
    if "\<And>m. mb_ID (f m) = mb_ID m" for t f ml
    using that recipients_store [of ml "NodeID_String t"] by (auto split: option.split)
  show ?thesis
  proof (cases task)
    case (OnSuspect t i rs)
    then show ?thesis
      by (intro exI [of _ "stamped now ((message Suspect)\<lparr>msg_Sender := ml_LocalNode (membership w),
          msg_Target := t, msg_Incarnation := i\<rparr>)"])
        (simp add: C_OnSuspect_def Let_def kept send_all_sent message_def)
  next
    case (OnConfirm t i)
    then show ?thesis
      by (intro exI [of _ "stamped now ((message Confirm)\<lparr>msg_Sender := ml_LocalNode (membership w),
          msg_Target := t, msg_Incarnation := i\<rparr>)"])
        (simp add: C_OnConfirm_def Let_def kept send_all_sent message_def)
  next
    case (OnClear t i)
    then show ?thesis
      by (intro exI [of _ "stamped now ((message AliveMsg)\<lparr>msg_Sender := ml_LocalNode (membership w),
          msg_Incarnation := i\<rparr>)"])
        (cases "lookup (membership w) (NodeID_String t)",
          simp_all add: C_OnClear_def Let_def recipients_store send_all_sent message_def)
  qed
qed

text \<open>
  The incarnation that a node shows of itself (\<^verbatim>\<open>/list_self\<close>) is not the one it
  refutes with: a refutation of its own suspicion changes the answer of that request not at
  all.
\<close>

theorem refutation_not_listed:
  "CS_handleListSelf (handleSelfRefutation inc now w) = CS_handleListSelf w"
  by (simp add: CS_handleListSelf_def handleSelfRefutation_def Let_def)

text \<open>A heartbeat of the node \<open>n\<close> that speaks, also in its updates, of older incarnations of \<open>n\<close>.\<close>

definition stale_heartbeat :: "NodeID \<Rightarrow> int32 \<Rightarrow> Message \<Rightarrow> bool" where
  "stale_heartbeat n i p \<longleftrightarrow> msg_Sender p = n \<and> sint (msg_Incarnation p) < sint i
     \<and> list_all (\<lambda>u. up_NodeID u = n \<and> up_Status u = Alive \<and> sint (up_Incarnation u) < sint i) (msg_Members p)"

lemma stale_update_ignored:
  assumes "lookup (membership w) (NodeID_String (up_NodeID u)) = Some m"
    "map_of (sm_entries (suspicion w)) (NodeID_String (up_NodeID u)) = None"
    "up_NodeID u \<noteq> ml_LocalNode (membership w)" "up_Status u = Alive"
    "sint (up_Incarnation u) < sint (mb_Incarnation m)"
  shows "GM_processUpdate u r now w = w"
proof -
  have "up_Incarnation u \<noteq> mb_Incarnation m" using assms(5) by auto
  with assms show ?thesis
    by (simp add: GM_processUpdate_eq apply_update_def notify_def PA_merge_def ClearSuspect_def
        clear_member_def store_same Let_def)
qed

lemma stale_heartbeat_ignored:
  assumes "lookup (membership w) (NodeID_String n) = Some m" "mb_Incarnation m = i"
    "map_of (sm_entries (suspicion w)) (NodeID_String n) = None"
    "n \<noteq> ml_LocalNode (membership w)" "stale_heartbeat n i p"
  shows "GM_handleHeartbeat p now w = w"
proof -
  have inc: "msg_Incarnation p \<noteq> i" "\<not> sint i < sint (msg_Incarnation p)"
    using assms(5) by (auto simp: stale_heartbeat_def)
  have "GM_processUpdates us r now w = w"
    if "list_all (\<lambda>u. up_NodeID u = n \<and> up_Status u = Alive \<and> sint (up_Incarnation u) < sint i) us" for us r
    using that
  proof (induction us)
    case (Cons u us)
    then have "GM_processUpdate u r now w = w" using assms by (intro stale_update_ignored) auto
    with Cons show ?case by (simp add: GM_processUpdates_def)
  qed (simp add: GM_processUpdates_def)
  with assms inc show ?thesis
    by (simp add: GM_handleHeartbeat_def GM_note_sender_eq PA_note_sender_def stale_heartbeat_def Let_def)
qed

lemma GM_handleAlive_newer:
  assumes "gm_active (gossip w)" "msg_Sender x = n" "msg_Incarnation x = i"
    "lookup (membership w) (NodeID_String n) = Some m" "sint (mb_Incarnation m) < sint i"
    "map_of (sm_entries (suspicion w)) (NodeID_String n) = None"
    "m' = m\<lparr>mb_Incarnation := i, mb_Status := Alive, mb_LastHeartbeat := now, mb_SuspicionStart := 0\<rparr>"
  shows "GM_handleAliveMessage x now w
    = w\<lparr>membership := AddRecentUpdate now m' (store (NodeID_String n) m' (membership w))\<rparr>"
  using assms by (simp add: GM_handleAliveMessage_def alive_members_def ClearSuspect_def
      clear_member_def store_same Let_def)

lemma clear_callback_sends:
  "nl_sent (network (C_OnClear t i now w)) = nl_sent (network w) @ map (\<lambda>r. (r,
     stamped now ((message AliveMsg)\<lparr>msg_Sender := ml_LocalNode (membership w), msg_Incarnation := i\<rparr>)))
     (filter (\<lambda>r. nl_conn (network w) r = None)
       (map NodeID_Address (callback_recipients t (membership w))))"
  by (cases "lookup (membership w) (NodeID_String t)")
    (simp_all add: C_OnClear_def Let_def recipients_store send_all_sent message_def)



definition with_status :: "MemberStatus \<Rightarrow> MembershipList \<Rightarrow> nat" where
  "with_status st ml = length (filter (\<lambda>entry. mb_Status (snd entry) = st) (ml_Members ml))"

lemma status_counts_all:
  "status_counts (GetAllMembers ml) = (with_status Alive ml, with_status Suspected ml, with_status Failed ml)"
proof -
  have "fold (\<lambda>member (a, s, f). case mb_Status member of
       Alive \<Rightarrow> (a + 1, s, f) | Suspected \<Rightarrow> (a, s + 1, f) | Failed \<Rightarrow> (a, s, f + 1)
     | UnknownStatus _ \<Rightarrow> (a, s, f)) ms (a0, s0, f0)
    = (a0 + length (filter (\<lambda>m. mb_Status m = Alive) ms),
       s0 + length (filter (\<lambda>m. mb_Status m = Suspected) ms),
       f0 + length (filter (\<lambda>m. mb_Status m = Failed) ms))" for ms :: "Member list" and a0 s0 f0 :: nat
    by (induction ms arbitrary: a0 s0 f0) (auto split: MemberStatus.split)
  then show ?thesis
    by (simp add: status_counts_def with_status_def GetAllMembers_def filter_map comp_def case_prod_beta)
qed

text \<open>
  C40: The status log never fails, counts the members by status exactly and leaves them alone;
  but as the time for which a member has been suspected it prints the largest duration,
  whatever that time was, because the copy that it prints from has lost it (from the year 293
  on, when the present time exceeds the largest duration).
\<close>

theorem status_log_report:
  assumes "2 ^ 63 \<le> now"
  shows "\<exists>rep us w'. CLI_tick now w = Some (rep, us, w')
    \<and> sr_total rep = length (ml_Members (membership w))
    \<and> sr_alive rep = with_status Alive (membership w)
    \<and> sr_suspected rep = with_status Suspected (membership w)
    \<and> sr_failed rep = with_status Failed (membership w)
    \<and> ml_Members (membership w') = ml_Members (membership w)
    \<and> (\<forall>l \<in> set (sr_lines rep). sl_Status l = Suspected \<longrightarrow> sl_Info l = SuspectedFor (word_of_int (2 ^ 63 - 1)))"
proof -
  have "time_Sub now 0 = word_of_int (2 ^ 63 - 1)" using assms by (simp add: time_Sub_def)
  then have "sl_Info (status_line now m) = SuspectedFor (word_of_int (2 ^ 63 - 1))"
    if "m \<in> set (GetAllMembers ml)" "mb_Status m = Suspected" for m ml
    using that by (auto simp: status_line_def status_info_def GetAllMembers_def zero_Member_def)
  moreover have "length (GetAllMembers ml) = length (ml_Members ml)" for ml
    by (simp add: GetAllMembers_def)
  ultimately show ?thesis
    by (auto simp: CLI_tick_def status_report_def status_counts_all GetRecentUpdates_def Let_def
        status_line_def split: option.split)
qed

theorem status_log_report_witness:
  "\<exists>rep us w'. CLI_tick 63900000000000000000 joiner = Some (rep, us, w') \<and> sr_alive rep = 1"
proof -
  have "with_status Alive (membership joiner) = 1"
    by (simp add: with_status_def joiner_def NewController_def NewMembershipList_def)
  with status_log_report [of 63900000000000000000 joiner] show ?thesis by auto
qed



section \<open>Large groups\<close>

lemma recent_members [simp]:
  "ml_Members (fold (AddRecentUpdateSafe now) ms ml) = ml_Members ml"
  by (induction ms arbitrary: ml) (simp_all add: AddRecentUpdateSafe_def AddRecentUpdate_def)

lemma join_response_sent:
  assumes "pa_active (pingack w)" "nl_conn (network w) (NodeID_Address (msg_Sender x)) = None"
  shows "\<exists>response. nl_sent (network (PA_handleJoin x now w))
      = nl_sent (network w) @ [(NodeID_Address (msg_Sender x), response)]
    \<and> msg_Type response = JoinResponse
    \<and> length (msg_Members response) = length (ml_Members (membership (PA_handleJoin x now w)))"
  using assms join_members_response [of x now "membership w"]
  by (auto simp: PA_handleJoin_def Send_def Let_def case_prod_beta membership_updates_def message_def)

text \<open>
  C18: A member of a large group cannot let anybody in: once its list has 613 members, the
  joiner included, the response to a join, which carries all of them, is longer than the
  receiver's buffer, whatever the identities are.
\<close>

theorem large_group_cannot_join:
  assumes "pa_active (pingack w)" "nl_conn (network w) (NodeID_Address (msg_Sender x)) = None"
    "613 \<le> length (ml_Members (membership (PA_handleJoin x now w)))"
  shows "\<exists>response. nl_sent (network (PA_handleJoin x now w))
      = nl_sent (network w) @ [(NodeID_Address (msg_Sender x), response)]
    \<and> msg_Type response = JoinResponse
    \<and> (\<forall>zone. case Marshal_Message zone response of None \<Rightarrow> True | Some bytes \<Rightarrow> read_buffer < length bytes)"
proof -
  obtain response where r: "nl_sent (network (PA_handleJoin x now w))
      = nl_sent (network w) @ [(NodeID_Address (msg_Sender x), response)]" "msg_Type response = JoinResponse"
      "613 \<le> length (msg_Members response)"
    using join_response_sent [OF assms(1,2), of now] assms(3) by fastforce
  then have "read_buffer < length bytes" if "Marshal_Message zone response = Some bytes" for zone bytes
    using Marshal_length(1) [OF that] by (simp add: read_buffer_def)
  with r show ?thesis by (fastforce split: option.split)
qed

definition large_node :: node where
  "large_node = (sample_node 1)\<lparr>membership := (membership (sample_node 1))\<lparr>ml_Members :=
     map (\<lambda>i. (NodeID_String (node_at (of_nat i)), alive_at (of_nat i))) [0..<613]\<rparr>\<rparr>"

definition late_join :: Message where
  "late_join = (message Join)\<lparr>msg_Sender := \<lparr>nid_IP = ''10.0.0.2'', nid_Port = 1, nid_Timestamp = 5\<rparr>\<rparr>"

lemma update_longer: "length m \<le> length (AList.update k v m)"
  by (induction m) auto

lemma large_node_joined: "613 \<le> length (ml_Members (membership (PA_handleJoin late_join now large_node)))"
proof -
  have none: "old_entries (msg_Sender late_join) (membership large_node) = []"
    by (auto simp: old_entries_def filter_empty_conv late_join_def large_node_def alive_at_def node_at_def
        zero_Member_def address_inject)
  have "pa_active (pingack large_node)" by (simp add: large_node_def NewPingAckManager_def)
  then obtain m where "ml_Members (membership (PA_handleJoin late_join now large_node))
      = AList.update (NodeID_String (msg_Sender late_join)) m (ml_Members (membership large_node))"
    by (auto simp: PA_handleJoin_def join_members_def none Let_def)
  moreover have "length (ml_Members (membership large_node)) = 613" by (simp add: large_node_def)
  ultimately show ?thesis using update_longer [of "ml_Members (membership large_node)"] by simp
qed

theorem large_group_cannot_join_witness:
  "\<exists>response. nl_sent (network (PA_handleJoin late_join 7 large_node)) = [(''10.0.0.2:1'', response)]
    \<and> (\<forall>zone. case Marshal_Message zone response of None \<Rightarrow> True | Some bytes \<Rightarrow> read_buffer < length bytes)"
proof -
  have "NodeID_Address (msg_Sender late_join) = ''10.0.0.2:1''" by code_simp
  then show ?thesis
    using large_group_cannot_join [OF _ _ large_node_joined [of 7]]
    by (auto simp: large_node_def NewPingAckManager_def NewNetworkLayer_def)
qed

end
